theory Spec2Isabelle
  imports Main
begin

section \<open>Schema snapshot and diff result (package diff, schema types)\<close>

text \<open>
  A Go \<open>map[string]*T\<close> is an association list of key and object; a lookup is
  \<open>map_of\<close>, a \<open>range\<close> loop visits the entries in list order. Go leaves the
  iteration order open; every statement below is quantified over the lists, so it holds
  for each order. Keys of a Go map are unique, which is the predicate \<open>uniq\<close>.
  Pointers to schema objects are taken to be non-nil, as the reader and the comparator
  produce them, and are modelled by the object itself. Optional fields (\<open>*string\<close>,
  \<open>*int\<close>) are \<open>option\<close>s.
\<close>

type_synonym 'a gomap = "(string \<times> 'a) list"

definition uniq :: "'a gomap \<Rightarrow> bool" where
  "uniq m = distinct (map fst m)"

definition exists_key :: "'a gomap \<Rightarrow> string \<Rightarrow> bool" where
  "exists_key m k = (map_of m k \<noteq> None)"

record Column =
  col_Name :: string
  col_DataType :: string
  col_IsNullable :: bool
  col_DefaultValue :: "string option"
  col_CharMaxLength :: "int option"
  col_NumericPrecision :: "int option"
  col_NumericScale :: "int option"
  col_OrdinalPosition :: int
  col_Comment :: "string option"

record Table =
  tbl_Name :: string
  tbl_Schema :: string
  tbl_Columns :: "Column gomap"
  tbl_Comment :: string

record Index =
  idx_Name :: string
  idx_TableName :: string
  idx_Schema :: string
  idx_Columns :: "string list"
  idx_IsUnique :: bool
  idx_IsPrimary :: bool
  idx_Definition :: string

record Constraint =
  con_Name :: string
  con_TableName :: string
  con_Schema :: string
  con_Type :: string
  con_Definition :: string
  con_ForeignTable :: "string option"
  con_ForeignColumns :: "string list"
  con_OnDelete :: "string option"
  con_OnUpdate :: "string option"

record Sequence =
  seq_Name :: string
  seq_Schema :: string
  seq_StartValue :: int
  seq_Increment :: int

record Enum =
  enum_Name :: string
  enum_Schema :: string
  enum_Values :: "string list"

record Function =
  fn_Name :: string
  fn_Schema :: string
  fn_Definition :: string
  fn_ReturnType :: string
  fn_Language :: string

record View =
  view_Name :: string
  view_Schema :: string
  view_Definition :: string

record Trigger =
  trg_Name :: string
  trg_TableName :: string
  trg_Schema :: string
  trg_Timing :: string
  trg_Event :: string
  trg_Definition :: string

record DatabaseSchema =
  Tables :: "Table gomap"
  Sequences :: "Sequence gomap"
  Enums :: "Enum gomap"
  Functions :: "Function gomap"
  Indexes :: "Index gomap"
  Constraints :: "Constraint gomap"
  Views :: "View gomap"
  Triggers :: "Trigger gomap"

record ColumnDiff =
  cd_Name :: string
  OldColumn :: Column
  NewColumn :: Column
  TypeChanged :: bool
  NullableChanged :: bool
  DefaultChanged :: bool

record TableDiff =
  TableName :: string
  AddedColumns :: "Column list"
  DroppedColumns :: "Column list"
  AlteredColumns :: "ColumnDiff list"

record EnumDiff =
  ed_Name :: string
  AddedValues :: "string list"
  RemovedValues :: "string list"

record FunctionDiff =
  fd_Name :: string
  fd_OldDefinition :: string
  fd_NewDefinition :: string

record ViewDiff =
  vd_Name :: string
  vd_OldDefinition :: string
  vd_NewDefinition :: string

record DiffResult =
  CreatedTables :: "Table list"
  DroppedTables :: "Table list"
  AlteredTables :: "TableDiff list"
  CreatedIndexes :: "Index list"
  DroppedIndexes :: "Index list"
  CreatedConstraints :: "Constraint list"
  DroppedConstraints :: "Constraint list"
  CreatedSequences :: "Sequence list"
  DroppedSequences :: "Sequence list"
  CreatedEnums :: "Enum list"
  DroppedEnums :: "Enum list"
  AlteredEnums :: "EnumDiff list"
  CreatedFunctions :: "Function list"
  DroppedFunctions :: "Function list"
  AlteredFunctions :: "FunctionDiff list"
  CreatedViews :: "View list"
  DroppedViews :: "View list"
  AlteredViews :: "ViewDiff list"
  CreatedTriggers :: "Trigger list"
  DroppedTriggers :: "Trigger list"

text \<open>The zero value \<open>&DiffResult{}\<close>: every bucket is the nil slice.\<close>

definition emptyDiffResult :: DiffResult where
  "emptyDiffResult = \<lparr>
     CreatedTables = [], DroppedTables = [], AlteredTables = [],
     CreatedIndexes = [], DroppedIndexes = [],
     CreatedConstraints = [], DroppedConstraints = [],
     CreatedSequences = [], DroppedSequences = [],
     CreatedEnums = [], DroppedEnums = [], AlteredEnums = [],
     CreatedFunctions = [], DroppedFunctions = [], AlteredFunctions = [],
     CreatedViews = [], DroppedViews = [], AlteredViews = [],
     CreatedTriggers = [], DroppedTriggers = [] \<rparr>"

text \<open>\<open>HasChanges\<close>, disjunct by disjunct in the order of the source.\<close>

definition HasChanges :: "DiffResult \<Rightarrow> bool" where
  "HasChanges d =
    (length (CreatedTables d) > 0 \<or>
     length (DroppedTables d) > 0 \<or>
     length (AlteredTables d) > 0 \<or>
     length (CreatedIndexes d) > 0 \<or>
     length (DroppedIndexes d) > 0 \<or>
     length (CreatedConstraints d) > 0 \<or>
     length (DroppedConstraints d) > 0 \<or>
     length (CreatedViews d) > 0 \<or>
     length (DroppedViews d) > 0 \<or>
     length (AlteredViews d) > 0 \<or>
     length (CreatedFunctions d) > 0 \<or>
     length (DroppedFunctions d) > 0 \<or>
     length (AlteredFunctions d) > 0 \<or>
     length (CreatedTriggers d) > 0 \<or>
     length (DroppedTriggers d) > 0 \<or>
     length (CreatedEnums d) > 0 \<or>
     length (DroppedEnums d) > 0 \<or>
     length (CreatedSequences d) > 0 \<or>
     length (DroppedSequences d) > 0)"

text \<open>The reading of the specification: some bucket of the result is non-empty.\<close>

definition some_bucket_nonempty :: "DiffResult \<Rightarrow> bool" where
  "some_bucket_nonempty d =
    (0 < length (CreatedTables d) \<or> 0 < length (DroppedTables d) \<or>
     0 < length (AlteredTables d) \<or>
     0 < length (CreatedIndexes d) \<or> 0 < length (DroppedIndexes d) \<or>
     0 < length (CreatedConstraints d) \<or> 0 < length (DroppedConstraints d) \<or>
     0 < length (CreatedSequences d) \<or> 0 < length (DroppedSequences d) \<or>
     0 < length (CreatedEnums d) \<or> 0 < length (DroppedEnums d) \<or>
     0 < length (AlteredEnums d) \<or>
     0 < length (CreatedFunctions d) \<or> 0 < length (DroppedFunctions d) \<or>
     0 < length (AlteredFunctions d) \<or>
     0 < length (CreatedViews d) \<or> 0 < length (DroppedViews d) \<or>
     0 < length (AlteredViews d) \<or>
     0 < length (CreatedTriggers d) \<or> 0 < length (DroppedTriggers d))"

section \<open>Comparator\<close>

text \<open>
  The two loops every class shares: the objects of \<open>xs\<close> whose key is absent
  from \<open>ys\<close>, in iteration order.
\<close>

definition absent_in :: "'a gomap \<Rightarrow> 'a gomap \<Rightarrow> 'a list" where
  "absent_in xs ys = map snd (filter (\<lambda>(key, v). \<not> exists_key ys key) xs)"

text \<open>
  The third loop: for each source entry whose key exists in the target, the
  class-specific comparison; a \<open>nil\<close> result is skipped.
\<close>

definition altered_in :: "('a \<Rightarrow> 'a \<Rightarrow> 'b option) \<Rightarrow> 'a gomap \<Rightarrow> 'a gomap \<Rightarrow> 'b list" where
  "altered_in cmp src tgt =
     List.map_filter
       (\<lambda>(key, s). case map_of tgt key of None \<Rightarrow> None | Some t \<Rightarrow> cmp s t) src"

definition compareNullableStrings :: "string option \<Rightarrow> string option \<Rightarrow> bool" where
  "compareNullableStrings a b =
     (if a = None \<and> b = None then True
      else if a = None \<or> b = None then False
      else the a = the b)"

definition compareColumns :: "Column \<Rightarrow> Column \<Rightarrow> ColumnDiff option" where
  "compareColumns source target =
     (let tc = (col_DataType source \<noteq> col_DataType target);
          nc = (col_IsNullable source \<noteq> col_IsNullable target);
          dc = (\<not> compareNullableStrings (col_DefaultValue source) (col_DefaultValue target))
      in if \<not> (tc \<or> nc \<or> dc) then None
         else Some \<lparr> cd_Name = col_Name target, OldColumn = source, NewColumn = target,
                     TypeChanged = tc, NullableChanged = nc, DefaultChanged = dc \<rparr>)"

definition compareTableStructure :: "Table \<Rightarrow> Table \<Rightarrow> TableDiff option" where
  "compareTableStructure source target =
     (let added = absent_in (tbl_Columns target) (tbl_Columns source);
          dropped = absent_in (tbl_Columns source) (tbl_Columns target);
          altered = altered_in compareColumns (tbl_Columns source) (tbl_Columns target)
      in if added = [] \<and> dropped = [] \<and> altered = [] then None
         else Some \<lparr> TableName = tbl_Name target, AddedColumns = added,
                     DroppedColumns = dropped, AlteredColumns = altered \<rparr>)"

definition compareTables :: "DatabaseSchema \<Rightarrow> DatabaseSchema \<Rightarrow> DiffResult \<Rightarrow> DiffResult" where
  "compareTables source target result =
     result \<lparr> CreatedTables := CreatedTables result @ absent_in (Tables target) (Tables source),
              DroppedTables := DroppedTables result @ absent_in (Tables source) (Tables target),
              AlteredTables := AlteredTables result
                 @ altered_in compareTableStructure (Tables source) (Tables target) \<rparr>"

definition compareIndexes :: "DatabaseSchema \<Rightarrow> DatabaseSchema \<Rightarrow> DiffResult \<Rightarrow> DiffResult" where
  "compareIndexes source target result =
     result \<lparr> CreatedIndexes := CreatedIndexes result
                 @ filter (\<lambda>ix. \<not> idx_IsPrimary ix) (absent_in (Indexes target) (Indexes source)),
              DroppedIndexes := DroppedIndexes result
                 @ filter (\<lambda>ix. \<not> idx_IsPrimary ix) (absent_in (Indexes source) (Indexes target)) \<rparr>"

definition compareConstraints :: "DatabaseSchema \<Rightarrow> DatabaseSchema \<Rightarrow> DiffResult \<Rightarrow> DiffResult" where
  "compareConstraints source target result =
     result \<lparr> CreatedConstraints := CreatedConstraints result
                 @ absent_in (Constraints target) (Constraints source),
              DroppedConstraints := DroppedConstraints result
                 @ absent_in (Constraints source) (Constraints target) \<rparr>"

definition compareSequences :: "DatabaseSchema \<Rightarrow> DatabaseSchema \<Rightarrow> DiffResult \<Rightarrow> DiffResult" where
  "compareSequences source target result =
     result \<lparr> CreatedSequences := CreatedSequences result
                 @ absent_in (Sequences target) (Sequences source),
              DroppedSequences := DroppedSequences result
                 @ absent_in (Sequences source) (Sequences target) \<rparr>"

definition compareEnumValues :: "Enum \<Rightarrow> Enum \<Rightarrow> EnumDiff option" where
  "compareEnumValues source target =
     (let added = filter (\<lambda>val. val \<notin> set (enum_Values source)) (enum_Values target);
          removed = filter (\<lambda>val. val \<notin> set (enum_Values target)) (enum_Values source)
      in if added = [] \<and> removed = [] then None
         else Some \<lparr> ed_Name = enum_Name target, AddedValues = added, RemovedValues = removed \<rparr>)"

definition compareEnums :: "DatabaseSchema \<Rightarrow> DatabaseSchema \<Rightarrow> DiffResult \<Rightarrow> DiffResult" where
  "compareEnums source target result =
     result \<lparr> CreatedEnums := CreatedEnums result @ absent_in (Enums target) (Enums source),
              DroppedEnums := DroppedEnums result @ absent_in (Enums source) (Enums target),
              AlteredEnums := AlteredEnums result
                 @ altered_in compareEnumValues (Enums source) (Enums target) \<rparr>"

definition compareFunctionDefinition :: "Function \<Rightarrow> Function \<Rightarrow> FunctionDiff option" where
  "compareFunctionDefinition sourceFunc targetFunc =
     (if fn_Definition sourceFunc \<noteq> fn_Definition targetFunc
      then Some \<lparr> fd_Name = fn_Name targetFunc,
                  fd_OldDefinition = fn_Definition sourceFunc,
                  fd_NewDefinition = fn_Definition targetFunc \<rparr>
      else None)"

definition compareFunctions :: "DatabaseSchema \<Rightarrow> DatabaseSchema \<Rightarrow> DiffResult \<Rightarrow> DiffResult" where
  "compareFunctions source target result =
     result \<lparr> CreatedFunctions := CreatedFunctions result
                 @ absent_in (Functions target) (Functions source),
              DroppedFunctions := DroppedFunctions result
                 @ absent_in (Functions source) (Functions target),
              AlteredFunctions := AlteredFunctions result
                 @ altered_in compareFunctionDefinition (Functions source) (Functions target) \<rparr>"

definition compareViewDefinition :: "View \<Rightarrow> View \<Rightarrow> ViewDiff option" where
  "compareViewDefinition sourceView targetView =
     (if view_Definition sourceView \<noteq> view_Definition targetView
      then Some \<lparr> vd_Name = view_Name targetView,
                  vd_OldDefinition = view_Definition sourceView,
                  vd_NewDefinition = view_Definition targetView \<rparr>
      else None)"

definition compareViews :: "DatabaseSchema \<Rightarrow> DatabaseSchema \<Rightarrow> DiffResult \<Rightarrow> DiffResult" where
  "compareViews source target result =
     result \<lparr> CreatedViews := CreatedViews result @ absent_in (Views target) (Views source),
              DroppedViews := DroppedViews result @ absent_in (Views source) (Views target),
              AlteredViews := AlteredViews result
                 @ altered_in compareViewDefinition (Views source) (Views target) \<rparr>"

definition compareTriggers :: "DatabaseSchema \<Rightarrow> DatabaseSchema \<Rightarrow> DiffResult \<Rightarrow> DiffResult" where
  "compareTriggers source target result =
     result \<lparr> CreatedTriggers := CreatedTriggers result
                 @ absent_in (Triggers target) (Triggers source),
              DroppedTriggers := DroppedTriggers result
                 @ absent_in (Triggers source) (Triggers target) \<rparr>"

definition Compare :: "DatabaseSchema \<Rightarrow> DatabaseSchema \<Rightarrow> DiffResult" where
  "Compare source target =
     compareTriggers source target
      (compareViews source target
        (compareFunctions source target
          (compareEnums source target
            (compareSequences source target
              (compareConstraints source target
                (compareIndexes source target
                  (compareTables source target emptyDiffResult)))))))"

section \<open>Script generator (diff/generator.go)\<close>

record GeneratedScript =
  UpScript :: string
  DownScript :: string
  GeneratedAt :: string
  Description :: string
  HasBreaking :: bool
  Warnings :: "string list"

record Generator =
  schema :: string

definition NewGenerator :: "string \<Rightarrow> Generator" where
  "NewGenerator s = \<lparr> schema = (if s = [] then ''public'' else s) \<rparr>"

text \<open>
  The two \<open>strings.Builder\<close>s and the script under construction, threaded through
  the \<open>generate*\<close> methods. \<open>WriteString\<close> appends.
\<close>

record genstate =
  up :: string
  down :: string
  script :: GeneratedScript

definition upWrite :: "string \<Rightarrow> genstate \<Rightarrow> genstate" where
  "upWrite s st = st \<lparr> up := up st @ s \<rparr>"

definition downWrite :: "string \<Rightarrow> genstate \<Rightarrow> genstate" where
  "downWrite s st = st \<lparr> down := down st @ s \<rparr>"

text \<open>\<open>script.Warnings = append(script.Warnings, w)\<close>, alone.\<close>

definition warn :: "string \<Rightarrow> genstate \<Rightarrow> genstate" where
  "warn w st = st \<lparr> script := (script st) \<lparr> Warnings := Warnings (script st) @ [w] \<rparr> \<rparr>"

text \<open>\<open>script.HasBreaking = true\<close>.\<close>

definition setBreaking :: "genstate \<Rightarrow> genstate" where
  "setBreaking st = st \<lparr> script := (script st) \<lparr> HasBreaking := True \<rparr> \<rparr>"

text \<open>The verb \<open>%d\<close> of \<open>fmt.Sprintf\<close>: decimal digits, a minus sign when negative.\<close>

fun show_nat :: "nat \<Rightarrow> string" where
  "show_nat n =
     (if n < 10 then [''0123456789'' ! n]
      else show_nat (n div 10) @ [''0123456789'' ! (n mod 10)])"

definition show_int :: "int \<Rightarrow> string" where
  "show_int i = (if i < 0 then CHR ''-'' # show_nat (nat (- i)) else show_nat (nat i))"

definition formatColumnType :: "Column \<Rightarrow> string" where
  "formatColumnType col =
     (let dataType = col_DataType col in
      if col_CharMaxLength col \<noteq> None
        then dataType @ ''('' @ show_int (the (col_CharMaxLength col)) @ '')''
      else if col_NumericPrecision col \<noteq> None \<and> col_NumericScale col \<noteq> None
        then dataType @ ''('' @ show_int (the (col_NumericPrecision col)) @ '','' @
             show_int (the (col_NumericScale col)) @ '')''
      else if col_NumericPrecision col \<noteq> None
        then dataType @ ''('' @ show_int (the (col_NumericPrecision col)) @ '')''
      else dataType)"

text \<open>
  The lines of an enum's values: each value indented and quoted, a comma after all but
  the last (\<open>i < len(enum.Values)-1\<close>).
\<close>

fun enumValueLines :: "string list \<Rightarrow> string" where
  "enumValueLines [] = []"
| "enumValueLines [val] = ''    '' @ [CHR 0x27] @ val @ [CHR 0x27] @ ''\<newline>''"
| "enumValueLines (val # vals) =
     ''    '' @ [CHR 0x27] @ val @ [CHR 0x27] @ '',\<newline>'' @ enumValueLines vals"

definition createTypeText :: "Generator \<Rightarrow> Enum \<Rightarrow> string" where
  "createTypeText g enum =
     ''CREATE TYPE '' @ schema g @ ''.'' @ enum_Name enum @ '' AS ENUM (\<newline>'' @
     enumValueLines (enum_Values enum) @ '');\<newline>\<newline>''"

definition dropTypeText :: "Generator \<Rightarrow> Enum \<Rightarrow> string" where
  "dropTypeText g enum =
     ''DROP TYPE IF EXISTS '' @ schema g @ ''.'' @ enum_Name enum @ '';\<newline>\<newline>''"

definition createdEnumStep :: "Generator \<Rightarrow> Enum \<Rightarrow> genstate \<Rightarrow> genstate" where
  "createdEnumStep g enum st = downWrite (dropTypeText g enum) (upWrite (createTypeText g enum) st)"

definition addValueText :: "Generator \<Rightarrow> string \<Rightarrow> string \<Rightarrow> string" where
  "addValueText g name val =
     ''ALTER TYPE '' @ schema g @ ''.'' @ name @ '' ADD VALUE '' @ [CHR 0x27] @ val @
     [CHR 0x27] @ '';\<newline>''"

definition enumWarning :: "EnumDiff \<Rightarrow> string" where
  "enumWarning enumDiff =
     ''Cannot automatically remove enum values from '' @ ed_Name enumDiff @
     ''. Manual intervention required.''"

definition alteredEnumStep :: "Generator \<Rightarrow> EnumDiff \<Rightarrow> genstate \<Rightarrow> genstate" where
  "alteredEnumStep g enumDiff st =
     (let st1 = fold (\<lambda>val. upWrite (addValueText g (ed_Name enumDiff) val))
                  (AddedValues enumDiff) st;
          st2 = (if length (RemovedValues enumDiff) > 0
                 then setBreaking (warn (enumWarning enumDiff) st1) else st1)
      in upWrite ''\<newline>'' st2)"

definition droppedEnumStep :: "Generator \<Rightarrow> Enum \<Rightarrow> genstate \<Rightarrow> genstate" where
  "droppedEnumStep g enum st = downWrite (createTypeText g enum) (upWrite (dropTypeText g enum) st)"

definition generateEnums :: "Generator \<Rightarrow> DiffResult \<Rightarrow> genstate \<Rightarrow> genstate" where
  "generateEnums g diff st =
     fold (droppedEnumStep g) (DroppedEnums diff)
       (fold (alteredEnumStep g) (AlteredEnums diff)
         (fold (createdEnumStep g) (CreatedEnums diff) st))"

definition createSequenceText :: "Generator \<Rightarrow> Sequence \<Rightarrow> string" where
  "createSequenceText g seq =
     ''CREATE SEQUENCE '' @ schema g @ ''.'' @ seq_Name seq @ '' START WITH '' @
     show_int (seq_StartValue seq) @ '' INCREMENT BY '' @ show_int (seq_Increment seq) @
     '';\<newline>\<newline>''"

definition dropSequenceText :: "Generator \<Rightarrow> Sequence \<Rightarrow> string" where
  "dropSequenceText g seq =
     ''DROP SEQUENCE IF EXISTS '' @ schema g @ ''.'' @ seq_Name seq @ '';\<newline>\<newline>''"

definition generateSequences :: "Generator \<Rightarrow> DiffResult \<Rightarrow> genstate \<Rightarrow> genstate" where
  "generateSequences g diff st =
     fold (\<lambda>seq s. downWrite (createSequenceText g seq) (upWrite (dropSequenceText g seq) s))
       (DroppedSequences diff)
       (fold (\<lambda>seq s. downWrite (dropSequenceText g seq) (upWrite (createSequenceText g seq) s))
         (CreatedSequences diff) st)"

text \<open>
  The exchange sort of \<open>generateTables\<close>: for \<open>i\<close> from 0 and \<open>j\<close> from \<open>i+1\<close>,
  swap when the ordinal position at \<open>i\<close> is the greater.
\<close>

definition swapIfGreater :: "nat \<Rightarrow> nat \<Rightarrow> Column list \<Rightarrow> Column list" where
  "swapIfGreater i j columns =
     (if col_OrdinalPosition (columns ! i) > col_OrdinalPosition (columns ! j)
      then columns [i := columns ! j, j := columns ! i] else columns)"

definition sortByOrdinal :: "Column list \<Rightarrow> Column list" where
  "sortByOrdinal columns =
     fold (\<lambda>i cs. fold (\<lambda>j. swapIfGreater i j) [i + 1 ..< length columns] cs)
       [0 ..< length columns] columns"

text \<open>\<open>NOT NULL\<close> and \<open>DEFAULT\<close>, written after a column's name and type.\<close>

definition columnClauses :: "Column \<Rightarrow> string" where
  "columnClauses col =
     (if \<not> col_IsNullable col then '' NOT NULL'' else []) @
     (if col_DefaultValue col \<noteq> None then '' DEFAULT '' @ the (col_DefaultValue col) else [])"

fun columnLines :: "Column list \<Rightarrow> string" where
  "columnLines [] = []"
| "columnLines [col] =
     ''    '' @ col_Name col @ '' '' @ formatColumnType col @ columnClauses col @ ''\<newline>''"
| "columnLines (col # cols) =
     ''    '' @ col_Name col @ '' '' @ formatColumnType col @ columnClauses col @
     '',\<newline>'' @ columnLines cols"

definition createdTableStep :: "Generator \<Rightarrow> Table \<Rightarrow> genstate \<Rightarrow> genstate" where
  "createdTableStep g table st =
     downWrite (''DROP TABLE IF EXISTS '' @ schema g @ ''.'' @ tbl_Name table @
                '' CASCADE;\<newline>\<newline>'')
       (upWrite (''CREATE TABLE '' @ schema g @ ''.'' @ tbl_Name table @ '' (\<newline>'' @
                 columnLines (sortByOrdinal (map snd (tbl_Columns table))) @
                 '');\<newline>\<newline>'') st)"

definition addColumnText :: "Generator \<Rightarrow> string \<Rightarrow> Column \<Rightarrow> string" where
  "addColumnText g tableName col =
     ''ALTER TABLE '' @ schema g @ ''.'' @ tableName @ '' ADD COLUMN '' @ col_Name col @
     '' '' @ formatColumnType col @ columnClauses col @ '';\<newline>''"

definition dropColumnText :: "Generator \<Rightarrow> string \<Rightarrow> Column \<Rightarrow> string" where
  "dropColumnText g tableName col =
     ''ALTER TABLE '' @ schema g @ ''.'' @ tableName @ '' DROP COLUMN IF EXISTS '' @
     col_Name col @ '';\<newline>''"

definition addedColumnStep :: "Generator \<Rightarrow> string \<Rightarrow> Column \<Rightarrow> genstate \<Rightarrow> genstate" where
  "addedColumnStep g tableName col st =
     downWrite (dropColumnText g tableName col) (upWrite (addColumnText g tableName col) st)"

definition droppedColumnWarning :: "string \<Rightarrow> Column \<Rightarrow> string" where
  "droppedColumnWarning tableName col =
     ''Dropping column '' @ tableName @ ''.'' @ col_Name col @ '' will result in data loss''"

definition droppedColumnStep :: "Generator \<Rightarrow> string \<Rightarrow> Column \<Rightarrow> genstate \<Rightarrow> genstate" where
  "droppedColumnStep g tableName col st =
     downWrite (addColumnText g tableName col)
       (setBreaking
         (warn (droppedColumnWarning tableName col)
           (upWrite (dropColumnText g tableName col) st)))"

definition alterColumnPrefix :: "Generator \<Rightarrow> string \<Rightarrow> ColumnDiff \<Rightarrow> string" where
  "alterColumnPrefix g tableName colDiff =
     ''ALTER TABLE '' @ schema g @ ''.'' @ tableName @ '' ALTER COLUMN '' @ cd_Name colDiff"

definition typeChangeWarning :: "string \<Rightarrow> ColumnDiff \<Rightarrow> string" where
  "typeChangeWarning tableName colDiff =
     ''Type change on '' @ tableName @ ''.'' @ cd_Name colDiff @
     '' may cause data loss or conversion errors''"

definition notNullWarning :: "string \<Rightarrow> ColumnDiff \<Rightarrow> string" where
  "notNullWarning tableName colDiff =
     ''Setting NOT NULL on '' @ tableName @ ''.'' @ cd_Name colDiff @
     '' may fail if existing NULL values exist''"

definition typeChangedPart :: "Generator \<Rightarrow> string \<Rightarrow> ColumnDiff \<Rightarrow> genstate \<Rightarrow> genstate" where
  "typeChangedPart g tableName colDiff st =
     (if TypeChanged colDiff
      then warn (typeChangeWarning tableName colDiff)
             (downWrite (alterColumnPrefix g tableName colDiff @ '' TYPE '' @
                         formatColumnType (OldColumn colDiff) @ '';\<newline>'')
               (upWrite (alterColumnPrefix g tableName colDiff @ '' TYPE '' @
                         formatColumnType (NewColumn colDiff) @ '';\<newline>'') st))
      else st)"

definition nullableChangedPart :: "Generator \<Rightarrow> string \<Rightarrow> ColumnDiff \<Rightarrow> genstate \<Rightarrow> genstate" where
  "nullableChangedPart g tableName colDiff st =
     (if NullableChanged colDiff
      then (if col_IsNullable (NewColumn colDiff)
            then downWrite (alterColumnPrefix g tableName colDiff @ '' SET NOT NULL;\<newline>'')
                   (upWrite (alterColumnPrefix g tableName colDiff @ '' DROP NOT NULL;\<newline>'') st)
            else warn (notNullWarning tableName colDiff)
                   (downWrite (alterColumnPrefix g tableName colDiff @ '' DROP NOT NULL;\<newline>'')
                     (upWrite (alterColumnPrefix g tableName colDiff @ '' SET NOT NULL;\<newline>'') st)))
      else st)"

definition defaultText :: "Generator \<Rightarrow> string \<Rightarrow> ColumnDiff \<Rightarrow> Column \<Rightarrow> string" where
  "defaultText g tableName colDiff col =
     (if col_DefaultValue col \<noteq> None
      then alterColumnPrefix g tableName colDiff @ '' SET DEFAULT '' @
           the (col_DefaultValue col) @ '';\<newline>''
      else alterColumnPrefix g tableName colDiff @ '' DROP DEFAULT;\<newline>'')"

definition defaultChangedPart :: "Generator \<Rightarrow> string \<Rightarrow> ColumnDiff \<Rightarrow> genstate \<Rightarrow> genstate" where
  "defaultChangedPart g tableName colDiff st =
     (if DefaultChanged colDiff
      then downWrite (defaultText g tableName colDiff (OldColumn colDiff))
             (upWrite (defaultText g tableName colDiff (NewColumn colDiff)) st)
      else st)"

definition alteredColumnStep :: "Generator \<Rightarrow> string \<Rightarrow> ColumnDiff \<Rightarrow> genstate \<Rightarrow> genstate" where
  "alteredColumnStep g tableName colDiff st =
     defaultChangedPart g tableName colDiff
       (nullableChangedPart g tableName colDiff
         (typeChangedPart g tableName colDiff st))"

definition alteredTableStep :: "Generator \<Rightarrow> TableDiff \<Rightarrow> genstate \<Rightarrow> genstate" where
  "alteredTableStep g tableDiff st =
     downWrite ''\<newline>''
       (upWrite ''\<newline>''
         (fold (alteredColumnStep g (TableName tableDiff)) (AlteredColumns tableDiff)
           (fold (droppedColumnStep g (TableName tableDiff)) (DroppedColumns tableDiff)
             (fold (addedColumnStep g (TableName tableDiff)) (AddedColumns tableDiff) st))))"

definition droppedTableWarning :: "Table \<Rightarrow> string" where
  "droppedTableWarning table =
     ''Dropping table '' @ tbl_Name table @ '' will result in complete data loss''"

definition droppedTableStep :: "Generator \<Rightarrow> Table \<Rightarrow> genstate \<Rightarrow> genstate" where
  "droppedTableStep g table st =
     downWrite (''-- TODO: Recreate table '' @ schema g @ ''.'' @ tbl_Name table @
                '' with all columns and data\<newline>\<newline>'')
       (setBreaking
         (warn (droppedTableWarning table)
           (upWrite (''DROP TABLE IF EXISTS '' @ schema g @ ''.'' @ tbl_Name table @
                     '' CASCADE;\<newline>\<newline>'') st)))"

definition generateTables :: "Generator \<Rightarrow> DiffResult \<Rightarrow> genstate \<Rightarrow> genstate" where
  "generateTables g diff st =
     fold (droppedTableStep g) (DroppedTables diff)
       (fold (alteredTableStep g) (AlteredTables diff)
         (fold (createdTableStep g) (CreatedTables diff) st))"

definition dropConstraintText :: "Generator \<Rightarrow> Constraint \<Rightarrow> string" where
  "dropConstraintText g constraint =
     ''ALTER TABLE '' @ schema g @ ''.'' @ con_TableName constraint @
     '' DROP CONSTRAINT IF EXISTS '' @ con_Name constraint @ '';\<newline>''"

definition addConstraintText :: "Generator \<Rightarrow> Constraint \<Rightarrow> string" where
  "addConstraintText g constraint =
     ''ALTER TABLE '' @ schema g @ ''.'' @ con_TableName constraint @
     '' ADD CONSTRAINT '' @ con_Name constraint @ '' '' @ con_Definition constraint @
     '';\<newline>''"

definition generateConstraints :: "Generator \<Rightarrow> DiffResult \<Rightarrow> genstate \<Rightarrow> genstate" where
  "generateConstraints g diff st =
     (let st1 = fold (\<lambda>c. upWrite (dropConstraintText g c)) (DroppedConstraints diff) st;
          st2 = (if length (DroppedConstraints diff) > 0 then upWrite ''\<newline>'' st1 else st1);
          st3 = fold (\<lambda>c s. downWrite (dropConstraintText g c) (upWrite (addConstraintText g c) s))
                  (CreatedConstraints diff) st2;
          st4 = (if length (CreatedConstraints diff) > 0
                 then downWrite ''\<newline>'' (upWrite ''\<newline>'' st3) else st3);
          st5 = fold (\<lambda>c. downWrite (addConstraintText g c)) (DroppedConstraints diff) st4
      in if length (DroppedConstraints diff) > 0 then downWrite ''\<newline>'' st5 else st5)"

definition dropIndexText :: "Generator \<Rightarrow> Index \<Rightarrow> string" where
  "dropIndexText g index =
     ''DROP INDEX IF EXISTS '' @ schema g @ ''.'' @ idx_Name index @ '';\<newline>''"

definition generateIndexes :: "Generator \<Rightarrow> DiffResult \<Rightarrow> genstate \<Rightarrow> genstate" where
  "generateIndexes g diff st =
     (let st1 = fold (\<lambda>index s. downWrite (dropIndexText g index)
                                  (upWrite (idx_Definition index @ '';\<newline>'') s))
                  (CreatedIndexes diff) st;
          st2 = (if length (CreatedIndexes diff) > 0
                 then downWrite ''\<newline>'' (upWrite ''\<newline>'' st1) else st1);
          st3 = fold (\<lambda>index s. downWrite (idx_Definition index @ '';\<newline>'')
                                  (upWrite (dropIndexText g index) s))
                  (DroppedIndexes diff) st2
      in if length (DroppedIndexes diff) > 0
         then downWrite ''\<newline>'' (upWrite ''\<newline>'' st3) else st3)"

definition dropFunctionText :: "Generator \<Rightarrow> Function \<Rightarrow> string" where
  "dropFunctionText g fn =
     ''DROP FUNCTION IF EXISTS '' @ schema g @ ''.'' @ fn_Name fn @ '';\<newline>\<newline>''"

definition generateFunctions :: "Generator \<Rightarrow> DiffResult \<Rightarrow> genstate \<Rightarrow> genstate" where
  "generateFunctions g diff st =
     fold (\<lambda>fn s. downWrite '';\<newline>\<newline>'' (downWrite (fn_Definition fn)
                     (upWrite (dropFunctionText g fn) s)))
       (DroppedFunctions diff)
       (fold (\<lambda>fnDiff s.
                downWrite '';\<newline>\<newline>''
                  (downWrite (fd_OldDefinition fnDiff)
                    (downWrite (''-- Restoring function '' @ fd_Name fnDiff @ ''\<newline>'')
                      (upWrite '';\<newline>\<newline>''
                        (upWrite (fd_NewDefinition fnDiff)
                          (upWrite (''-- Replacing function '' @ fd_Name fnDiff @ ''\<newline>'') s))))))
          (AlteredFunctions diff)
          (fold (\<lambda>fn s. downWrite (dropFunctionText g fn)
                           (upWrite '';\<newline>\<newline>'' (upWrite (fn_Definition fn) s)))
             (CreatedFunctions diff) st))"

definition createViewText :: "Generator \<Rightarrow> string \<Rightarrow> string \<Rightarrow> string" where
  "createViewText g name definition =
     ''CREATE VIEW '' @ schema g @ ''.'' @ name @ '' AS\<newline>'' @ definition @
     '';\<newline>\<newline>''"

definition replaceViewText :: "Generator \<Rightarrow> string \<Rightarrow> string \<Rightarrow> string" where
  "replaceViewText g name definition =
     ''CREATE OR REPLACE VIEW '' @ schema g @ ''.'' @ name @ '' AS\<newline>'' @ definition @
     '';\<newline>\<newline>''"

definition dropViewText :: "Generator \<Rightarrow> string \<Rightarrow> string" where
  "dropViewText g name =
     ''DROP VIEW IF EXISTS '' @ schema g @ ''.'' @ name @ '';\<newline>\<newline>''"

definition generateViews :: "Generator \<Rightarrow> DiffResult \<Rightarrow> genstate \<Rightarrow> genstate" where
  "generateViews g diff st =
     fold (\<lambda>view s. downWrite (createViewText g (view_Name view) (view_Definition view))
                       (upWrite (dropViewText g (view_Name view)) s))
       (DroppedViews diff)
       (fold (\<lambda>viewDiff s.
                downWrite (replaceViewText g (vd_Name viewDiff) (vd_OldDefinition viewDiff))
                  (upWrite (replaceViewText g (vd_Name viewDiff) (vd_NewDefinition viewDiff)) s))
          (AlteredViews diff)
          (fold (\<lambda>view s. downWrite (dropViewText g (view_Name view))
                             (upWrite (createViewText g (view_Name view) (view_Definition view)) s))
             (CreatedViews diff) st))"

definition dropTriggerText :: "Generator \<Rightarrow> Trigger \<Rightarrow> string" where
  "dropTriggerText g trigger =
     ''DROP TRIGGER IF EXISTS '' @ trg_Name trigger @ '' ON '' @ schema g @ ''.'' @
     trg_TableName trigger @ '';\<newline>\<newline>''"

definition generateTriggers :: "Generator \<Rightarrow> DiffResult \<Rightarrow> genstate \<Rightarrow> genstate" where
  "generateTriggers g diff st =
     fold (\<lambda>trigger s. downWrite (trg_Definition trigger @ '';\<newline>\<newline>'')
                          (upWrite (dropTriggerText g trigger) s))
       (DroppedTriggers diff)
       (fold (\<lambda>trigger s. downWrite (dropTriggerText g trigger)
                             (upWrite (trg_Definition trigger @ '';\<newline>\<newline>'') s))
          (CreatedTriggers diff) st)"

text \<open>
  \<open>Generate\<close>. The clock is a parameter: \<open>now\<close> is \<open>time.Now()\<close> in the RFC3339
  form the headers print.
\<close>

definition header :: "string \<Rightarrow> string \<Rightarrow> string \<Rightarrow> string" where
  "header description now direction =
     ''-- Migration: '' @ description @ ''\<newline>'' @
     ''-- Generated: '' @ now @ ''\<newline>'' @
     ''-- '' @ direction @ '' Migration\<newline>\<newline>''"

definition initialState :: "string \<Rightarrow> string \<Rightarrow> genstate" where
  "initialState now description =
     \<lparr> up = header description now ''UP'',
       down = header description now ''DOWN'',
       script = \<lparr> UpScript = [], DownScript = [], GeneratedAt = now,
                  Description = description, HasBreaking = False, Warnings = [] \<rparr> \<rparr>"

definition Generate :: "Generator \<Rightarrow> string \<Rightarrow> DiffResult \<Rightarrow> string \<Rightarrow> GeneratedScript" where
  "Generate g now diff description =
     (let st = generateTriggers g diff
                (generateViews g diff
                  (generateFunctions g diff
                    (generateIndexes g diff
                      (generateConstraints g diff
                        (generateTables g diff
                          (generateSequences g diff
                            (generateEnums g diff (initialState now description))))))))
      in (script st) \<lparr> UpScript := up st, DownScript := down st \<rparr>)"

section \<open>Parameter envelope (package plugin, type Parameter)\<close>

text \<open>
  What \<open>encoding/json\<close> decodes into an \<open>interface{}\<close>: \<open>nil\<close>, a bool, a number, a
  string, a slice or a \<open>map[string]interface{}\<close>. The payload of a number is not read by
  the code modelled here. A missing key of a Go map reads as \<open>nil\<close>, as a JSON
  \<open>null\<close> does.
\<close>

datatype jv = JNull | JBool bool | JNum int | JStr string | JArr "jv list"
  | JObj "(string \<times> jv) list"

text \<open>
  A failed type assertion \<open>x.(T)\<close>, an index out of range and an assignment to an entry
  of the nil map are run-time panics.
\<close>

datatype panic = InterfaceConversion string | IndexOutOfRange int | NilMapAssignment

text \<open>
  The envelope: its map and its log buffer. \<open>p_nilMap\<close> says that the map is the nil
  map, which \<open>json.Unmarshal\<close> leaves for the text \<open>null\<close>: it reads as the empty map and
  cannot be assigned to.
\<close>

record Parameter =
  p_value :: "jv gomap"
  p_log :: string
  p_nilMap :: bool

definition NewParameter :: Parameter where
  "NewParameter = \<lparr> p_value = [], p_log = [], p_nilMap = False \<rparr>"

definition Get :: "Parameter \<Rightarrow> string \<Rightarrow> jv" where
  "Get r key =
     (if p_nilMap r then JNull
      else case map_of (p_value r) key of None \<Rightarrow> JNull | Some v \<Rightarrow> v)"




definition GetString :: "Parameter \<Rightarrow> string \<Rightarrow> panic + string" where
  "GetString r key = (case Get r key of JStr s \<Rightarrow> Inr s | _ \<Rightarrow> Inl (InterfaceConversion key))"


definition HasError :: "Parameter \<Rightarrow> bool" where
  "HasError r = (Get r ''error'' \<noteq> JNull)"

text \<open>\<open>Error\<close>: \<open>nil\<close> is \<open>None\<close>; an error value is its message.\<close>

definition Error :: "Parameter \<Rightarrow> panic + string option" where
  "Error r =
     (case Get r ''error'' of
        JNull \<Rightarrow> Inr None
      | JStr s \<Rightarrow> Inr (Some s)
      | _ \<Rightarrow> Inl (InterfaceConversion ''error''))"

definition hasSuffix :: "string \<Rightarrow> string \<Rightarrow> bool" where
  "hasSuffix s suffix =
     (length suffix \<le> length s \<and> drop (length s - length suffix) s = suffix)"

definition trimSuffix :: "string \<Rightarrow> string \<Rightarrow> string" where
  "trimSuffix s suffix = (if hasSuffix s suffix then take (length s - length suffix) s else s)"

definition GetLog :: "Parameter \<Rightarrow> panic + string" where
  "GetLog r =
     (case Get r ''log'' of
        JNull \<Rightarrow> Inr []
      | JStr l \<Rightarrow> Inr (if hasSuffix l ''\<newline>\<newline>'' then trimSuffix l ''\<newline>'' else l)
      | _ \<Rightarrow> Inl (InterfaceConversion ''log''))"

text \<open>
  The \<open>Version\<close> record of the provider boundary. \<open>time.Parse\<close> and its discarded
  error are not modelled: \<open>ver_Time\<close> holds the text of the \<open>time\<close> entry, and the
  zero time of a version built by the engine is the empty text.
\<close>

record Version =
  ver_AppVersion :: string
  ver_DbVersion :: string
  ver_Description :: string
  ver_Source :: string
  ver_Time :: string

text \<open>\<open>v[key].(string)\<close> on the object under \<open>result\<close>.\<close>

definition field :: "(string \<times> jv) list \<Rightarrow> string \<Rightarrow> panic + string" where
  "field v key = (case map_of v key of Some (JStr s) \<Rightarrow> Inr s | _ \<Rightarrow> Inl (InterfaceConversion key))"

text \<open>
  \<open>GetVersion\<close>. The assertion to \<open>map[string]interface{}\<close> has no \<open>ok\<close> result, so
  it panics unless the entry is an object; a decoded object is never the nil map, so the
  test \<open>v != nil\<close> holds whenever it is reached and the final \<open>return nil\<close> is not.
  The fields are read in the order of the source: \<open>time\<close> first.
\<close>

definition GetVersion :: "Parameter \<Rightarrow> panic + Version option" where
  "GetVersion r =
     (case Get r ''result'' of
        JObj v \<Rightarrow>
          (case field v ''time'' of Inl p \<Rightarrow> Inl p | Inr t \<Rightarrow>
           case field v ''appVersion'' of Inl p \<Rightarrow> Inl p | Inr a \<Rightarrow>
           case field v ''dbVersion'' of Inl p \<Rightarrow> Inl p | Inr d \<Rightarrow>
           case field v ''description'' of Inl p \<Rightarrow> Inl p | Inr de \<Rightarrow>
           case field v ''source'' of Inl p \<Rightarrow> Inl p | Inr so \<Rightarrow>
             Inr (Some \<lparr> ver_AppVersion = a, ver_DbVersion = d, ver_Description = de,
                         ver_Source = so, ver_Time = t \<rparr>))
      | _ \<Rightarrow> Inl (InterfaceConversion ''result''))"




section \<open>Release engine (core/dbman.go)\<close>

text \<open>
  The manifest, the plan, the command and the script manager are declared in files of
  the repository that this development does not cover. Their records carry the fields
  the engine reads; the functions the engine calls on
  them (\<open>fetchPlan\<close>, \<open>fetchManifest\<close>, \<open>fetchCommandContent\<close>, \<open>GetCommands\<close>,
  \<open>getUpgradeWindow\<close>) are fields of the engine record, as is the configuration the
  engine reads with \<open>dm.get\<close>. A Go result \<open>(x, err)\<close> with \<open>err != nil\<close> is \<open>Inl\<close> of
  the error's message.
\<close>

record Command =
  cmd_Name :: string
  cmd_Description :: string
  cmd_Transactional :: bool
  cmd_AsAdmin :: bool
  cmd_UseDb :: bool
  cmd_Scripts :: "string list"

record Info =
  info_AppVersion :: string
  info_DbVersion :: string
  info_Path :: string

record Plan =
  Releases :: "Info list"

record Manifest =
  man_DbVersion :: string
  man_CommandsPath :: string
  man_CreateCommands :: "string list"
  man_DeployCommands :: "string list"
  man_UpgradePrepare :: string
  man_UpgradeAlter :: string
  man_UpgradeDeploy :: string

text \<open>
  The provider answers with the textual form of an envelope, which the engine decodes
  with \<open>NewParameterFromJSON\<close> at once. A provider operation of the model maps the
  provider's state to the decoded map and the next state; the engine passes the command
  or version itself where the source passes its \<open>ToString\<close>. The engine only reads
  the envelopes it decodes, and the nil map of an answer \<open>null\<close> reads as the empty
  map, so that answer is the map \<open>[]\<close> here.
\<close>

record 's DbMan =
  cfg_AppVersion :: string
  cfg_DbName :: string
  cfg_RepoURI :: string
  fetchPlan :: "string + Plan"
  fetchManifest :: "string \<Rightarrow> string + (Info \<times> Manifest)"
  fetchCommandContent :: "string \<Rightarrow> string \<Rightarrow> Command \<Rightarrow> string + Command"
  GetCommands :: "Manifest \<Rightarrow> string list \<Rightarrow> Command list"
  getUpgradeWindow :: "Plan \<Rightarrow> string \<Rightarrow> string \<Rightarrow> int \<times> int"
  provGetVersion :: "'s \<Rightarrow> jv gomap \<times> 's"
  provRunCommand :: "Command \<Rightarrow> 's \<Rightarrow> jv gomap \<times> 's"
  provSetVersion :: "Version \<Rightarrow> 's \<Rightarrow> jv gomap \<times> 's"

text \<open>Every call the engine issues to the provider, with the decoded answer.\<close>

datatype call =
    GetVersionCall "jv gomap"
  | RunCommandCall Command "jv gomap"
  | SetVersionCall Version "jv gomap"

record 's world =
  pstate :: 's
  calls :: "call list"

definition decoded :: "jv gomap \<Rightarrow> Parameter" where
  "decoded m = \<lparr> p_value = m, p_log = [], p_nilMap = False \<rparr>"

definition callGetVersion :: "'s DbMan \<Rightarrow> 's world \<Rightarrow> Parameter \<times> 's world" where
  "callGetVersion dm w =
     (let (m, s') = provGetVersion dm (pstate w)
      in (decoded m, \<lparr> pstate = s', calls = calls w @ [GetVersionCall m] \<rparr>))"

definition callRunCommand :: "'s DbMan \<Rightarrow> Command \<Rightarrow> 's world \<Rightarrow> Parameter \<times> 's world" where
  "callRunCommand dm c w =
     (let (m, s') = provRunCommand dm c (pstate w)
      in (decoded m, \<lparr> pstate = s', calls = calls w @ [RunCommandCall c m] \<rparr>))"

definition callSetVersion :: "'s DbMan \<Rightarrow> Version \<Rightarrow> 's world \<Rightarrow> Parameter \<times> 's world" where
  "callSetVersion dm v w =
     (let (m, s') = provSetVersion dm v (pstate w)
      in (decoded m, \<lparr> pstate = s', calls = calls w @ [SetVersionCall v m] \<rparr>))"

text \<open>
  An action returns its log and its error (\<open>None\<close> for \<open>nil\<close>), or panics; the
  elapsed time is left out. The world after the action is returned in both cases.
\<close>

type_synonym 's action = "(panic + string \<times> string option) \<times> 's world"

text \<open>\<open>runCommands\<close>, first loop: the scripts of every command are fetched.\<close>

fun fetchAll :: "'s DbMan \<Rightarrow> Manifest \<Rightarrow> Command list \<Rightarrow> string + Command list" where
  "fetchAll dm manifest [] = Inr []"
| "fetchAll dm manifest (cmd # cmds) =
     (case fetchCommandContent dm (cfg_AppVersion dm) (man_CommandsPath manifest) cmd of
        Inl err \<Rightarrow> Inl err
      | Inr c \<Rightarrow>
          (case fetchAll dm manifest cmds of
             Inl err \<Rightarrow> Inl err
           | Inr commands \<Rightarrow> Inr (c # commands)))"

definition startedLine :: "Command \<Rightarrow> string" where
  "startedLine c =
     ''? I have started execution of the command '' @ [CHR 0x27] @ cmd_Name c @ [CHR 0x27] @
     ''\<newline>''"

definition failedLine :: "Command \<Rightarrow> string \<Rightarrow> string" where
  "failedLine c err =
     ''!!! the execution of the command '' @ [CHR 0x27] @ cmd_Name c @ [CHR 0x27] @
     '' has failed: '' @ err @ ''\<newline>''"

definition succeededLine :: "Command \<Rightarrow> string" where
  "succeededLine c =
     ''? the execution of the command '' @ [CHR 0x27] @ cmd_Name c @ [CHR 0x27] @
     '' has succeeded\<newline>''"

text \<open>
  \<open>runCommands\<close>, second loop: the commands run in order, up to the first failure.
  Under \<open>HasError\<close> the entry \<open>error\<close> is not \<open>nil\<close>, so \<open>Error\<close> gives a message or
  panics, and \<open>the err\<close> is that message.
\<close>

fun execAll :: "'s DbMan \<Rightarrow> Command list \<Rightarrow> string \<Rightarrow> 's world \<Rightarrow> 's action" where
  "execAll dm [] log w = (Inr (log, None), w)"
| "execAll dm (c # commands) log w =
     (let log1 = log @ startedLine c;
          (result, w1) = callRunCommand dm c w
      in if HasError result
         then (case Error result of
                 Inl p \<Rightarrow> (Inl p, w1)
               | Inr err \<Rightarrow> (Inr (log1 @ failedLine c (the err), err), w1))
         else (case GetLog result of
                 Inl p \<Rightarrow> (Inl p, w1)
               | Inr l \<Rightarrow> execAll dm commands (log1 @ l @ succeededLine c) w1))"

definition runCommands :: "'s DbMan \<Rightarrow> Command list \<Rightarrow> Manifest \<Rightarrow> 's world \<Rightarrow> 's action" where
  "runCommands dm cmds manifest w =
     (case fetchAll dm manifest cmds of
        Inl err \<Rightarrow> (Inr ([], Some err), w)
      | Inr commands \<Rightarrow> execAll dm commands [] w)"

definition setDbVersion ::
  "'s DbMan \<Rightarrow> string \<Rightarrow> string \<Rightarrow> string \<Rightarrow> string \<Rightarrow> 's world \<Rightarrow> (panic + string option) \<times> 's world"
where
  "setDbVersion dm appVer dbVersion description path w =
     (let input = \<lparr> ver_AppVersion = appVer, ver_DbVersion = dbVersion,
                    ver_Description = description,
                    ver_Source = cfg_RepoURI dm @ ''/'' @ path, ver_Time = [] \<rparr>;
          (setVerResult, w1) = callSetVersion dm input w
      in if HasError setVerResult then (Error setVerResult, w1) else (Inr None, w1))"

definition getVersion ::
  "'s DbMan \<Rightarrow> 's world \<Rightarrow> (panic + Version option \<times> string option) \<times> 's world"
where
  "getVersion dm w =
     (let (result, w1) = callGetVersion dm w
      in case GetVersion result of
           Inl p \<Rightarrow> (Inl p, w1)
         | Inr v \<Rightarrow>
             (case Error result of
                Inl p \<Rightarrow> (Inl p, w1)
              | Inr err \<Rightarrow> (Inr (v, err), w1)))"

definition existsMessage :: "Version \<Rightarrow> string" where
  "existsMessage v =
     ''!!! I have found an existing database version '' @ ver_DbVersion v @
     '', which is for application version '' @ ver_AppVersion v @ ''.\<newline>'' @
     ''I cannot create the database because the database is already there!\<newline>'' @
     ''If you meant to run this command then ensure there is not any database.''"

definition Create :: "'s DbMan \<Rightarrow> 's world \<Rightarrow> 's action" where
  "Create dm w =
     (let appVer = cfg_AppVersion dm;
          log = ''? I am checking that the database '' @ [CHR 0x27] @ cfg_DbName dm @
                [CHR 0x27] @ '' does not already exist\<newline>'';
          (result, w1) = callGetVersion dm w;
          proceed =
            (let log1 = log @ ''? I am retrieving the release manifest for application version '' @
                        [CHR 0x27] @ cfg_AppVersion dm @ [CHR 0x27] @ ''\<newline>''
             in case fetchManifest dm appVer of
                  Inl err \<Rightarrow> (Inr (log1, Some err), w1)
                | Inr (info, manifest) \<Rightarrow>
                    (case runCommands dm (GetCommands dm manifest (man_CreateCommands manifest))
                            manifest w1 of
                       (Inl p, w2) \<Rightarrow> (Inl p, w2)
                     | (Inr (output, err), w2) \<Rightarrow> (Inr (log1 @ output, err), w2)))
      in if \<not> HasError result
         then (case GetVersion result of
                 Inl p \<Rightarrow> (Inl p, w1)
               | Inr (Some v) \<Rightarrow> (Inr (log, Some (existsMessage v)), w1)
               | Inr None \<Rightarrow> proceed)
         else proceed)"

definition Deploy :: "'s DbMan \<Rightarrow> 's world \<Rightarrow> 's action" where
  "Deploy dm w =
     (let appVer = cfg_AppVersion dm;
          (result, w1) = callGetVersion dm w
      in if \<not> HasError result
         then (case GetString result ''dbVersion'' of
                 Inl p \<Rightarrow> (Inl p, w1)
               | Inr dbv \<Rightarrow>
                   (case GetString result ''appVersion'' of
                      Inl p \<Rightarrow> (Inl p, w1)
                    | Inr appv \<Rightarrow>
                        (Inr ([], Some (''!!! I have found an existing database version '' @ dbv @
                                '', which is for application version '' @ appv)), w1)))
         else (case fetchManifest dm appVer of
                 Inl err \<Rightarrow> (Inr ([], Some err), w1)
               | Inr (info, manifest) \<Rightarrow>
                   (case runCommands dm (GetCommands dm manifest (man_DeployCommands manifest))
                           manifest w1 of
                      (Inl p, w2) \<Rightarrow> (Inl p, w2)
                    | (Inr (output, Some err), w2) \<Rightarrow> (Inr (output, Some err), w2)
                    | (Inr (output, None), w2) \<Rightarrow>
                        (case setDbVersion dm appVer (man_DbVersion manifest)
                                (''Created database version '' @ man_DbVersion manifest)
                                (info_Path info) w2 of
                           (Inl p, w3) \<Rightarrow> (Inl p, w3)
                         | (Inr (Some err), w3) \<Rightarrow>
                             (Inr (output @ ''? I am updating the release version history\<newline>'',
                                   Some err), w3)
                         | (Inr None, w3) \<Rightarrow> (Inr (output, None), w3)))))"

text \<open>
  One pass of the loop of \<open>Upgrade\<close>, for the release at index \<open>i\<close>: it either
  leaves the action with a log and an error, or hands the log on to the next pass.
  \<open>plan.Releases[i-1]\<close> panics out of range.
\<close>

datatype step = Leave string "string option" | Next string

definition historyLine :: string where
  "historyLine = ''? I am updating the release version history\<newline>''"

definition noAlterLine :: string where
  "noAlterLine =
     ''? I did not find an Alter command in the manifest, so I am not applying any changes to the schema\<newline>''"

definition runStage ::
  "'s DbMan \<Rightarrow> string \<Rightarrow> Manifest \<Rightarrow> string \<Rightarrow> 's world \<Rightarrow> (panic + step) \<times> 's world"
where
  "runStage dm name manifest log w =
     (case runCommands dm (GetCommands dm manifest [name]) manifest w of
        (Inl p, w1) \<Rightarrow> (Inl p, w1)
      | (Inr (output, Some err), w1) \<Rightarrow> (Inr (Leave (log @ output) (Some err)), w1)
      | (Inr (output, None), w1) \<Rightarrow> (Inr (Next (log @ output)), w1))"

definition writeHistory ::
  "'s DbMan \<Rightarrow> string \<Rightarrow> string \<Rightarrow> string \<Rightarrow> string \<Rightarrow> string \<Rightarrow> 's world
     \<Rightarrow> (panic + step) \<times> 's world"
where
  "writeHistory dm appVer dbVersion description path log w =
     (case setDbVersion dm appVer dbVersion description path w of
        (Inl p, w1) \<Rightarrow> (Inl p, w1)
      | (Inr (Some err), w1) \<Rightarrow> (Inr (Leave log (Some err)), w1)
      | (Inr None, w1) \<Rightarrow> (Inr (Next (log @ historyLine)), w1))"

text \<open>
  \<open>andThen r k\<close>: the \<open>if err != nil { return log, err, ... }\<close> after a stage. A panic
  or a return ends the pass; otherwise \<open>k\<close> goes on with the log and the world.
\<close>

definition andThen ::
  "(panic + step) \<times> 's world \<Rightarrow> (string \<Rightarrow> 's world \<Rightarrow> (panic + step) \<times> 's world)
     \<Rightarrow> (panic + step) \<times> 's world"
where
  "andThen r k =
     (case r of
        (Inl p, w) \<Rightarrow> (Inl p, w)
      | (Inr (Leave l err), w) \<Rightarrow> (Inr (Leave l err), w)
      | (Inr (Next l), w) \<Rightarrow> k l w)"

definition applyingLine :: "Info \<Rightarrow> string" where
  "applyingLine info =
     ''? I am applying manifest for application version '' @ info_AppVersion info @
     '', db version '' @ info_DbVersion info @ ''\<newline>''"

text \<open>The alter stage of a release other than the current one.\<close>

definition alterStage ::
  "'s DbMan \<Rightarrow> Manifest \<Rightarrow> string \<Rightarrow> 's world \<Rightarrow> (panic + step) \<times> 's world"
where
  "alterStage dm manifest log w =
     (if length (man_UpgradeAlter manifest) > 0
      then runStage dm (man_UpgradeAlter manifest) manifest log w
      else (Inr (Next (log @ noAlterLine)), w))"

definition upgradeRelease ::
  "'s DbMan \<Rightarrow> Version \<Rightarrow> Plan \<Rightarrow> int \<Rightarrow> int \<Rightarrow> int \<Rightarrow> string \<Rightarrow> 's world
     \<Rightarrow> (panic + step) \<times> 's world"
where
  "upgradeRelease dm version plan currentIx targetIx i log w =
     (if i - 1 < 0 \<or> int (length (Releases plan)) \<le> i - 1 then (Inl (IndexOutOfRange (i - 1)), w)
      else
        let info = Releases plan ! nat (i - 1);
            log1 = log @ applyingLine info
        in case fetchManifest dm (info_AppVersion info) of
             Inl err \<Rightarrow> (Inr (Leave log1 (Some err)), w)
           | Inr (unused, manifest) \<Rightarrow>
               if i = currentIx
               then runStage dm (man_UpgradePrepare manifest) manifest log1 w
               else
                 andThen (alterStage dm manifest log1 w)
                   (\<lambda>log2 w1.
                      if i = targetIx
                      then andThen (runStage dm (man_UpgradeDeploy manifest) manifest log2 w1)
                             (\<lambda>log3 w2.
                                writeHistory dm (cfg_AppVersion dm) (man_DbVersion manifest)
                                  (''Upgraded database from version '' @ ver_DbVersion version @
                                   '' to '' @ man_DbVersion manifest)
                                  (info_Path info) log3 w2)
                      else writeHistory dm (info_AppVersion info) (man_DbVersion manifest)
                             (''Updated database schema only to version '' @ man_DbVersion manifest)
                             (info_Path info) log2 w1))"

text \<open>\<open>for i := currentIx; i <= targetIx; i++\<close>.\<close>

function upgradeLoop ::
  "'s DbMan \<Rightarrow> Version \<Rightarrow> Plan \<Rightarrow> int \<Rightarrow> int \<Rightarrow> int \<Rightarrow> string \<Rightarrow> 's world \<Rightarrow> 's action"
where
  "upgradeLoop dm version plan currentIx targetIx i log w =
     (if i \<le> targetIx
      then (case upgradeRelease dm version plan currentIx targetIx i log w of
              (Inl p, w1) \<Rightarrow> (Inl p, w1)
            | (Inr (Leave l err), w1) \<Rightarrow> (Inr (l, err), w1)
            | (Inr (Next l), w1) \<Rightarrow> upgradeLoop dm version plan currentIx targetIx (i + 1) l w1)
      else (Inr (log, None), w))"
  by pat_completeness auto
termination
  by (relation "measure (\<lambda>(dm, version, plan, currentIx, targetIx, i, log, w). nat (targetIx + 1 - i))")
     auto

declare upgradeLoop.simps [simp del]

definition nothingToDo :: "Version \<Rightarrow> string" where
  "nothingToDo version =
     ''? I have nothing to do: the current version (i.e. '' @ ver_AppVersion version @
     '') matches the version deployed\<newline>If you need to upgrade to a different version change the value of the '' @
     [CHR 0x27] @ ''AppVersion'' @ [CHR 0x27] @ '' configuration variable\<newline>''"

definition Upgrade :: "'s DbMan \<Rightarrow> 's world \<Rightarrow> 's action" where
  "Upgrade dm w =
     (let targetAppVer = cfg_AppVersion dm
      in case getVersion dm w of
           (Inl p, w1) \<Rightarrow> (Inl p, w1)
         | (Inr (v, Some err), w1) \<Rightarrow> (Inr ([], Some err), w1)
         | (Inr (None, None), w1) \<Rightarrow> (Inr ([], Some ''!!! the database does not exist\<newline>''), w1)
         | (Inr (Some version, None), w1) \<Rightarrow>
             (case fetchPlan dm of
                Inl err \<Rightarrow> (Inr ([], Some err), w1)
              | Inr plan \<Rightarrow>
                  if targetAppVer = ver_AppVersion version
                  then (Inr (nothingToDo version, None), w1)
                  else
                    let (currentIx, targetIx) =
                          getUpgradeWindow dm plan (ver_AppVersion version) targetAppVer
                    in if targetIx \<le> currentIx
                       then (Inr ([], Some (''!!! I cannot upgrade as target version '' @ targetAppVer @
                                    '' is not past the current version '' @ ver_AppVersion version)), w1)
                       else upgradeLoop dm version plan currentIx targetIx currentIx [] w1))"

section \<open>Vocabulary of the properties\<close>

text \<open>A snapshot as Go can hold it: the keys of every container are unique.\<close>

definition wf_schema :: "DatabaseSchema \<Rightarrow> bool" where
  "wf_schema S =
     (uniq (Tables S) \<and> uniq (Sequences S) \<and> uniq (Enums S) \<and> uniq (Functions S) \<and>
      uniq (Indexes S) \<and> uniq (Constraints S) \<and> uniq (Views S) \<and> uniq (Triggers S) \<and>
      list_all (\<lambda>(key, t). uniq (tbl_Columns t)) (Tables S))"

text \<open>
  The warnings a diff result calls for, in the order the generator visits it, and the
  condition under which the generator marks the script as breaking.
\<close>

definition columnDiffWarnings :: "string \<Rightarrow> ColumnDiff \<Rightarrow> string list" where
  "columnDiffWarnings tableName colDiff =
     (if TypeChanged colDiff then [typeChangeWarning tableName colDiff] else []) @
     (if NullableChanged colDiff \<and> \<not> col_IsNullable (NewColumn colDiff)
      then [notNullWarning tableName colDiff] else [])"

definition tableDiffWarnings :: "TableDiff \<Rightarrow> string list" where
  "tableDiffWarnings tableDiff =
     map (droppedColumnWarning (TableName tableDiff)) (DroppedColumns tableDiff) @
     concat (map (columnDiffWarnings (TableName tableDiff)) (AlteredColumns tableDiff))"

definition removesValues :: "EnumDiff \<Rightarrow> bool" where
  "removesValues enumDiff = (0 < length (RemovedValues enumDiff))"

definition dropsColumns :: "TableDiff \<Rightarrow> bool" where
  "dropsColumns tableDiff = (0 < length (DroppedColumns tableDiff))"

definition expectedWarnings :: "DiffResult \<Rightarrow> string list" where
  "expectedWarnings diff =
     map enumWarning (filter removesValues (AlteredEnums diff)) @
     concat (map tableDiffWarnings (AlteredTables diff)) @
     map droppedTableWarning (DroppedTables diff)"

definition expectedBreaking :: "DiffResult \<Rightarrow> bool" where
  "expectedBreaking diff =
     (list_ex removesValues (AlteredEnums diff) \<or>
      list_ex dropsColumns (AlteredTables diff) \<or>
      0 < length (DroppedTables diff))"

text \<open>The warnings and the breaking mark of the script under construction.\<close>

definition marks :: "genstate \<Rightarrow> string list \<times> bool" where
  "marks st = (Warnings (script st), HasBreaking (script st))"

definition add_marks :: "string list \<times> bool \<Rightarrow> string list \<times> bool \<Rightarrow> string list \<times> bool" where
  "add_marks a b = (fst a @ fst b, snd a \<or> snd b)"

text \<open>Calls by kind; a command run that the provider answered with an error.\<close>

definition isSetVersion :: "call \<Rightarrow> bool" where
  "isSetVersion c = (case c of SetVersionCall v m \<Rightarrow> True | _ \<Rightarrow> False)"

definition isRunCommand :: "call \<Rightarrow> bool" where
  "isRunCommand c = (case c of RunCommandCall cmd m \<Rightarrow> True | _ \<Rightarrow> False)"

definition failedRun :: "call \<Rightarrow> bool" where
  "failedRun c = (case c of RunCommandCall cmd m \<Rightarrow> HasError (decoded m) | _ \<Rightarrow> False)"

text \<open>No call follows a failed command run.\<close>

fun quietAfterFailure :: "call list \<Rightarrow> bool" where
  "quietAfterFailure [] = True"
| "quietAfterFailure (c # cs) = ((if failedRun c then cs = [] else True) \<and> quietAfterFailure cs)"

text \<open>The calls issued between two worlds; whether a history write is among them.\<close>

definition issued :: "'s world \<Rightarrow> 's world \<Rightarrow> call list" where
  "issued w w' = drop (length (calls w)) (calls w')"

definition extends :: "'s world \<Rightarrow> 's world \<Rightarrow> call list \<Rightarrow> bool" where
  "extends w w' tr = (calls w' = calls w @ tr)"

definition wrote :: "'s world \<Rightarrow> 's world \<Rightarrow> bool" where
  "wrote w w' = list_ex isSetVersion (issued w w')"

definition silent :: "'s world \<Rightarrow> 's world \<Rightarrow> bool" where
  "silent w w' = (\<exists>tr. extends w w' tr \<and> \<not> list_ex isSetVersion tr)"

definition orderly :: "'s world \<Rightarrow> 's world \<Rightarrow> bool \<Rightarrow> bool" where
  "orderly w w' ok =
     (\<exists>tr. extends w w' tr \<and> quietAfterFailure tr \<and> (ok \<longrightarrow> list_all (\<lambda>c. \<not> failedRun c) tr))"

text \<open>A batch or an action that returned with no error; a stage that lets the pass go on.\<close>

definition returnsOk :: "(panic + string \<times> string option) \<Rightarrow> bool" where
  "returnsOk r = (case r of Inr (out, None) \<Rightarrow> True | _ \<Rightarrow> False)"

definition stepOk :: "(panic + step) \<Rightarrow> bool" where
  "stepOk r = (case r of Inr (Next l) \<Rightarrow> True | _ \<Rightarrow> False)"

text \<open>The deploy batch of \<open>Deploy\<close>, run in the world the version check leaves.\<close>

definition deployBatch :: "'s DbMan \<Rightarrow> Manifest \<Rightarrow> 's world \<Rightarrow> 's action" where
  "deployBatch dm manifest w =
     runCommands dm (GetCommands dm manifest (man_DeployCommands manifest)) manifest
       (snd (callGetVersion dm w))"

text \<open>
  In a pass of \<open>Upgrade\<close> for a release other than the current one: the alter batch
  completed without error (or the manifest names none), the world after it, and the
  deploy batch run in that world completed without error.
\<close>

definition alterOk :: "'s DbMan \<Rightarrow> Manifest \<Rightarrow> 's world \<Rightarrow> bool" where
  "alterOk dm manifest w =
     (if length (man_UpgradeAlter manifest) > 0
      then returnsOk (fst (runCommands dm (GetCommands dm manifest [man_UpgradeAlter manifest])
                            manifest w))
      else True)"

definition afterAlter :: "'s DbMan \<Rightarrow> Manifest \<Rightarrow> 's world \<Rightarrow> 's world" where
  "afterAlter dm manifest w =
     (if length (man_UpgradeAlter manifest) > 0
      then snd (runCommands dm (GetCommands dm manifest [man_UpgradeAlter manifest]) manifest w)
      else w)"

definition deployOk :: "'s DbMan \<Rightarrow> Manifest \<Rightarrow> 's world \<Rightarrow> bool" where
  "deployOk dm manifest w =
     returnsOk (fst (runCommands dm (GetCommands dm manifest [man_UpgradeDeploy manifest]) manifest
                      (afterAlter dm manifest w)))"

text \<open>
  The world of such a pass once its batches have run: after the alter batch and, at
  the target release, after the deploy batch.
\<close>

definition afterBatches :: "'s DbMan \<Rightarrow> Manifest \<Rightarrow> int \<Rightarrow> int \<Rightarrow> 's world \<Rightarrow> 's world" where
  "afterBatches dm manifest targetIx i w =
     (if i = targetIx
      then snd (runCommands dm (GetCommands dm manifest [man_UpgradeDeploy manifest]) manifest
                 (afterAlter dm manifest w))
      else afterAlter dm manifest w)"

text \<open>
  The passes the loop of \<open>Upgrade\<close> makes from the index \<open>i\<close>, each with the index, the
  log and the world it starts with: a pass that does not hand on is the last one. The
  calls a pass issues.
\<close>

function loopPasses ::
  "'s DbMan \<Rightarrow> Version \<Rightarrow> Plan \<Rightarrow> int \<Rightarrow> int \<Rightarrow> int \<Rightarrow> string \<Rightarrow> 's world
     \<Rightarrow> (int \<times> string \<times> 's world) list"
where
  "loopPasses dm version plan currentIx targetIx i log w =
     (if i \<le> targetIx
      then (i, log, w) #
           (case upgradeRelease dm version plan currentIx targetIx i log w of
              (Inl p, w1) \<Rightarrow> []
            | (Inr (Leave l err), w1) \<Rightarrow> []
            | (Inr (Next l), w1) \<Rightarrow> loopPasses dm version plan currentIx targetIx (i + 1) l w1)
      else [])"
  by pat_completeness auto
termination
  by (relation "measure (\<lambda>(dm, version, plan, currentIx, targetIx, i, log, w). nat (targetIx + 1 - i))")
     auto

declare loopPasses.simps [simp del]

definition passCalls ::
  "'s DbMan \<Rightarrow> Version \<Rightarrow> Plan \<Rightarrow> int \<Rightarrow> int \<Rightarrow> int \<times> string \<times> 's world \<Rightarrow> call list"
where
  "passCalls dm version plan currentIx targetIx p =
     (case p of (i, log, w) \<Rightarrow>
        issued w (snd (upgradeRelease dm version plan currentIx targetIx i log w)))"

section \<open>Scripts as templates over the schema name\<close>

text \<open>
  A script written without a schema: a sequence of pieces, each a text or a name to be
  qualified. \<open>render q\<close> writes a text as it is and a name \<open>n\<close> as \<open>q.n\<close>, the \<open>%s.%s\<close>
  of the generator.
\<close>

datatype piece = Txt string | Qualified string

fun render :: "string \<Rightarrow> piece list \<Rightarrow> string" where
  "render q [] = []"
| "render q (Txt s # ps) = s @ render q ps"
| "render q (Qualified n # ps) = q @ ''.'' @ n @ render q ps"

record template =
  upT :: "piece list"
  downT :: "piece list"

definition upAdd :: "piece list \<Rightarrow> template \<Rightarrow> template" where
  "upAdd ps t = t \<lparr> upT := upT t @ ps \<rparr>"

definition downAdd :: "piece list \<Rightarrow> template \<Rightarrow> template" where
  "downAdd ps t = t \<lparr> downT := downT t @ ps \<rparr>"

text \<open>
  The statements of a migration, by kind of object, with the names they qualify: the
  name of the type, sequence, table, index, function or view, and for a trigger the
  name of its table. The definitions of indexes, functions, views and triggers and of
  constraints are texts of the snapshot and are written as they are.
\<close>

definition createTypePieces :: "Enum \<Rightarrow> piece list" where
  "createTypePieces enum =
     [Txt ''CREATE TYPE '', Qualified (enum_Name enum),
      Txt ('' AS ENUM (\<newline>'' @ enumValueLines (enum_Values enum) @ '');\<newline>\<newline>'')]"

definition dropTypePieces :: "Enum \<Rightarrow> piece list" where
  "dropTypePieces enum =
     [Txt ''DROP TYPE IF EXISTS '', Qualified (enum_Name enum), Txt '';\<newline>\<newline>'']"

definition addValuePieces :: "string \<Rightarrow> string \<Rightarrow> piece list" where
  "addValuePieces name val =
     [Txt ''ALTER TYPE '', Qualified name,
      Txt ('' ADD VALUE '' @ [CHR 0x27] @ val @ [CHR 0x27] @ '';\<newline>'')]"

definition templateEnums :: "DiffResult \<Rightarrow> template \<Rightarrow> template" where
  "templateEnums diff t =
     fold (\<lambda>enum s. downAdd (createTypePieces enum) (upAdd (dropTypePieces enum) s))
       (DroppedEnums diff)
       (fold (\<lambda>enumDiff s.
                upAdd [Txt ''\<newline>'']
                  (fold (\<lambda>val. upAdd (addValuePieces (ed_Name enumDiff) val))
                     (AddedValues enumDiff) s))
          (AlteredEnums diff)
          (fold (\<lambda>enum s. downAdd (dropTypePieces enum) (upAdd (createTypePieces enum) s))
             (CreatedEnums diff) t))"

definition createSequencePieces :: "Sequence \<Rightarrow> piece list" where
  "createSequencePieces seq =
     [Txt ''CREATE SEQUENCE '', Qualified (seq_Name seq),
      Txt ('' START WITH '' @ show_int (seq_StartValue seq) @ '' INCREMENT BY '' @
           show_int (seq_Increment seq) @ '';\<newline>\<newline>'')]"

definition dropSequencePieces :: "Sequence \<Rightarrow> piece list" where
  "dropSequencePieces seq =
     [Txt ''DROP SEQUENCE IF EXISTS '', Qualified (seq_Name seq), Txt '';\<newline>\<newline>'']"

definition templateSequences :: "DiffResult \<Rightarrow> template \<Rightarrow> template" where
  "templateSequences diff t =
     fold (\<lambda>seq s. downAdd (createSequencePieces seq) (upAdd (dropSequencePieces seq) s))
       (DroppedSequences diff)
       (fold (\<lambda>seq s. downAdd (dropSequencePieces seq) (upAdd (createSequencePieces seq) s))
          (CreatedSequences diff) t)"

definition createTablePieces :: "Table \<Rightarrow> piece list" where
  "createTablePieces table =
     [Txt ''CREATE TABLE '', Qualified (tbl_Name table),
      Txt ('' (\<newline>'' @ columnLines (sortByOrdinal (map snd (tbl_Columns table))) @
           '');\<newline>\<newline>'')]"

definition dropTablePieces :: "Table \<Rightarrow> piece list" where
  "dropTablePieces table =
     [Txt ''DROP TABLE IF EXISTS '', Qualified (tbl_Name table), Txt '' CASCADE;\<newline>\<newline>'']"

definition recreateTablePieces :: "Table \<Rightarrow> piece list" where
  "recreateTablePieces table =
     [Txt ''-- TODO: Recreate table '', Qualified (tbl_Name table),
      Txt '' with all columns and data\<newline>\<newline>'']"

definition addColumnPieces :: "string \<Rightarrow> Column \<Rightarrow> piece list" where
  "addColumnPieces tableName col =
     [Txt ''ALTER TABLE '', Qualified tableName,
      Txt ('' ADD COLUMN '' @ col_Name col @ '' '' @ formatColumnType col @ columnClauses col @
           '';\<newline>'')]"

definition dropColumnPieces :: "string \<Rightarrow> Column \<Rightarrow> piece list" where
  "dropColumnPieces tableName col =
     [Txt ''ALTER TABLE '', Qualified tableName,
      Txt ('' DROP COLUMN IF EXISTS '' @ col_Name col @ '';\<newline>'')]"

definition alterColumnPieces :: "string \<Rightarrow> ColumnDiff \<Rightarrow> string \<Rightarrow> piece list" where
  "alterColumnPieces tableName colDiff action =
     [Txt ''ALTER TABLE '', Qualified tableName,
      Txt ('' ALTER COLUMN '' @ cd_Name colDiff @ action)]"

definition defaultPieces :: "string \<Rightarrow> ColumnDiff \<Rightarrow> Column \<Rightarrow> piece list" where
  "defaultPieces tableName colDiff col =
     (if col_DefaultValue col \<noteq> None
      then alterColumnPieces tableName colDiff
             ('' SET DEFAULT '' @ the (col_DefaultValue col) @ '';\<newline>'')
      else alterColumnPieces tableName colDiff '' DROP DEFAULT;\<newline>'')"

definition templateAlteredColumn :: "string \<Rightarrow> ColumnDiff \<Rightarrow> template \<Rightarrow> template" where
  "templateAlteredColumn tableName colDiff t =
     (let t1 = (if TypeChanged colDiff
                then downAdd (alterColumnPieces tableName colDiff
                                ('' TYPE '' @ formatColumnType (OldColumn colDiff) @ '';\<newline>''))
                       (upAdd (alterColumnPieces tableName colDiff
                                 ('' TYPE '' @ formatColumnType (NewColumn colDiff) @ '';\<newline>'')) t)
                else t);
          t2 = (if NullableChanged colDiff
                then (if col_IsNullable (NewColumn colDiff)
                      then downAdd (alterColumnPieces tableName colDiff '' SET NOT NULL;\<newline>'')
                             (upAdd (alterColumnPieces tableName colDiff '' DROP NOT NULL;\<newline>'') t1)
                      else downAdd (alterColumnPieces tableName colDiff '' DROP NOT NULL;\<newline>'')
                             (upAdd (alterColumnPieces tableName colDiff '' SET NOT NULL;\<newline>'') t1))
                else t1)
      in if DefaultChanged colDiff
         then downAdd (defaultPieces tableName colDiff (OldColumn colDiff))
                (upAdd (defaultPieces tableName colDiff (NewColumn colDiff)) t2)
         else t2)"

definition templateAlteredTable :: "TableDiff \<Rightarrow> template \<Rightarrow> template" where
  "templateAlteredTable tableDiff t =
     downAdd [Txt ''\<newline>'']
       (upAdd [Txt ''\<newline>'']
         (fold (templateAlteredColumn (TableName tableDiff)) (AlteredColumns tableDiff)
           (fold (\<lambda>col s. downAdd (addColumnPieces (TableName tableDiff) col)
                             (upAdd (dropColumnPieces (TableName tableDiff) col) s))
              (DroppedColumns tableDiff)
              (fold (\<lambda>col s. downAdd (dropColumnPieces (TableName tableDiff) col)
                                (upAdd (addColumnPieces (TableName tableDiff) col) s))
                 (AddedColumns tableDiff) t))))"

definition templateTables :: "DiffResult \<Rightarrow> template \<Rightarrow> template" where
  "templateTables diff t =
     fold (\<lambda>table s. downAdd (recreateTablePieces table) (upAdd (dropTablePieces table) s))
       (DroppedTables diff)
       (fold templateAlteredTable (AlteredTables diff)
         (fold (\<lambda>table s. downAdd (dropTablePieces table) (upAdd (createTablePieces table) s))
            (CreatedTables diff) t))"

definition dropConstraintPieces :: "Constraint \<Rightarrow> piece list" where
  "dropConstraintPieces constraint =
     [Txt ''ALTER TABLE '', Qualified (con_TableName constraint),
      Txt ('' DROP CONSTRAINT IF EXISTS '' @ con_Name constraint @ '';\<newline>'')]"

definition addConstraintPieces :: "Constraint \<Rightarrow> piece list" where
  "addConstraintPieces constraint =
     [Txt ''ALTER TABLE '', Qualified (con_TableName constraint),
      Txt ('' ADD CONSTRAINT '' @ con_Name constraint @ '' '' @ con_Definition constraint @
           '';\<newline>'')]"

definition templateConstraints :: "DiffResult \<Rightarrow> template \<Rightarrow> template" where
  "templateConstraints diff t =
     (let t1 = fold (\<lambda>c. upAdd (dropConstraintPieces c)) (DroppedConstraints diff) t;
          t2 = (if length (DroppedConstraints diff) > 0 then upAdd [Txt ''\<newline>''] t1 else t1);
          t3 = fold (\<lambda>c s. downAdd (dropConstraintPieces c) (upAdd (addConstraintPieces c) s))
                 (CreatedConstraints diff) t2;
          t4 = (if length (CreatedConstraints diff) > 0
                then downAdd [Txt ''\<newline>''] (upAdd [Txt ''\<newline>''] t3) else t3);
          t5 = fold (\<lambda>c. downAdd (addConstraintPieces c)) (DroppedConstraints diff) t4
      in if length (DroppedConstraints diff) > 0 then downAdd [Txt ''\<newline>''] t5 else t5)"

definition dropIndexPieces :: "Index \<Rightarrow> piece list" where
  "dropIndexPieces index =
     [Txt ''DROP INDEX IF EXISTS '', Qualified (idx_Name index), Txt '';\<newline>'']"

definition templateIndexes :: "DiffResult \<Rightarrow> template \<Rightarrow> template" where
  "templateIndexes diff t =
     (let t1 = fold (\<lambda>index s. downAdd (dropIndexPieces index)
                                 (upAdd [Txt (idx_Definition index @ '';\<newline>'')] s))
                 (CreatedIndexes diff) t;
          t2 = (if length (CreatedIndexes diff) > 0
                then downAdd [Txt ''\<newline>''] (upAdd [Txt ''\<newline>''] t1) else t1);
          t3 = fold (\<lambda>index s. downAdd [Txt (idx_Definition index @ '';\<newline>'')]
                                 (upAdd (dropIndexPieces index) s))
                 (DroppedIndexes diff) t2
      in if length (DroppedIndexes diff) > 0
         then downAdd [Txt ''\<newline>''] (upAdd [Txt ''\<newline>''] t3) else t3)"

definition dropFunctionPieces :: "Function \<Rightarrow> piece list" where
  "dropFunctionPieces fn =
     [Txt ''DROP FUNCTION IF EXISTS '', Qualified (fn_Name fn), Txt '';\<newline>\<newline>'']"

definition templateFunctions :: "DiffResult \<Rightarrow> template \<Rightarrow> template" where
  "templateFunctions diff t =
     fold (\<lambda>fn s. downAdd [Txt (fn_Definition fn @ '';\<newline>\<newline>'')]
                     (upAdd (dropFunctionPieces fn) s))
       (DroppedFunctions diff)
       (fold (\<lambda>fnDiff s.
                downAdd [Txt (''-- Restoring function '' @ fd_Name fnDiff @ ''\<newline>'' @
                              fd_OldDefinition fnDiff @ '';\<newline>\<newline>'')]
                  (upAdd [Txt (''-- Replacing function '' @ fd_Name fnDiff @ ''\<newline>'' @
                               fd_NewDefinition fnDiff @ '';\<newline>\<newline>'')] s))
          (AlteredFunctions diff)
          (fold (\<lambda>fn s. downAdd (dropFunctionPieces fn)
                           (upAdd [Txt (fn_Definition fn @ '';\<newline>\<newline>'')] s))
             (CreatedFunctions diff) t))"

definition createViewPieces :: "string \<Rightarrow> string \<Rightarrow> piece list" where
  "createViewPieces name definition =
     [Txt ''CREATE VIEW '', Qualified name, Txt ('' AS\<newline>'' @ definition @ '';\<newline>\<newline>'')]"

definition replaceViewPieces :: "string \<Rightarrow> string \<Rightarrow> piece list" where
  "replaceViewPieces name definition =
     [Txt ''CREATE OR REPLACE VIEW '', Qualified name,
      Txt ('' AS\<newline>'' @ definition @ '';\<newline>\<newline>'')]"

definition dropViewPieces :: "string \<Rightarrow> piece list" where
  "dropViewPieces name = [Txt ''DROP VIEW IF EXISTS '', Qualified name, Txt '';\<newline>\<newline>'']"

definition templateViews :: "DiffResult \<Rightarrow> template \<Rightarrow> template" where
  "templateViews diff t =
     fold (\<lambda>view s. downAdd (createViewPieces (view_Name view) (view_Definition view))
                       (upAdd (dropViewPieces (view_Name view)) s))
       (DroppedViews diff)
       (fold (\<lambda>viewDiff s.
                downAdd (replaceViewPieces (vd_Name viewDiff) (vd_OldDefinition viewDiff))
                  (upAdd (replaceViewPieces (vd_Name viewDiff) (vd_NewDefinition viewDiff)) s))
          (AlteredViews diff)
          (fold (\<lambda>view s. downAdd (dropViewPieces (view_Name view))
                             (upAdd (createViewPieces (view_Name view) (view_Definition view)) s))
             (CreatedViews diff) t))"

definition dropTriggerPieces :: "Trigger \<Rightarrow> piece list" where
  "dropTriggerPieces trigger =
     [Txt (''DROP TRIGGER IF EXISTS '' @ trg_Name trigger @ '' ON ''),
      Qualified (trg_TableName trigger), Txt '';\<newline>\<newline>'']"

definition templateTriggers :: "DiffResult \<Rightarrow> template \<Rightarrow> template" where
  "templateTriggers diff t =
     fold (\<lambda>trigger s. downAdd [Txt (trg_Definition trigger @ '';\<newline>\<newline>'')]
                          (upAdd (dropTriggerPieces trigger) s))
       (DroppedTriggers diff)
       (fold (\<lambda>trigger s. downAdd (dropTriggerPieces trigger)
                             (upAdd [Txt (trg_Definition trigger @ '';\<newline>\<newline>'')] s))
          (CreatedTriggers diff) t)"

text \<open>The template of a migration: the two headers, then the objects kind by kind.\<close>

definition scriptTemplate :: "string \<Rightarrow> DiffResult \<Rightarrow> string \<Rightarrow> template" where
  "scriptTemplate now diff description =
     templateTriggers diff
       (templateViews diff
         (templateFunctions diff
           (templateIndexes diff
             (templateConstraints diff
               (templateTables diff
                 (templateSequences diff
                   (templateEnums diff
                     \<lparr> upT = [Txt (header description now ''UP'')],
                       downT = [Txt (header description now ''DOWN'')] \<rparr>)))))))"

text \<open>The texts under construction are the template rendered with the schema \<open>q\<close>.\<close>

definition renders :: "string \<Rightarrow> genstate \<Rightarrow> template \<Rightarrow> bool" where
  "renders q st t = (up st = render q (upT t) \<and> down st = render q (downT t))"

section \<open>A codec for envelopes of strings\<close>













section \<open>Concrete inputs\<close>

text \<open>Snapshots: a table whose column changes its type and loses nullability.\<close>

definition exColumn :: "string \<Rightarrow> string \<Rightarrow> bool \<Rightarrow> int \<Rightarrow> Column" where
  "exColumn n t nullable pos =
     \<lparr> col_Name = n, col_DataType = t, col_IsNullable = nullable, col_DefaultValue = None,
       col_CharMaxLength = None, col_NumericPrecision = None, col_NumericScale = None,
       col_OrdinalPosition = pos, col_Comment = None \<rparr>"

definition exSchema :: "Table gomap \<Rightarrow> Enum gomap \<Rightarrow> Index gomap \<Rightarrow> DatabaseSchema" where
  "exSchema ts es ixs =
     \<lparr> Tables = ts, Sequences = [], Enums = es, Functions = [], Indexes = ixs,
       Constraints = [], Views = [], Triggers = [] \<rparr>"

definition exTable :: "Column gomap \<Rightarrow> Table" where
  "exTable cols = \<lparr> tbl_Name = ''t'', tbl_Schema = ''s'', tbl_Columns = cols, tbl_Comment = [] \<rparr>"

definition narrowSchema :: DatabaseSchema where
  "narrowSchema = exSchema [(''s.t'', exTable [(''c'', exColumn ''c'' ''int'' True 1)])] [] []"

definition wideSchema :: DatabaseSchema where
  "wideSchema =
     exSchema [(''s.t'', exTable [(''c'', exColumn ''c'' ''bigint'' False 1),
                                  (''b'', exColumn ''b'' ''text'' True 2)])] [] []"

text \<open>Snapshots: an enum that gains a value, and nothing else.\<close>

definition exEnum :: "string list \<Rightarrow> Enum" where
  "exEnum vals = \<lparr> enum_Name = ''color'', enum_Schema = ''s'', enum_Values = vals \<rparr>"

definition twoColours :: DatabaseSchema where
  "twoColours = exSchema [] [(''s.color'', exEnum [''red'', ''green''])] []"

definition threeColours :: DatabaseSchema where
  "threeColours = exSchema [] [(''s.color'', exEnum [''red'', ''green'', ''blue''])] []"

text \<open>Snapshots: the target gains a primary-key index and a secondary index.\<close>

definition exIndex :: "string \<Rightarrow> bool \<Rightarrow> Index" where
  "exIndex n primary =
     \<lparr> idx_Name = n, idx_TableName = ''t'', idx_Schema = ''s'', idx_Columns = [''c''],
       idx_IsUnique = primary, idx_IsPrimary = primary,
       idx_Definition = ''CREATE INDEX '' @ n @ '' ON s.t (c)'' \<rparr>"

definition noIndexes :: DatabaseSchema where
  "noIndexes = exSchema [] [] []"

definition twoIndexes :: DatabaseSchema where
  "twoIndexes = exSchema [] [] [(''s.t_pkey'', exIndex ''t_pkey'' True),
                                (''s.t_c_idx'', exIndex ''t_c_idx'' False)]"

text \<open>
  A provider whose state is the version history, newest row first. It reports the
  newest row, or an error when there is none; it fails the command named \<open>broken\<close>;
  it adds a row on \<open>setVersion\<close>.
\<close>

definition versionObject :: "Version \<Rightarrow> jv" where
  "versionObject v =
     JObj [(''appVersion'', JStr (ver_AppVersion v)), (''dbVersion'', JStr (ver_DbVersion v)),
           (''description'', JStr (ver_Description v)), (''source'', JStr (ver_Source v)),
           (''time'', JStr (ver_Time v))]"

definition historyGetVersion :: "Version list \<Rightarrow> jv gomap \<times> Version list" where
  "historyGetVersion s =
     (case s of
        [] \<Rightarrow> ([(''error'', JStr ''no version''), (''log'', JStr [])], s)
      | v # vs \<Rightarrow> ([(''log'', JStr []), (''result'', versionObject v)], s))"

definition historyRunCommand :: "Command \<Rightarrow> Version list \<Rightarrow> jv gomap \<times> Version list" where
  "historyRunCommand c s =
     (if cmd_Name c = ''broken''
      then ([(''error'', JStr ''syntax error''), (''log'', JStr [])], s)
      else ([(''log'', JStr (cmd_Name c @ '' done\<newline>''))], s))"

definition historySetVersion :: "Version \<Rightarrow> Version list \<Rightarrow> jv gomap \<times> Version list" where
  "historySetVersion v s = ([(''log'', JStr [])], v # s)"

text \<open>A plan of three releases, each with the same shape of manifest.\<close>

definition exRelease :: "string \<Rightarrow> string \<Rightarrow> Info" where
  "exRelease app db = \<lparr> info_AppVersion = app, info_DbVersion = db, info_Path = ''rel-'' @ db \<rparr>"

definition exPlan :: Plan where
  "exPlan = \<lparr> Releases = [exRelease ''v1'' ''1'', exRelease ''v2'' ''2'', exRelease ''v3'' ''3''] \<rparr>"

definition exManifest :: "string \<Rightarrow> Manifest" where
  "exManifest db =
     \<lparr> man_DbVersion = db, man_CommandsPath = ''commands'',
       man_CreateCommands = [''create''], man_DeployCommands = [''schema'', ''objects''],
       man_UpgradePrepare = ''prepare'', man_UpgradeAlter = ''alter'',
       man_UpgradeDeploy = ''deploy'' \<rparr>"

definition exCommand :: "string \<Rightarrow> Command" where
  "exCommand n =
     \<lparr> cmd_Name = n, cmd_Description = [], cmd_Transactional = True, cmd_AsAdmin = False,
       cmd_UseDb = True, cmd_Scripts = [] \<rparr>"

fun indexOf :: "Info list \<Rightarrow> string \<Rightarrow> int" where
  "indexOf [] app = 0"
| "indexOf (r # rs) app =
     (if info_AppVersion r = app then 1
      else (let k = indexOf rs app in if k = 0 then 0 else k + 1))"

definition exDbMan :: "string \<Rightarrow> Version list DbMan" where
  "exDbMan target =
     \<lparr> cfg_AppVersion = target, cfg_DbName = ''db'', cfg_RepoURI = ''repo'',
       fetchPlan = Inr exPlan,
       fetchManifest =
         (\<lambda>app. case filter (\<lambda>r. info_AppVersion r = app) (Releases exPlan) of
                   [] \<Rightarrow> Inl ''no such release''
                 | r # rs \<Rightarrow> Inr (r, exManifest (info_DbVersion r))),
       fetchCommandContent =
         (\<lambda>app path cmd. Inr (cmd \<lparr> cmd_Scripts := [path @ ''/'' @ cmd_Name cmd @ ''.sql''] \<rparr>)),
       GetCommands = (\<lambda>manifest names. map exCommand names),
       getUpgradeWindow =
         (\<lambda>plan current target. (indexOf (Releases plan) current, indexOf (Releases plan) target)),
       provGetVersion = historyGetVersion,
       provRunCommand = historyRunCommand,
       provSetVersion = historySetVersion \<rparr>"

definition exVersion :: "string \<Rightarrow> string \<Rightarrow> Version" where
  "exVersion app db =
     \<lparr> ver_AppVersion = app, ver_DbVersion = db, ver_Description = ''Created database version '' @ db,
       ver_Source = ''repo/rel-'' @ db, ver_Time = ''2026-01-01T00:00:00.000Z'' \<rparr>"

text \<open>The row the engine writes for a release: no time, the source under the repository.\<close>

definition exRow :: "string \<Rightarrow> string \<Rightarrow> string \<Rightarrow> Version" where
  "exRow app db description =
     \<lparr> ver_AppVersion = app, ver_DbVersion = db, ver_Description = description,
       ver_Source = ''repo/rel-'' @ db, ver_Time = [] \<rparr>"

definition freshWorld :: "Version list world" where
  "freshWorld = \<lparr> pstate = [], calls = [] \<rparr>"

definition deployedWorld :: "string \<Rightarrow> string \<Rightarrow> Version list world" where
  "deployedWorld app db = \<lparr> pstate = [exVersion app db], calls = [] \<rparr>"

text \<open>The same engine over a provider that answers \<open>getVersion\<close> with no error and no result.\<close>

definition blankAnswer :: "jv gomap" where
  "blankAnswer = [(''log'', JStr [])]"

definition blankDbMan :: "Version list DbMan" where
  "blankDbMan = (exDbMan ''v1'') \<lparr> provGetVersion := (\<lambda>s. (blankAnswer, s)) \<rparr>"

text \<open>
  The same engine over a provider that answers \<open>getVersion\<close> with the two strings of a
  version at the top level of the envelope.
\<close>

definition flatAnswer :: "jv gomap" where
  "flatAnswer = [(''appVersion'', JStr ''v1''), (''dbVersion'', JStr ''1''), (''log'', JStr [])]"

definition flatDbMan :: "Version list DbMan" where
  "flatDbMan = (exDbMan ''v1'') \<lparr> provGetVersion := (\<lambda>s. (flatAnswer, s)) \<rparr>"







section \<open>Comparator: properties\<close>

lemmas compare_defs = Compare_def compareTables_def compareIndexes_def compareConstraints_def
  compareSequences_def compareEnums_def compareFunctions_def compareViews_def
  compareTriggers_def emptyDiffResult_def

lemma Compare_CreatedIndexes:
  "CreatedIndexes (Compare A B) = filter (\<lambda>ix. \<not> idx_IsPrimary ix) (absent_in (Indexes B) (Indexes A))"
  by (simp add: compare_defs)

lemma Compare_DroppedIndexes:
  "DroppedIndexes (Compare A B) = filter (\<lambda>ix. \<not> idx_IsPrimary ix) (absent_in (Indexes A) (Indexes B))"
  by (simp add: compare_defs)

lemma absent_in_self: "absent_in xs xs = []"
proof -
  have "\<And>k v. (k, v) \<in> set xs \<Longrightarrow> exists_key xs k"
    unfolding exists_key_def by (metis weak_map_of_SomeI option.distinct(1))
  then show ?thesis
    unfolding absent_in_def by (auto simp: filter_empty_conv)
qed

lemma altered_in_self:
  assumes "uniq xs" and "\<And>k v. (k, v) \<in> set xs \<Longrightarrow> cmp v v = None"
  shows "altered_in cmp xs xs = []"
proof -
  have "\<And>k v. (k, v) \<in> set xs \<Longrightarrow> map_of xs k = Some v"
    using assms(1) unfolding uniq_def by simp
  then show ?thesis
    using assms(2) unfolding altered_in_def List.map_filter_def
    by (auto simp: filter_empty_conv)
qed

lemma compareColumns_self: "compareColumns c c = None"
  by (simp add: compareColumns_def compareNullableStrings_def)

lemma compareTableStructure_self: "uniq (tbl_Columns t) \<Longrightarrow> compareTableStructure t t = None"
  by (simp add: compareTableStructure_def absent_in_self altered_in_self compareColumns_self)

lemma compareEnumValues_self: "compareEnumValues e e = None"
  by (simp add: compareEnumValues_def)

lemma Compare_self:
  assumes "wf_schema S"
  shows "Compare S S = emptyDiffResult"
proof -
  have t: "altered_in compareTableStructure (Tables S) (Tables S) = []"
    using assms unfolding wf_schema_def
    by (intro altered_in_self) (auto simp: list_all_iff intro: compareTableStructure_self)
  have e: "altered_in compareEnumValues (Enums S) (Enums S) = []"
    using assms unfolding wf_schema_def by (intro altered_in_self) (auto simp: compareEnumValues_self)
  have f: "altered_in compareFunctionDefinition (Functions S) (Functions S) = []"
    using assms unfolding wf_schema_def
    by (intro altered_in_self) (auto simp: compareFunctionDefinition_def)
  have v: "altered_in compareViewDefinition (Views S) (Views S) = []"
    using assms unfolding wf_schema_def
    by (intro altered_in_self) (auto simp: compareViewDefinition_def)
  show ?thesis
    by (simp add: Compare_def compareTables_def compareIndexes_def compareConstraints_def
      compareSequences_def compareEnums_def compareFunctions_def compareViews_def
      compareTriggers_def absent_in_self t e f v)
qed

lemma HasChanges_empty: "\<not> HasChanges emptyDiffResult"
  by (simp add: HasChanges_def emptyDiffResult_def)

lemma HasChanges_buckets:
  "some_bucket_nonempty d = (HasChanges d \<or> 0 < length (AlteredEnums d))"
  unfolding some_bucket_nonempty_def HasChanges_def by blast

text \<open>
  Claim C1. \<open>HasChanges\<close> is meant to hold exactly when some bucket of the result is
  non-empty, the altered enums included. The source leaves \<open>AlteredEnums\<close> out of its
  disjunction, so \<open>HasChanges\<close> holds exactly when some bucket other than
  \<open>AlteredEnums\<close> is non-empty. Comparing an enum of two values with the same enum
  of three gives a result whose only non-empty bucket is \<open>AlteredEnums\<close>, and
  \<open>HasChanges\<close> is false on it.
\<close>

theorem HasChanges_skips_altered_enums:
  "some_bucket_nonempty d = (HasChanges d \<or> 0 < length (AlteredEnums d)) \<and>
   Compare twoColours threeColours =
     emptyDiffResult \<lparr> AlteredEnums :=
       [\<lparr> ed_Name = ''color'', AddedValues = [''blue''], RemovedValues = [] \<rparr>] \<rparr> \<and>
   some_bucket_nonempty (Compare twoColours threeColours) = True \<and>
   HasChanges (Compare twoColours threeColours) = False"
proof -
  have c: "Compare twoColours threeColours =
     emptyDiffResult \<lparr> AlteredEnums :=
       [\<lparr> ed_Name = ''color'', AddedValues = [''blue''], RemovedValues = [] \<rparr>] \<rparr>"
    by (simp add: compare_defs twoColours_def threeColours_def exSchema_def
        exEnum_def absent_in_def altered_in_def exists_key_def List.map_filter_def
        compareEnumValues_def)
  have "some_bucket_nonempty (Compare twoColours threeColours) = True"
    unfolding c by (simp add: some_bucket_nonempty_def emptyDiffResult_def)
  moreover have "HasChanges (Compare twoColours threeColours) = False"
    unfolding c by (simp add: HasChanges_def emptyDiffResult_def)
  ultimately show ?thesis using c HasChanges_buckets [of d] by blast
qed

text \<open>
  Claim C7. Comparing a snapshot with itself gives the empty result: every created,
  dropped and altered bucket is empty, and \<open>HasChanges\<close> is false. The keys of a Go
  map are unique; for the association lists of the model that is \<open>wf_schema\<close>.
\<close>

theorem self_diff_no_changes:
  "wf_schema S \<Longrightarrow> \<not> HasChanges (Compare S S) \<and> Compare S S = emptyDiffResult"
  by (simp add: Compare_self HasChanges_empty)

theorem self_diff_no_changes_witness:
  "wf_schema wideSchema \<and> \<not> HasChanges (Compare wideSchema wideSchema) \<and>
   Compare wideSchema wideSchema = emptyDiffResult"
proof -
  have h: "wf_schema wideSchema"
    by (simp add: wf_schema_def wideSchema_def exSchema_def exTable_def uniq_def)
  show ?thesis using h self_diff_no_changes [OF h] by blast
qed

text \<open>
  Claim C8. For every pair of snapshots, no index with \<open>IsPrimary\<close> set is in the
  \<open>CreatedIndexes\<close> or the \<open>DroppedIndexes\<close> bucket of their comparison.
\<close>

theorem primary_indexes_filtered:
  "\<forall>ix \<in> set (CreatedIndexes (Compare A B)) \<union> set (DroppedIndexes (Compare A B)). \<not> idx_IsPrimary ix"
  by (auto simp: Compare_CreatedIndexes Compare_DroppedIndexes)

theorem primary_indexes_filtered_witness:
  "map idx_Name (CreatedIndexes (Compare noIndexes twoIndexes)) = [''t_c_idx''] \<and>
   list_all (\<lambda>ix. \<not> idx_IsPrimary ix)
     (CreatedIndexes (Compare noIndexes twoIndexes) @ DroppedIndexes (Compare noIndexes twoIndexes))"
proof -
  have "map idx_Name (CreatedIndexes (Compare noIndexes twoIndexes)) = [''t_c_idx'']"
    by (simp add: Compare_CreatedIndexes noIndexes_def twoIndexes_def exSchema_def exIndex_def
        absent_in_def exists_key_def)
  then show ?thesis
    using primary_indexes_filtered [of noIndexes twoIndexes] by (simp add: list_all_iff)
qed

section \<open>Script generator: properties\<close>

lemma add_marks_assoc: "add_marks (add_marks a b) c = add_marks a (add_marks b c)"
  by (simp add: add_marks_def)

lemma add_marks_empty [simp]: "add_marks a ([], False) = a"
  by (simp add: add_marks_def)

lemma marks_upWrite [simp]: "marks (upWrite s st) = marks st"
  by (simp add: marks_def upWrite_def)

lemma marks_downWrite [simp]: "marks (downWrite s st) = marks st"
  by (simp add: marks_def downWrite_def)

lemma marks_warn [simp]: "marks (warn w st) = add_marks (marks st) ([w], False)"
  by (simp add: marks_def warn_def add_marks_def)

lemma marks_setBreaking [simp]: "marks (setBreaking st) = add_marks (marks st) ([], True)"
  by (simp add: marks_def setBreaking_def add_marks_def)

lemma marks_fold:
  assumes "\<And>x st. marks (step x st) = add_marks (marks st) (w x, b x)"
  shows "marks (fold step xs st) = add_marks (marks st) (concat (map w xs), list_ex b xs)"
proof (induction xs arbitrary: st)
  case Nil
  then show ?case by simp
next
  case (Cons x xs)
  then show ?case by (simp add: assms add_marks_def)
qed

lemma marks_fold_silent:
  assumes "\<And>x st. marks (step x st) = marks st"
  shows "marks (fold step xs st) = marks st"
  by (induction xs arbitrary: st) (simp_all add: assms)

lemma marks_alteredEnumStep:
  "marks (alteredEnumStep g ed st) =
     add_marks (marks st) (if removesValues ed then [enumWarning ed] else [], removesValues ed)"
  by (simp add: alteredEnumStep_def Let_def removesValues_def marks_fold_silent add_marks_def)

lemma marks_generateEnums:
  "marks (generateEnums g d st) =
     add_marks (marks st) (map enumWarning (filter removesValues (AlteredEnums d)),
                           list_ex removesValues (AlteredEnums d))"
proof -
  have c: "concat (map (\<lambda>ed. if removesValues ed then [enumWarning ed] else []) xs)
           = map enumWarning (filter removesValues xs)" for xs
    by (induction xs) simp_all
  show ?thesis
    unfolding generateEnums_def
    by (simp add: marks_fold_silent createdEnumStep_def droppedEnumStep_def
        marks_fold [where step = "alteredEnumStep g", OF marks_alteredEnumStep] c)
qed

lemma marks_alteredColumnStep:
  "marks (alteredColumnStep g tn cd st) = add_marks (marks st) (columnDiffWarnings tn cd, False)"
  by (simp add: alteredColumnStep_def defaultChangedPart_def nullableChangedPart_def
      typeChangedPart_def columnDiffWarnings_def add_marks_def)

lemma marks_droppedColumnStep:
  "marks (droppedColumnStep g tn col st) = add_marks (marks st) ([droppedColumnWarning tn col], True)"
  by (simp add: droppedColumnStep_def add_marks_def)

lemma concat_singletons: "concat (map (\<lambda>x. [f x]) xs) = map f xs"
  by (induction xs) simp_all

lemma list_ex_True: "list_ex (\<lambda>x. True) xs = (0 < length xs)"
  by (cases xs) simp_all

lemma list_ex_False: "list_ex (\<lambda>x. False) xs = False"
  by (induction xs) simp_all

lemma marks_alteredTableStep:
  "marks (alteredTableStep g td st) = add_marks (marks st) (tableDiffWarnings td, dropsColumns td)"
  unfolding alteredTableStep_def
  by (simp add: marks_fold [where step = "alteredColumnStep g tn" for tn, OF marks_alteredColumnStep]
      marks_fold [where step = "droppedColumnStep g tn" for tn, OF marks_droppedColumnStep]
      marks_fold_silent addedColumnStep_def add_marks_def tableDiffWarnings_def dropsColumns_def
      concat_singletons list_ex_True list_ex_False)

lemma marks_droppedTableStep:
  "marks (droppedTableStep g t st) = add_marks (marks st) ([droppedTableWarning t], True)"
  by (simp add: droppedTableStep_def add_marks_def)

lemma marks_generateTables:
  "marks (generateTables g d st) =
     add_marks (marks st)
       (concat (map tableDiffWarnings (AlteredTables d)) @ map droppedTableWarning (DroppedTables d),
        list_ex dropsColumns (AlteredTables d) \<or> 0 < length (DroppedTables d))"
  unfolding generateTables_def
  by (simp add: marks_fold [where step = "alteredTableStep g", OF marks_alteredTableStep]
      marks_fold [where step = "droppedTableStep g", OF marks_droppedTableStep]
      marks_fold_silent createdTableStep_def add_marks_def concat_singletons list_ex_True)

lemma marks_generateSequences: "marks (generateSequences g d st) = marks st"
  by (simp add: generateSequences_def marks_fold_silent)

lemma marks_generateConstraints: "marks (generateConstraints g d st) = marks st"
  by (simp add: generateConstraints_def Let_def marks_fold_silent)

lemma marks_generateIndexes: "marks (generateIndexes g d st) = marks st"
  by (simp add: generateIndexes_def Let_def marks_fold_silent)

lemma marks_generateFunctions: "marks (generateFunctions g d st) = marks st"
  by (simp add: generateFunctions_def marks_fold_silent)

lemma marks_generateViews: "marks (generateViews g d st) = marks st"
  by (simp add: generateViews_def marks_fold_silent)

lemma marks_generateTriggers: "marks (generateTriggers g d st) = marks st"
  by (simp add: generateTriggers_def marks_fold_silent)

lemma marks_Generate:
  "(Warnings (Generate g now d desc), HasBreaking (Generate g now d desc)) =
     (expectedWarnings d, expectedBreaking d)"
proof -
  have "marks (initialState now desc) = ([], False)"
    by (simp add: marks_def initialState_def)
  then have "marks (generateTriggers g d (generateViews g d (generateFunctions g d
      (generateIndexes g d (generateConstraints g d (generateTables g d
      (generateSequences g d (generateEnums g d (initialState now desc)))))))))
      = (expectedWarnings d, expectedBreaking d)"
    by (simp add: marks_generateTriggers marks_generateViews marks_generateFunctions
        marks_generateIndexes marks_generateConstraints marks_generateTables
        marks_generateSequences marks_generateEnums add_marks_def expectedWarnings_def
        expectedBreaking_def)
  then show ?thesis
    by (simp add: Generate_def Let_def marks_def)
qed

text \<open>
  Claim C3, as the source has it. The generator appends one warning for each dropped
  column, dropped table, column type change, \<open>NOT NULL\<close> set on a column and altered
  enum with removed values, in the order it visits them. It sets \<open>HasBreaking\<close>
  exactly when the result has a dropped column, a dropped table or an altered enum with
  removed values; a type change or a \<open>NOT NULL\<close> alone leaves it false.
\<close>

theorem warnings_and_breaking:
  "Warnings (Generate g now d desc) = expectedWarnings d \<and>
   HasBreaking (Generate g now d desc) = expectedBreaking d"
  using marks_Generate [of g now d desc] by simp

theorem warnings_and_breaking_witness:
  "Warnings (Generate (NewGenerator ''s'') ''2026-01-01T00:00:00Z''
      (Compare wideSchema narrowSchema) ''d'') =
     [''Dropping column t.b will result in data loss'',
      ''Type change on t.c may cause data loss or conversion errors''] \<and>
   HasBreaking (Generate (NewGenerator ''s'') ''2026-01-01T00:00:00Z''
      (Compare wideSchema narrowSchema) ''d'') = True"
proof -
  have "AlteredTables (Compare wideSchema narrowSchema) =
          [\<lparr> TableName = ''t'', AddedColumns = [],
             DroppedColumns = [exColumn ''b'' ''text'' True 2],
             AlteredColumns =
               [\<lparr> cd_Name = ''c'', OldColumn = exColumn ''c'' ''bigint'' False 1,
                   NewColumn = exColumn ''c'' ''int'' True 1, TypeChanged = True,
                   NullableChanged = True, DefaultChanged = False \<rparr>] \<rparr>] \<and>
        AlteredEnums (Compare wideSchema narrowSchema) = [] \<and>
        DroppedTables (Compare wideSchema narrowSchema) = []"
    by (simp add: compare_defs wideSchema_def narrowSchema_def exSchema_def exTable_def
        exColumn_def absent_in_def altered_in_def exists_key_def List.map_filter_def
        compareTableStructure_def compareColumns_def compareNullableStrings_def)
  then show ?thesis
    using warnings_and_breaking [of "NewGenerator ''s''" "''2026-01-01T00:00:00Z''"
        "Compare wideSchema narrowSchema" "''d''"]
    by (simp add: expectedWarnings_def expectedBreaking_def tableDiffWarnings_def
        columnDiffWarnings_def dropsColumns_def droppedColumnWarning_def typeChangeWarning_def
        exColumn_def)
qed

text \<open>
  Claim C3, as stated, fails: a column that changes its type and becomes \<open>NOT NULL\<close>
  raises both warnings, and \<open>HasBreaking\<close> stays false.
\<close>

theorem type_change_not_breaking:
  "Warnings (Generate (NewGenerator ''s'') ''2026-01-01T00:00:00Z''
      (Compare narrowSchema wideSchema) ''d'') =
     [''Type change on t.c may cause data loss or conversion errors'',
      ''Setting NOT NULL on t.c may fail if existing NULL values exist''] \<and>
   HasBreaking (Generate (NewGenerator ''s'') ''2026-01-01T00:00:00Z''
      (Compare narrowSchema wideSchema) ''d'') = False"
proof -
  have "AlteredTables (Compare narrowSchema wideSchema) =
          [\<lparr> TableName = ''t'', AddedColumns = [exColumn ''b'' ''text'' True 2],
             DroppedColumns = [],
             AlteredColumns =
               [\<lparr> cd_Name = ''c'', OldColumn = exColumn ''c'' ''int'' True 1,
                   NewColumn = exColumn ''c'' ''bigint'' False 1, TypeChanged = True,
                   NullableChanged = True, DefaultChanged = False \<rparr>] \<rparr>] \<and>
        AlteredEnums (Compare narrowSchema wideSchema) = [] \<and>
        DroppedTables (Compare narrowSchema wideSchema) = []"
    by (simp add: compare_defs wideSchema_def narrowSchema_def exSchema_def exTable_def
        exColumn_def absent_in_def altered_in_def exists_key_def List.map_filter_def
        compareTableStructure_def compareColumns_def compareNullableStrings_def)
  then show ?thesis
    by (simp add: marks_Generate [simplified] expectedWarnings_def expectedBreaking_def
        tableDiffWarnings_def columnDiffWarnings_def dropsColumns_def typeChangeWarning_def
        notNullWarning_def exColumn_def)
qed

lemma render_append [simp]: "render q (a @ b) = render q a @ render q b"
proof (induction a)
  case Nil
  then show ?case by simp
next
  case (Cons p a)
  then show ?case by (cases p) simp_all
qed

lemma renders_upWrite:
  "renders q st t \<Longrightarrow> s = render q ps \<Longrightarrow> renders q (upWrite s st) (upAdd ps t)"
  by (simp add: renders_def upWrite_def upAdd_def)

lemma renders_downWrite:
  "renders q st t \<Longrightarrow> s = render q ps \<Longrightarrow> renders q (downWrite s st) (downAdd ps t)"
  by (simp add: renders_def downWrite_def downAdd_def)

lemma renders_warn: "renders q st t \<Longrightarrow> renders q (warn w st) t"
  by (simp add: renders_def warn_def)

lemma renders_setBreaking: "renders q st t \<Longrightarrow> renders q (setBreaking st) t"
  by (simp add: renders_def setBreaking_def)

lemma renders_unless: "renders q a t \<Longrightarrow> renders q b t \<Longrightarrow> renders q (if c then a else b) t"
  by simp

lemma renders_if:
  "(c \<Longrightarrow> renders q a a') \<Longrightarrow> (\<not> c \<Longrightarrow> renders q b b') \<Longrightarrow>
     renders q (if c then a else b) (if c then a' else b')"
  by simp

lemma renders_fold:
  assumes "\<And>x st t. renders q st t \<Longrightarrow> renders q (f x st) (f' x t)"
    and "renders q st t"
  shows "renders q (fold f xs st) (fold f' xs t)"
  using assms(2) by (induction xs arbitrary: st t) (simp_all add: assms(1))

lemmas renders_writes = renders_fold renders_upWrite renders_downWrite renders_warn
  renders_setBreaking

lemmas pieces_defs = createTypePieces_def dropTypePieces_def addValuePieces_def
  createSequencePieces_def dropSequencePieces_def createTablePieces_def dropTablePieces_def
  recreateTablePieces_def addColumnPieces_def dropColumnPieces_def alterColumnPieces_def
  defaultPieces_def dropConstraintPieces_def addConstraintPieces_def dropIndexPieces_def
  dropFunctionPieces_def createViewPieces_def replaceViewPieces_def dropViewPieces_def
  dropTriggerPieces_def

lemmas text_defs = createTypeText_def dropTypeText_def addValueText_def
  createSequenceText_def dropSequenceText_def addColumnText_def dropColumnText_def
  alterColumnPrefix_def defaultText_def dropConstraintText_def addConstraintText_def
  dropIndexText_def dropFunctionText_def createViewText_def replaceViewText_def
  dropViewText_def dropTriggerText_def

lemma renders_generateEnums:
  "renders (schema g) st t \<Longrightarrow> renders (schema g) (generateEnums g d st) (templateEnums d t)"
  unfolding generateEnums_def templateEnums_def createdEnumStep_def alteredEnumStep_def
    droppedEnumStep_def Let_def
  by (intro renders_writes renders_unless; simp add: pieces_defs text_defs)

lemma renders_generateSequences:
  "renders (schema g) st t \<Longrightarrow>
     renders (schema g) (generateSequences g d st) (templateSequences d t)"
  unfolding generateSequences_def templateSequences_def
  by (intro renders_writes; simp add: pieces_defs text_defs)

lemma renders_alteredColumnStep:
  "renders (schema g) st t \<Longrightarrow>
     renders (schema g) (alteredColumnStep g tn cd st) (templateAlteredColumn tn cd t)"
  unfolding alteredColumnStep_def templateAlteredColumn_def defaultChangedPart_def
    nullableChangedPart_def typeChangedPart_def Let_def
  by (intro renders_if renders_writes; simp add: pieces_defs text_defs)

lemma renders_alteredTableStep:
  "renders (schema g) st t \<Longrightarrow>
     renders (schema g) (alteredTableStep g td st) (templateAlteredTable td t)"
  unfolding alteredTableStep_def templateAlteredTable_def addedColumnStep_def droppedColumnStep_def
  by (intro renders_writes renders_alteredColumnStep; simp add: pieces_defs text_defs)

lemma renders_generateTables:
  "renders (schema g) st t \<Longrightarrow> renders (schema g) (generateTables g d st) (templateTables d t)"
  unfolding generateTables_def templateTables_def createdTableStep_def droppedTableStep_def
  by (intro renders_writes renders_alteredTableStep; simp add: pieces_defs text_defs)

lemma renders_generateConstraints:
  "renders (schema g) st t \<Longrightarrow>
     renders (schema g) (generateConstraints g d st) (templateConstraints d t)"
  unfolding generateConstraints_def templateConstraints_def Let_def
  by (intro renders_if renders_writes; simp add: pieces_defs text_defs)

lemma renders_generateIndexes:
  "renders (schema g) st t \<Longrightarrow> renders (schema g) (generateIndexes g d st) (templateIndexes d t)"
  unfolding generateIndexes_def templateIndexes_def Let_def
  by (intro renders_if renders_writes; simp add: pieces_defs text_defs)

lemma renders_downWrite2:
  "renders q st t \<Longrightarrow> a @ b = render q ps \<Longrightarrow>
     renders q (downWrite b (downWrite a st)) (downAdd ps t)"
  by (simp add: renders_def downWrite_def downAdd_def)

lemma renders_upWrite2:
  "renders q st t \<Longrightarrow> a @ b = render q ps \<Longrightarrow>
     renders q (upWrite b (upWrite a st)) (upAdd ps t)"
  by (simp add: renders_def upWrite_def upAdd_def)

lemma renders_downWrite3:
  "renders q st t \<Longrightarrow> a @ b @ c = render q ps \<Longrightarrow>
     renders q (downWrite c (downWrite b (downWrite a st))) (downAdd ps t)"
  by (simp add: renders_def downWrite_def downAdd_def)

lemma renders_upWrite3:
  "renders q st t \<Longrightarrow> a @ b @ c = render q ps \<Longrightarrow>
     renders q (upWrite c (upWrite b (upWrite a st))) (upAdd ps t)"
  by (simp add: renders_def upWrite_def upAdd_def)

lemma renders_generateFunctions:
  "renders (schema g) st t \<Longrightarrow>
     renders (schema g) (generateFunctions g d st) (templateFunctions d t)"
  unfolding generateFunctions_def templateFunctions_def
  by (intro renders_fold renders_downWrite3 renders_upWrite3 renders_downWrite2 renders_upWrite2
        renders_upWrite renders_downWrite;
      simp add: pieces_defs text_defs)

lemma renders_generateViews:
  "renders (schema g) st t \<Longrightarrow> renders (schema g) (generateViews g d st) (templateViews d t)"
  unfolding generateViews_def templateViews_def
  by (intro renders_writes; simp add: pieces_defs text_defs)

lemma renders_generateTriggers:
  "renders (schema g) st t \<Longrightarrow>
     renders (schema g) (generateTriggers g d st) (templateTriggers d t)"
  unfolding generateTriggers_def templateTriggers_def
  by (intro renders_writes; simp add: pieces_defs text_defs)

lemma renders_Generate:
  "UpScript (Generate g now d description) =
     render (schema g) (upT (scriptTemplate now d description)) \<and>
   DownScript (Generate g now d description) =
     render (schema g) (downT (scriptTemplate now d description))"
proof -
  let ?t0 = "\<lparr> upT = [Txt (header description now ''UP'')],
               downT = [Txt (header description now ''DOWN'')] \<rparr>"
  have "renders (schema g) (initialState now description) ?t0"
    by (simp add: renders_def initialState_def)
  then have "renders (schema g)
      (generateTriggers g d (generateViews g d (generateFunctions g d (generateIndexes g d
        (generateConstraints g d (generateTables g d (generateSequences g d
          (generateEnums g d (initialState now description)))))))))
      (scriptTemplate now d description)"
    unfolding scriptTemplate_def
    by (intro renders_generateTriggers renders_generateViews renders_generateFunctions
        renders_generateIndexes renders_generateConstraints renders_generateTables
        renders_generateSequences renders_generateEnums)
  then show ?thesis
    by (simp add: Generate_def renders_def Let_def)
qed

text \<open>
  Claim C10. A generator built with the empty schema name has the schema \<open>public\<close>.
  For every diff result and description, the up script and the down script of a
  generator are the template of the migration rendered with the generator's schema:
  the template is written without any schema and marks each name that a statement
  qualifies. So with the empty schema name every type, sequence, table, index,
  function and view, and the table of every trigger, is written as \<open>public.name\<close>
  in both scripts. The definitions of indexes, functions, views, triggers and
  constraints are copied from the snapshot as they are.
\<close>

theorem empty_schema_is_public:
  "schema (NewGenerator []) = ''public'' \<and>
   UpScript (Generate (NewGenerator []) now d description) =
     render ''public'' (upT (scriptTemplate now d description)) \<and>
   DownScript (Generate (NewGenerator []) now d description) =
     render ''public'' (downT (scriptTemplate now d description)) \<and>
   UpScript (Generate g now d description) =
     render (schema g) (upT (scriptTemplate now d description)) \<and>
   DownScript (Generate g now d description) =
     render (schema g) (downT (scriptTemplate now d description))"
proof -
  have "schema (NewGenerator []) = ''public''"
    by (simp add: NewGenerator_def)
  then show ?thesis
    using renders_Generate [of "NewGenerator []" now d description]
      renders_Generate [of g now d description]
    by simp
qed

theorem empty_schema_is_public_witness:
  "upT (scriptTemplate ''T'' (Compare narrowSchema wideSchema) ''d'') =
     [Txt (header ''d'' ''T'' ''UP''),
      Txt ''ALTER TABLE '', Qualified ''t'', Txt '' ADD COLUMN b text;\<newline>'',
      Txt ''ALTER TABLE '', Qualified ''t'', Txt '' ALTER COLUMN c TYPE bigint;\<newline>'',
      Txt ''ALTER TABLE '', Qualified ''t'', Txt '' ALTER COLUMN c SET NOT NULL;\<newline>'',
      Txt ''\<newline>''] \<and>
   UpScript (Generate (NewGenerator []) ''T'' (Compare narrowSchema wideSchema) ''d'') =
     header ''d'' ''T'' ''UP'' @
     ''ALTER TABLE public.t ADD COLUMN b text;\<newline>'' @
     ''ALTER TABLE public.t ALTER COLUMN c TYPE bigint;\<newline>'' @
     ''ALTER TABLE public.t ALTER COLUMN c SET NOT NULL;\<newline>\<newline>'' \<and>
   DownScript (Generate (NewGenerator []) ''T'' (Compare narrowSchema wideSchema) ''d'') =
     header ''d'' ''T'' ''DOWN'' @
     ''ALTER TABLE public.t DROP COLUMN IF EXISTS b;\<newline>'' @
     ''ALTER TABLE public.t ALTER COLUMN c TYPE int;\<newline>'' @
     ''ALTER TABLE public.t ALTER COLUMN c DROP NOT NULL;\<newline>\<newline>''"
proof -
  let ?d = "Compare narrowSchema wideSchema"
  have u: "upT (scriptTemplate ''T'' ?d ''d'') =
     [Txt (header ''d'' ''T'' ''UP''),
      Txt ''ALTER TABLE '', Qualified ''t'', Txt '' ADD COLUMN b text;\<newline>'',
      Txt ''ALTER TABLE '', Qualified ''t'', Txt '' ALTER COLUMN c TYPE bigint;\<newline>'',
      Txt ''ALTER TABLE '', Qualified ''t'', Txt '' ALTER COLUMN c SET NOT NULL;\<newline>'',
      Txt ''\<newline>'']"
    by code_simp
  have w: "downT (scriptTemplate ''T'' ?d ''d'') =
     [Txt (header ''d'' ''T'' ''DOWN''),
      Txt ''ALTER TABLE '', Qualified ''t'', Txt '' DROP COLUMN IF EXISTS b;\<newline>'',
      Txt ''ALTER TABLE '', Qualified ''t'', Txt '' ALTER COLUMN c TYPE int;\<newline>'',
      Txt ''ALTER TABLE '', Qualified ''t'', Txt '' ALTER COLUMN c DROP NOT NULL;\<newline>'',
      Txt ''\<newline>'']"
    by code_simp
  show ?thesis
    using empty_schema_is_public [of "''T''" ?d "''d''"] u w by simp
qed

section \<open>Release engine: properties\<close>

lemma GetVersion_not_object:
  "(\<forall>v. Get r ''result'' \<noteq> JObj v) \<Longrightarrow> GetVersion r = Inl (InterfaceConversion ''result'')"
  by (cases "Get r ''result''") (simp_all add: GetVersion_def)

lemma GetVersion_never_nil: "GetVersion r \<noteq> Inr None"
  by (simp add: GetVersion_def split: jv.splits sum.splits)

lemma Get_missing: "map_of (p_value r) key = None \<Longrightarrow> Get r key = JNull"
  by (simp add: Get_def)

lemma extends_issued: "extends w w' tr \<Longrightarrow> issued w w' = tr"
  by (simp add: extends_def issued_def)

lemma extends_refl: "extends w w []"
  by (simp add: extends_def)

lemma extends_trans: "extends w w1 a \<Longrightarrow> extends w1 w2 b \<Longrightarrow> extends w w2 (a @ b)"
  by (simp add: extends_def)

lemma quiet_append:
  "list_all (\<lambda>c. \<not> failedRun c) a \<Longrightarrow> quietAfterFailure b \<Longrightarrow> quietAfterFailure (a @ b)"
  by (induction a) simp_all

lemma clean_quiet: "list_all (\<lambda>c. \<not> failedRun c) a \<Longrightarrow> quietAfterFailure a"
  using quiet_append [of a "[]"] by simp

lemma HasError_Error: "HasError r \<Longrightarrow> Error r \<noteq> Inr None"
  by (auto simp: HasError_def Error_def split: jv.splits)

lemma isRunCommand_run: "isRunCommand (RunCommandCall c m)"
  by (simp add: isRunCommand_def)

lemma stepOk_Next: "stepOk (Inr (Next l))"
  by (simp add: stepOk_def)

lemma callRunCommand_extends:
  "callRunCommand dm c w = (r, w1) \<Longrightarrow>
     \<exists>m. r = decoded m \<and> extends w w1 [RunCommandCall c m]"
  by (auto simp: callRunCommand_def extends_def split: prod.splits)

lemma execAll_trace:
  "\<exists>tr. extends w (snd (execAll dm cs log w)) tr \<and> list_all isRunCommand tr \<and>
        quietAfterFailure tr \<and>
        (returnsOk (fst (execAll dm cs log w)) \<longrightarrow> list_all (\<lambda>c. \<not> failedRun c) tr)"
proof (induction cs arbitrary: log w)
  case Nil
  show ?case by (intro exI [of _ "[]"]) (simp add: extends_refl)
next
  case (Cons c cs)
  obtain r w1 where rw: "callRunCommand dm c w = (r, w1)" by fastforce
  then obtain m where m: "r = decoded m" "extends w w1 [RunCommandCall c m]"
    using callRunCommand_extends by blast
  show ?case
  proof (cases "HasError r")
    case True
    then have "\<not> returnsOk (fst (execAll dm (c # cs) log w))"
      using rw HasError_Error [of r] by (auto simp: returnsOk_def split: sum.splits)
    moreover have "snd (execAll dm (c # cs) log w) = w1"
      using rw True by (simp split: sum.splits)
    ultimately show ?thesis
      using m by (intro exI [of _ "[RunCommandCall c m]"]) (simp add: isRunCommand_run)
  next
    case False
    show ?thesis
    proof (cases "GetLog r")
      case (Inl p)
      then have "execAll dm (c # cs) log w = (Inl p, w1)"
        using rw False by simp
      then show ?thesis
        using m by (intro exI [of _ "[RunCommandCall c m]"]) (simp add: isRunCommand_run returnsOk_def)
    next
      case (Inr l)
      then have eq: "execAll dm (c # cs) log w = execAll dm cs (log @ startedLine c @ l @ succeededLine c) w1"
        using rw False by simp
      from Cons.IH [of w1 "log @ startedLine c @ l @ succeededLine c"]
      obtain tr where tr: "extends w1 (snd (execAll dm cs (log @ startedLine c @ l @ succeededLine c) w1)) tr"
        "list_all isRunCommand tr" "quietAfterFailure tr"
        "returnsOk (fst (execAll dm cs (log @ startedLine c @ l @ succeededLine c) w1)) \<longrightarrow> list_all (\<lambda>c. \<not> failedRun c) tr"
        by blast
      have nf: "\<not> failedRun (RunCommandCall c m)"
        using False m(1) by (simp add: failedRun_def)
      show ?thesis
        unfolding eq
        using tr nf extends_trans [OF m(2) tr(1)]
        by (intro exI [of _ "RunCommandCall c m # tr"]) (simp add: isRunCommand_run)
    qed
  qed
qed

lemma runCommands_trace:
  "\<exists>tr. extends w (snd (runCommands dm cmds manifest w)) tr \<and> list_all isRunCommand tr \<and>
        quietAfterFailure tr \<and>
        (returnsOk (fst (runCommands dm cmds manifest w)) \<longrightarrow> list_all (\<lambda>c. \<not> failedRun c) tr)"
proof (cases "fetchAll dm manifest cmds")
  case (Inl err)
  then show ?thesis
    by (intro exI [of _ "[]"]) (simp add: runCommands_def extends_refl returnsOk_def)
next
  case (Inr commands)
  then show ?thesis
    using execAll_trace [of w dm commands "[]"] by (simp add: runCommands_def)
qed

lemma runStage_trace:
  "\<exists>tr. extends w (snd (runStage dm name manifest log w)) tr \<and> list_all isRunCommand tr \<and>
        quietAfterFailure tr \<and>
        (stepOk (fst (runStage dm name manifest log w)) \<longrightarrow> list_all (\<lambda>c. \<not> failedRun c) tr)"
proof -
  let ?r = "runCommands dm (GetCommands dm manifest [name]) manifest w"
  have s: "snd (runStage dm name manifest log w) = snd ?r"
    by (simp add: runStage_def split: prod.splits sum.splits option.splits)
  have o: "stepOk (fst (runStage dm name manifest log w)) = returnsOk (fst ?r)"
    by (simp add: runStage_def stepOk_def returnsOk_def split: prod.splits sum.splits option.splits)
  show ?thesis
    unfolding s o by (rule runCommands_trace)
qed

lemma runStage_stepOk:
  "stepOk (fst (runStage dm name manifest log w)) =
     returnsOk (fst (runCommands dm (GetCommands dm manifest [name]) manifest w))"
  by (simp add: runStage_def stepOk_def returnsOk_def split: prod.splits sum.splits option.splits)

lemma runStage_world:
  "snd (runStage dm name manifest log w) =
     snd (runCommands dm (GetCommands dm manifest [name]) manifest w)"
  by (simp add: runStage_def split: prod.splits sum.splits option.splits)

lemma setDbVersion_trace:
  "\<exists>v m. extends w (snd (setDbVersion dm a d de p w)) [SetVersionCall v m]"
  by (simp add: setDbVersion_def callSetVersion_def extends_def Let_def split: prod.splits)

lemma writeHistory_trace:
  "\<exists>v m. extends w (snd (writeHistory dm a d de p log w)) [SetVersionCall v m]"
proof -
  have "snd (writeHistory dm a d de p log w) = snd (setDbVersion dm a d de p w)"
    by (simp add: writeHistory_def split: prod.splits sum.splits option.splits)
  then show ?thesis using setDbVersion_trace [of w dm a d de p] by simp
qed

lemma run_not_write: "list_all isRunCommand tr \<Longrightarrow> \<not> list_ex isSetVersion tr"
  by (induction tr) (auto simp: isRunCommand_def isSetVersion_def split: call.splits)

lemma clean_write: "\<not> failedRun (SetVersionCall v m)"
  by (simp add: failedRun_def)

lemma orderly_refl: "orderly w w ok"
  unfolding orderly_def by (intro exI [of _ "[]"]) (simp add: extends_refl)

lemma orderly_weaken: "orderly w w' ok \<Longrightarrow> orderly w w' False"
  unfolding orderly_def by auto

lemma orderly_trans:
  assumes "orderly w w1 True" and "orderly w1 w2 ok"
  shows "orderly w w2 ok"
proof -
  from assms(1) obtain a where a: "extends w w1 a" "list_all (\<lambda>c. \<not> failedRun c) a"
    unfolding orderly_def by auto
  from assms(2) obtain b where b: "extends w1 w2 b" "quietAfterFailure b"
    "ok \<longrightarrow> list_all (\<lambda>c. \<not> failedRun c) b"
    unfolding orderly_def by auto
  show ?thesis
    unfolding orderly_def
    using extends_trans [OF a(1) b(1)] a(2) b(2,3)
    by (intro exI [of _ "a @ b"]) (simp add: quiet_append)
qed

lemma andThen_stop: "\<not> stepOk (fst r) \<Longrightarrow> andThen r k = r"
  by (cases r) (auto simp: andThen_def stepOk_def split: sum.splits step.splits)

lemma andThen_go: "stepOk (fst r) \<Longrightarrow> \<exists>l. andThen r k = k l (snd r)"
  by (cases r) (auto simp: andThen_def stepOk_def split: sum.splits step.splits)

lemma orderly_andThen:
  assumes "orderly w (snd r) (stepOk (fst r))"
    and "\<And>l. orderly (snd r) (snd (k l (snd r))) (stepOk (fst (k l (snd r))))"
  shows "orderly w (snd (andThen r k)) (stepOk (fst (andThen r k)))"
proof (cases "stepOk (fst r)")
  case False
  then show ?thesis using assms(1) by (simp add: andThen_stop)
next
  case True
  then obtain l where l: "andThen r k = k l (snd r)" using andThen_go by blast
  show ?thesis
    unfolding l using orderly_trans [OF _ assms(2) [of l]] assms(1) True by simp
qed

lemma orderly_runStage:
  "orderly w (snd (runStage dm name manifest log w)) (stepOk (fst (runStage dm name manifest log w)))"
  using runStage_trace [of w dm name manifest log] unfolding orderly_def by blast

lemma orderly_writeHistory:
  "orderly w (snd (writeHistory dm a d de p log w)) ok"
proof -
  obtain v m where "extends w (snd (writeHistory dm a d de p log w)) [SetVersionCall v m]"
    using writeHistory_trace by blast
  then show ?thesis
    unfolding orderly_def
    by (intro exI [of _ "[SetVersionCall v m]"]) (simp add: clean_write)
qed

lemma orderly_alterStage:
  "orderly w (snd (alterStage dm manifest log w)) (stepOk (fst (alterStage dm manifest log w)))"
  by (simp add: alterStage_def orderly_runStage orderly_refl)

lemma orderly_upgradeRelease:
  "orderly w (snd (upgradeRelease dm version plan currentIx targetIx i log w))
     (stepOk (fst (upgradeRelease dm version plan currentIx targetIx i log w)))"
proof -
  have fin: "orderly w1
      (snd (if i = targetIx
            then andThen (runStage dm nm manifest log2 w1) (\<lambda>log3 w2. writeHistory dm a d de p log3 w2)
            else writeHistory dm a' d' de' p' log2 w1))
      (stepOk (fst (if i = targetIx
            then andThen (runStage dm nm manifest log2 w1) (\<lambda>log3 w2. writeHistory dm a d de p log3 w2)
            else writeHistory dm a' d' de' p' log2 w1)))"
    for w1 nm manifest log2 a d de p a' d' de' p'
    by (simp add: orderly_andThen orderly_runStage orderly_writeHistory)
  show ?thesis
    unfolding upgradeRelease_def Let_def
    by (auto simp: orderly_refl orderly_runStage split: sum.splits
        intro!: orderly_andThen orderly_alterStage fin)
qed

lemma upgradeLoop_quiet:
  "orderly w (snd (upgradeLoop dm version plan currentIx targetIx i log w)) False"
proof (induction dm version plan currentIx targetIx i log w rule: upgradeLoop.induct)
  case (1 dm version plan currentIx targetIx i log w)
  let ?r = "upgradeRelease dm version plan currentIx targetIx i log w"
  show ?case
  proof (cases "i \<le> targetIx")
    case False
    then show ?thesis by (subst upgradeLoop.simps) (simp add: orderly_refl)
  next
    case True
    show ?thesis
    proof (cases "stepOk (fst ?r)")
      case False
      then have "snd (upgradeLoop dm version plan currentIx targetIx i log w) = snd ?r"
        using True
        by (subst upgradeLoop.simps) (auto simp: stepOk_def split: prod.splits sum.splits step.splits)
      then show ?thesis
        using orderly_upgradeRelease [of w dm version plan currentIx targetIx i log]
        by (simp add: orderly_weaken)
    next
      case ok: True
      then obtain l where l: "?r = (Inr (Next l), snd ?r)"
        by (cases ?r) (auto simp: stepOk_def split: sum.splits step.splits)
      have eq: "upgradeLoop dm version plan currentIx targetIx i log w =
                upgradeLoop dm version plan currentIx targetIx (i + 1) l (snd ?r)"
        using True by (subst upgradeLoop.simps, subst l) simp
      have ih: "orderly (snd ?r) (snd (upgradeLoop dm version plan currentIx targetIx (i + 1) l (snd ?r))) False"
        using "1.IH" [OF True l [symmetric] refl refl] by simp
      have "orderly w (snd ?r) True"
        using orderly_upgradeRelease [of w dm version plan currentIx targetIx i log] ok by simp
      then show ?thesis
        unfolding eq using ih by (rule orderly_trans)
    qed
  qed
qed

lemma orderly_callGetVersion: "orderly w (snd (callGetVersion dm w)) True"
  unfolding orderly_def
  by (intro exI [of _ "[GetVersionCall (fst (provGetVersion dm (pstate w)))]"])
     (simp add: callGetVersion_def extends_def failedRun_def split: prod.splits)

lemma getVersion_world: "snd (getVersion dm w) = snd (callGetVersion dm w)"
  by (simp add: getVersion_def split: prod.splits sum.splits)

lemma Upgrade_world:
  "snd (Upgrade dm w) = snd (callGetVersion dm w) \<or>
   (\<exists>version plan currentIx targetIx.
      snd (Upgrade dm w) =
        snd (upgradeLoop dm version plan currentIx targetIx currentIx [] (snd (callGetVersion dm w))))"
proof (cases "getVersion dm w")
  case (Pair r w1)
  then have w1: "w1 = snd (callGetVersion dm w)"
    using getVersion_world [of dm w] by simp
  show ?thesis
  proof (cases r)
    case (Inl p)
    then show ?thesis using Pair w1 by (simp add: Upgrade_def Let_def)
  next
    case (Inr ve)
    obtain v err where ve: "ve = (v, err)" by (cases ve)
    show ?thesis
    proof (cases "err = None \<and> v \<noteq> None")
      case False
      then show ?thesis
        using Pair w1 Inr ve by (cases err; cases v) (simp_all add: Upgrade_def Let_def)
    next
      case True
      then obtain version where v: "v = Some version" "err = None" by auto
      show ?thesis
      proof (cases "fetchPlan dm")
        case (Inl e)
        then show ?thesis using Pair w1 Inr ve v by (simp add: Upgrade_def Let_def)
      next
        case plan: (Inr plan)
        obtain currentIx targetIx where
          win: "getUpgradeWindow dm plan (ver_AppVersion version) (cfg_AppVersion dm) = (currentIx, targetIx)"
          by fastforce
        show ?thesis
        proof (cases "cfg_AppVersion dm = ver_AppVersion version \<or> targetIx \<le> currentIx")
          case True
          then have "snd (Upgrade dm w) = snd (callGetVersion dm w)"
            using Pair w1 Inr ve v plan win by (auto simp: Upgrade_def Let_def)
          then show ?thesis ..
        next
          case False
          then have "snd (Upgrade dm w) =
              snd (upgradeLoop dm version plan currentIx targetIx currentIx [] (snd (callGetVersion dm w)))"
            using Pair w1 Inr ve v plan win by (simp add: Upgrade_def Let_def)
          then show ?thesis by blast
        qed
      qed
    qed
  qed
qed

lemma Upgrade_quiet: "orderly w (snd (Upgrade dm w)) False"
proof -
  from Upgrade_world [of dm w] show ?thesis
  proof
    assume "snd (Upgrade dm w) = snd (callGetVersion dm w)"
    then show ?thesis using orderly_weaken [OF orderly_callGetVersion [of w dm]] by simp
  next
    assume "\<exists>version plan currentIx targetIx.
      snd (Upgrade dm w) =
        snd (upgradeLoop dm version plan currentIx targetIx currentIx [] (snd (callGetVersion dm w)))"
    then obtain version plan currentIx targetIx where
      "snd (Upgrade dm w) =
        snd (upgradeLoop dm version plan currentIx targetIx currentIx [] (snd (callGetVersion dm w)))"
      by blast
    then show ?thesis
      using orderly_trans [OF orderly_callGetVersion [of w dm] upgradeLoop_quiet] by simp
  qed
qed

lemma orderly_runCommands:
  "orderly w (snd (runCommands dm cmds manifest w)) (returnsOk (fst (runCommands dm cmds manifest w)))"
  using runCommands_trace [of w dm cmds manifest] unfolding orderly_def by blast

lemma orderly_setDbVersion: "orderly w (snd (setDbVersion dm a d de p w)) ok"
proof -
  obtain v m where "extends w (snd (setDbVersion dm a d de p w)) [SetVersionCall v m]"
    using setDbVersion_trace by blast
  then show ?thesis
    unfolding orderly_def
    by (intro exI [of _ "[SetVersionCall v m]"]) (simp add: clean_write)
qed

lemma Deploy_world:
  "snd (Deploy dm w) = snd (callGetVersion dm w) \<or>
   (\<exists>info manifest.
      fetchManifest dm (cfg_AppVersion dm) = Inr (info, manifest) \<and>
      \<not> returnsOk (fst (deployBatch dm manifest w)) \<and>
      snd (Deploy dm w) = snd (deployBatch dm manifest w)) \<or>
   (\<exists>info manifest a d de p.
      fetchManifest dm (cfg_AppVersion dm) = Inr (info, manifest) \<and>
      returnsOk (fst (deployBatch dm manifest w)) \<and>
      snd (Deploy dm w) = snd (setDbVersion dm a d de p (snd (deployBatch dm manifest w))))"
proof -
  obtain result w1 where g: "callGetVersion dm w = (result, w1)" by fastforce
  show ?thesis
  proof (cases "HasError result")
    case False
    then have "snd (Deploy dm w) = w1"
      using g by (simp add: Deploy_def Let_def split: sum.splits)
    then show ?thesis using g by simp
  next
    case err: True
    show ?thesis
    proof (cases "fetchManifest dm (cfg_AppVersion dm)")
      case (Inl e)
      then have "snd (Deploy dm w) = w1"
        using g err by (simp add: Deploy_def Let_def)
      then show ?thesis using g by simp
    next
      case (Inr pair)
      then obtain info manifest where
        fm: "fetchManifest dm (cfg_AppVersion dm) = Inr (info, manifest)"
        by (cases pair) auto
      have b: "deployBatch dm manifest w =
                runCommands dm (GetCommands dm manifest (man_DeployCommands manifest)) manifest w1"
        using g by (simp add: deployBatch_def)
      obtain r w2 where rw: "deployBatch dm manifest w = (r, w2)" by fastforce
      show ?thesis
      proof (cases "returnsOk r")
        case False
        then have "snd (Deploy dm w) = w2"
          using g err fm rw [unfolded b]
          by (auto simp: Deploy_def Let_def returnsOk_def split: sum.splits option.splits)
        then show ?thesis using fm rw False by auto
      next
        case True
        then obtain out where r: "r = Inr (out, None)"
          by (auto simp: returnsOk_def split: sum.splits option.splits)
        have "snd (Deploy dm w) =
                snd (setDbVersion dm (cfg_AppVersion dm) (man_DbVersion manifest)
                       (''Created database version '' @ man_DbVersion manifest) (info_Path info) w2)"
          using g err fm rw [unfolded b] r
          by (simp add: Deploy_def Let_def split: prod.splits sum.splits option.splits)
        then show ?thesis using fm rw True by auto
      qed
    qed
  qed
qed

lemma Deploy_quiet: "orderly w (snd (Deploy dm w)) False"
proof -
  let ?w1 = "snd (callGetVersion dm w)"
  have g: "orderly w ?w1 True" by (rule orderly_callGetVersion)
  have r: "orderly ?w1 (snd (deployBatch dm manifest w)) (returnsOk (fst (deployBatch dm manifest w)))"
    for manifest
    unfolding deployBatch_def by (rule orderly_runCommands)
  consider
    (stop) "snd (Deploy dm w) = ?w1"
  | (failed) manifest where "\<not> returnsOk (fst (deployBatch dm manifest w))"
      "snd (Deploy dm w) = snd (deployBatch dm manifest w)"
  | (written) manifest a d de p where "returnsOk (fst (deployBatch dm manifest w))"
      "snd (Deploy dm w) = snd (setDbVersion dm a d de p (snd (deployBatch dm manifest w)))"
    using Deploy_world [of dm w] by blast
  then show ?thesis
  proof cases
    case stop
    then show ?thesis using orderly_weaken [OF g] by simp
  next
    case failed
    then show ?thesis
      using orderly_trans [OF g orderly_weaken [OF r [of manifest]]] by simp
  next
    case written
    have "orderly ?w1 (snd (deployBatch dm manifest w)) True"
      using r [of manifest] written(1) by simp
    then have "orderly ?w1 (snd (Deploy dm w)) False"
      unfolding written(2) using orderly_setDbVersion by (rule orderly_trans)
    with g show ?thesis by (rule orderly_trans)
  qed
qed

lemma silent_refl: "silent w w"
  unfolding silent_def by (intro exI [of _ "[]"]) (simp add: extends_refl)

lemma silent_trans: "silent w w1 \<Longrightarrow> silent w1 w2 \<Longrightarrow> silent w w2"
  unfolding silent_def using extends_trans by fastforce

lemma silent_not_wrote: "silent w w' \<Longrightarrow> \<not> wrote w w'"
  unfolding silent_def wrote_def using extends_issued by fastforce

lemma silent_runCommands: "silent w (snd (runCommands dm cmds manifest w))"
  using runCommands_trace [of w dm cmds manifest] run_not_write unfolding silent_def by blast

lemma silent_runStage: "silent w (snd (runStage dm name manifest log w))"
  by (simp add: runStage_world silent_runCommands)

lemma alterStage_world: "snd (alterStage dm manifest log w) = afterAlter dm manifest w"
  by (simp add: alterStage_def afterAlter_def runStage_world)

lemma alterStage_stepOk: "stepOk (fst (alterStage dm manifest log w)) = alterOk dm manifest w"
  by (simp add: alterStage_def alterOk_def runStage_stepOk stepOk_Next)

lemma silent_afterAlter: "silent w (afterAlter dm manifest w)"
  by (simp add: afterAlter_def silent_runCommands silent_refl)

lemma silent_callGetVersion: "silent w (snd (callGetVersion dm w))"
  unfolding silent_def
  by (intro exI [of _ "[GetVersionCall (fst (provGetVersion dm (pstate w)))]"])
     (simp add: callGetVersion_def extends_def isSetVersion_def split: prod.splits)

lemma quiet_of_orderly: "orderly w w' ok \<Longrightarrow> quietAfterFailure (issued w w')"
  unfolding orderly_def using extends_issued by fastforce

text \<open>
  Claim C5. When the provider reports a deployed version \<open>c\<close> with no error, the plan
  is fetched, and the target application version is that of \<open>c\<close>, \<open>Upgrade\<close> returns
  with no error and the informational log, and the one call it has issued is
  \<open>getVersion\<close>: no \<open>runCommand\<close>, no \<open>setVersion\<close>. The plan is arbitrary.
\<close>

theorem upgrade_same_version:
  assumes "provGetVersion dm (pstate w) = (m, s')"
    and "GetVersion (decoded m) = Inr (Some c)"
    and "\<not> HasError (decoded m)"
    and "fetchPlan dm = Inr plan"
    and "cfg_AppVersion dm = ver_AppVersion c"
  shows "Upgrade dm w =
           (Inr (nothingToDo c, None), \<lparr> pstate = s', calls = calls w @ [GetVersionCall m] \<rparr>)"
proof -
  have e: "Error (decoded m) = Inr None"
    using assms(3) by (simp add: HasError_def Error_def)
  have "getVersion dm w =
          (Inr (Some c, None), \<lparr> pstate = s', calls = calls w @ [GetVersionCall m] \<rparr>)"
    by (simp add: getVersion_def callGetVersion_def assms(1,2) e)
  then show ?thesis
    by (simp add: Upgrade_def assms(4,5))
qed


theorem upgrade_same_version_witness:
  "Upgrade (exDbMan ''v2'') (deployedWorld ''v2'' ''2'') =
     (Inr (nothingToDo (exVersion ''v2'' ''2''), None),
      \<lparr> pstate = [exVersion ''v2'' ''2''],
        calls = [GetVersionCall [(''log'', JStr []), (''result'', versionObject (exVersion ''v2'' ''2''))]] \<rparr>)"
proof -
  let ?m = "[(''log'', JStr []), (''result'', versionObject (exVersion ''v2'' ''2''))]"
  have 1: "provGetVersion (exDbMan ''v2'') (pstate (deployedWorld ''v2'' ''2'')) =
             (?m, [exVersion ''v2'' ''2''])"
    by (simp add: exDbMan_def deployedWorld_def historyGetVersion_def)
  have 2: "GetVersion (decoded ?m) = Inr (Some (exVersion ''v2'' ''2''))"
    by (simp add: GetVersion_def Get_def decoded_def versionObject_def field_def exVersion_def)
  have 3: "\<not> HasError (decoded ?m)"
    by (simp add: HasError_def Get_def decoded_def)
  have 4: "fetchPlan (exDbMan ''v2'') = Inr exPlan"
    by (simp add: exDbMan_def)
  have 5: "cfg_AppVersion (exDbMan ''v2'') = ver_AppVersion (exVersion ''v2'' ''2'')"
    by (simp add: exDbMan_def exVersion_def)
  show ?thesis
    using upgrade_same_version [OF 1 2 3 4 5] by (simp add: deployedWorld_def)
qed

text \<open>
  Claim C9. \<open>GetVersion\<close> asserts the type of the \<open>result\<close> entry without a check:
  when the map has no \<open>result\<close> key, or the entry is not an object, it panics; it never
  returns \<open>nil\<close>. So \<open>Create\<close>, given an envelope with no error whose \<open>result\<close> is not
  an object, panics at its version check, with \<open>getVersion\<close> the one call issued; and
  more generally, given an envelope with no error, it panics wherever \<open>GetVersion\<close>
  does, also on an object that lacks one of the five strings of a version.
\<close>

theorem GetVersion_unchecked:
  "(map_of (p_value r) ''result'' = None \<longrightarrow> GetVersion r = Inl (InterfaceConversion ''result'')) \<and>
   ((\<forall>v. Get r ''result'' \<noteq> JObj v) \<longrightarrow> GetVersion r = Inl (InterfaceConversion ''result'')) \<and>
   GetVersion r \<noteq> Inr None \<and>
   (provGetVersion dm (pstate w) = (m, s') \<and> \<not> HasError (decoded m) \<and>
      (\<forall>v. Get (decoded m) ''result'' \<noteq> JObj v) \<longrightarrow>
      Create dm w = (Inl (InterfaceConversion ''result''),
                     \<lparr> pstate = s', calls = calls w @ [GetVersionCall m] \<rparr>)) \<and>
   (provGetVersion dm (pstate w) = (m, s') \<and> \<not> HasError (decoded m) \<and>
      GetVersion (decoded m) = Inl p \<longrightarrow>
      Create dm w = (Inl p, \<lparr> pstate = s', calls = calls w @ [GetVersionCall m] \<rparr>))"
proof (intro conjI impI)
  assume "map_of (p_value r) ''result'' = None"
  then have "Get r ''result'' = JNull" by (rule Get_missing)
  then show "GetVersion r = Inl (InterfaceConversion ''result'')"
    by (simp add: GetVersion_def)
next
  assume "\<forall>v. Get r ''result'' \<noteq> JObj v"
  then show "GetVersion r = Inl (InterfaceConversion ''result'')" by (rule GetVersion_not_object)
next
  show "GetVersion r \<noteq> Inr None" by (rule GetVersion_never_nil)
next
  assume a: "provGetVersion dm (pstate w) = (m, s') \<and> \<not> HasError (decoded m) \<and>
      (\<forall>v. Get (decoded m) ''result'' \<noteq> JObj v)"
  then have "GetVersion (decoded m) = Inl (InterfaceConversion ''result'')"
    using GetVersion_not_object by blast
  with a show "Create dm w = (Inl (InterfaceConversion ''result''),
                     \<lparr> pstate = s', calls = calls w @ [GetVersionCall m] \<rparr>)"
    by (simp add: Create_def callGetVersion_def Let_def)
next
  assume "provGetVersion dm (pstate w) = (m, s') \<and> \<not> HasError (decoded m) \<and>
      GetVersion (decoded m) = Inl p"
  then show "Create dm w = (Inl p, \<lparr> pstate = s', calls = calls w @ [GetVersionCall m] \<rparr>)"
    by (simp add: Create_def callGetVersion_def Let_def)
qed

theorem GetVersion_unchecked_witness:
  "map_of (p_value (decoded blankAnswer)) ''result'' = None \<and>
   GetVersion (decoded blankAnswer) = Inl (InterfaceConversion ''result'') \<and>
   \<not> HasError (decoded blankAnswer) \<and>
   Create blankDbMan freshWorld =
     (Inl (InterfaceConversion ''result''), \<lparr> pstate = [], calls = [GetVersionCall blankAnswer] \<rparr>)"
proof -
  have 1: "map_of (p_value (decoded blankAnswer)) ''result'' = None"
    by (simp add: decoded_def blankAnswer_def)
  have 2: "provGetVersion blankDbMan (pstate freshWorld) = (blankAnswer, [])"
    by (simp add: blankDbMan_def freshWorld_def)
  have 3: "\<not> HasError (decoded blankAnswer)"
    by (simp add: HasError_def Get_def decoded_def blankAnswer_def)
  have 4: "\<forall>v. Get (decoded blankAnswer) ''result'' \<noteq> JObj v"
    by (simp add: Get_def decoded_def blankAnswer_def)
  show ?thesis
    using GetVersion_unchecked [of "decoded blankAnswer" blankDbMan freshWorld blankAnswer "[]"]
      1 2 3 4
    by (simp add: freshWorld_def)
qed

lemma write_after_silence:
  "\<not> list_ex isSetVersion b \<Longrightarrow> b @ [s] = pre @ SetVersionCall v m # post \<Longrightarrow>
     pre = b \<and> post = []"
proof (induction b arbitrary: pre)
  case Nil
  then show ?case by (cases pre) auto
next
  case (Cons x b)
  show ?case
  proof (cases pre)
    case Nil
    then show ?thesis using Cons.prems by (simp add: isSetVersion_def)
  next
    case (Cons y pre')
    then show ?thesis using Cons.IH [of pre'] Cons.prems by simp
  qed
qed

lemma last_write:
  assumes "silent w w1" and "extends w1 w2 [s]"
    and "issued w w2 = pre @ SetVersionCall v m # post"
  shows "calls w @ pre = calls w1 \<and> post = []"
proof -
  from assms(1) obtain b where b: "calls w1 = calls w @ b" "\<not> list_ex isSetVersion b"
    unfolding silent_def extends_def by blast
  have "issued w w2 = b @ [s]"
    using assms(2) b(1) by (simp add: issued_def extends_def)
  then have "b @ [s] = pre @ SetVersionCall v m # post"
    using assms(3) by simp
  from write_after_silence [OF b(2) this] show ?thesis
    using b(1) by simp
qed

lemma wrote_split: "issued w w' = pre @ SetVersionCall v m # post \<Longrightarrow> wrote w w'"
  by (simp add: wrote_def isSetVersion_def)

lemma orderly_calls: "orderly w w' ok \<Longrightarrow> calls w' = calls w @ issued w w'"
  unfolding orderly_def extends_def issued_def by auto

lemma silent_afterBatches: "silent w (afterBatches dm manifest targetIx i w)"
proof (cases "i = targetIx")
  case True
  then show ?thesis
    using silent_trans [OF silent_afterAlter [of w dm manifest] silent_runCommands]
    by (simp add: afterBatches_def)
next
  case False
  then show ?thesis by (simp add: afterBatches_def silent_afterAlter)
qed

lemma upgradeRelease_write:
  assumes "wrote w (snd (upgradeRelease dm version plan currentIx targetIx i log w))"
  shows "i \<noteq> currentIx \<and>
         (\<exists>unused manifest.
            fetchManifest dm (info_AppVersion (Releases plan ! nat (i - 1))) = Inr (unused, manifest) \<and>
            alterOk dm manifest w \<and> (i = targetIx \<longrightarrow> deployOk dm manifest w) \<and>
            (\<exists>s. extends (afterBatches dm manifest targetIx i w)
                    (snd (upgradeRelease dm version plan currentIx targetIx i log w)) [s]))"
proof -
  let ?u = "upgradeRelease dm version plan currentIx targetIx i log w"
  let ?info = "Releases plan ! nat (i - 1)"
  have ns: "\<not> silent w (snd ?u)" using assms silent_not_wrote by blast
  have inrange: "\<not> (i - 1 < 0 \<or> int (length (Releases plan)) \<le> i - 1)"
  proof
    assume "i - 1 < 0 \<or> int (length (Releases plan)) \<le> i - 1"
    then have "snd ?u = w" by (simp add: upgradeRelease_def)
    then show False using ns silent_refl [of w] by simp
  qed
  obtain unused manifest where fm: "fetchManifest dm (info_AppVersion ?info) = Inr (unused, manifest)"
  proof (cases "fetchManifest dm (info_AppVersion ?info)")
    case (Inl e)
    then have "snd ?u = w" using inrange by (simp add: upgradeRelease_def Let_def)
    then show ?thesis using ns silent_refl [of w] by simp
  next
    case (Inr pair)
    then show ?thesis using that by (cases pair) auto
  qed
  have notcur: "i \<noteq> currentIx"
  proof
    assume "i = currentIx"
    then have "?u = runStage dm (man_UpgradePrepare manifest) manifest (log @ applyingLine ?info) w"
      using inrange fm by (simp add: upgradeRelease_def Let_def)
    then show False using ns silent_runStage [of w dm] by simp
  qed
  let ?A = "alterStage dm manifest (log @ applyingLine ?info) w"
  let ?W = "\<lambda>log3 w2.
              writeHistory dm (cfg_AppVersion dm) (man_DbVersion manifest)
                (''Upgraded database from version '' @ ver_DbVersion version @
                 '' to '' @ man_DbVersion manifest)
                (info_Path ?info) log3 w2"
  let ?K = "\<lambda>log2 w1.
              if i = targetIx
              then andThen (runStage dm (man_UpgradeDeploy manifest) manifest log2 w1) ?W
              else writeHistory dm (info_AppVersion ?info) (man_DbVersion manifest)
                     (''Updated database schema only to version '' @ man_DbVersion manifest)
                     (info_Path ?info) log2 w1"
  have unf: "?u = andThen ?A ?K"
    using inrange fm notcur by (simp add: upgradeRelease_def Let_def)
  have aok: "alterOk dm manifest w"
  proof (rule ccontr)
    assume "\<not> alterOk dm manifest w"
    then have "?u = ?A" unfolding unf by (simp add: andThen_stop alterStage_stepOk)
    then show False using ns silent_afterAlter [of w dm manifest] by (simp add: alterStage_world)
  qed
  have "stepOk (fst ?A)" using aok by (simp add: alterStage_stepOk)
  from andThen_go [OF this, of ?K]
  obtain l where "andThen ?A ?K = ?K l (snd ?A)" by blast
  then have l: "?u = ?K l (afterAlter dm manifest w)"
    unfolding unf by (simp only: alterStage_world)
  let ?D = "runStage dm (man_UpgradeDeploy manifest) manifest l (afterAlter dm manifest w)"
  have dok: "deployOk dm manifest w" if target: "i = targetIx"
  proof (rule ccontr)
    assume nd: "\<not> deployOk dm manifest w"
    have "\<not> stepOk (fst ?D)" using nd by (simp add: deployOk_def runStage_stepOk)
    then have "?u = ?D" unfolding l using target by (simp add: andThen_stop)
    then have "silent w (snd ?u)"
      using silent_trans [OF silent_afterAlter [of w dm manifest] silent_runStage] by simp
    then show False using ns by simp
  qed
  have tr: "\<exists>s. extends (afterBatches dm manifest targetIx i w) (snd ?u) [s]"
  proof (cases "i = targetIx")
    case True
    have "stepOk (fst ?D)" using dok [OF True] by (simp add: deployOk_def runStage_stepOk)
    from andThen_go [OF this, of ?W]
    obtain l' where "andThen ?D ?W = ?W l' (snd ?D)" by blast
    moreover have "snd ?D = afterBatches dm manifest targetIx i w"
      using True by (simp add: runStage_world afterBatches_def)
    ultimately have "?u = ?W l' (afterBatches dm manifest targetIx i w)"
      unfolding l using True by simp
    then show ?thesis
      using writeHistory_trace [of "afterBatches dm manifest targetIx i w" dm] by metis
  next
    case False
    then have "afterBatches dm manifest targetIx i w = afterAlter dm manifest w"
      by (simp add: afterBatches_def)
    moreover have "?u = writeHistory dm (info_AppVersion ?info) (man_DbVersion manifest)
                     (''Updated database schema only to version '' @ man_DbVersion manifest)
                     (info_Path ?info) l (afterAlter dm manifest w)"
      unfolding l using False by simp
    ultimately show ?thesis
      using writeHistory_trace [of "afterAlter dm manifest w" dm] by metis
  qed
  show ?thesis using notcur fm aok dok tr by blast
qed

lemma upgradeRelease_prefix:
  assumes "issued w (snd (upgradeRelease dm version plan currentIx targetIx i log w)) =
             pre @ SetVersionCall v m # post"
  shows "i \<noteq> currentIx \<and>
         (\<exists>unused manifest.
            fetchManifest dm (info_AppVersion (Releases plan ! nat (i - 1))) = Inr (unused, manifest) \<and>
            alterOk dm manifest w \<and> (i = targetIx \<longrightarrow> deployOk dm manifest w) \<and>
            calls w @ pre = calls (afterBatches dm manifest targetIx i w)) \<and>
         post = []"
proof -
  from upgradeRelease_write [OF wrote_split [OF assms]]
  obtain unused manifest s where
    c: "i \<noteq> currentIx"
      "fetchManifest dm (info_AppVersion (Releases plan ! nat (i - 1))) = Inr (unused, manifest)"
      "alterOk dm manifest w" "i = targetIx \<longrightarrow> deployOk dm manifest w"
    and e: "extends (afterBatches dm manifest targetIx i w)
              (snd (upgradeRelease dm version plan currentIx targetIx i log w)) [s]"
    by blast
  from last_write [OF silent_afterBatches e assms]
  show ?thesis using c by blast
qed

lemma upgradeRelease_calls:
  "calls (snd (upgradeRelease dm version plan currentIx targetIx i log w)) =
     calls w @ passCalls dm version plan currentIx targetIx (i, log, w)"
  using orderly_calls [OF orderly_upgradeRelease] by (simp add: passCalls_def)

lemma upgradeLoop_calls:
  "calls (snd (upgradeLoop dm version plan currentIx targetIx i log w)) =
     calls w @ concat (map (passCalls dm version plan currentIx targetIx)
                         (loopPasses dm version plan currentIx targetIx i log w))"
proof (induction dm version plan currentIx targetIx i log w rule: upgradeLoop.induct)
  case (1 dm version plan currentIx targetIx i log w)
  let ?r = "upgradeRelease dm version plan currentIx targetIx i log w"
  show ?case
  proof (cases "i \<le> targetIx")
    case False
    then show ?thesis
      by (subst upgradeLoop.simps, subst loopPasses.simps) simp
  next
    case True
    show ?thesis
    proof (cases "stepOk (fst ?r)")
      case False
      then have "snd (upgradeLoop dm version plan currentIx targetIx i log w) = snd ?r"
        using True
        by (subst upgradeLoop.simps) (auto simp: stepOk_def split: prod.splits sum.splits step.splits)
      moreover have "loopPasses dm version plan currentIx targetIx i log w = [(i, log, w)]"
        using True False
        by (subst loopPasses.simps) (auto simp: stepOk_def split: prod.splits sum.splits step.splits)
      ultimately show ?thesis
        by (simp add: upgradeRelease_calls)
    next
      case ok: True
      then obtain l where l: "?r = (Inr (Next l), snd ?r)"
        by (cases ?r) (auto simp: stepOk_def split: sum.splits step.splits)
      have eq: "upgradeLoop dm version plan currentIx targetIx i log w =
                upgradeLoop dm version plan currentIx targetIx (i + 1) l (snd ?r)"
        using True by (subst upgradeLoop.simps, subst l) simp
      have ps: "loopPasses dm version plan currentIx targetIx i log w =
                (i, log, w) # loopPasses dm version plan currentIx targetIx (i + 1) l (snd ?r)"
        using True by (subst loopPasses.simps, subst l) simp
      have ih: "calls (snd (upgradeLoop dm version plan currentIx targetIx (i + 1) l (snd ?r))) =
                calls (snd ?r) @ concat (map (passCalls dm version plan currentIx targetIx)
                         (loopPasses dm version plan currentIx targetIx (i + 1) l (snd ?r)))"
        using "1.IH" [OF True l [symmetric] refl refl] by simp
      show ?thesis
        unfolding eq ps using ih by (simp add: upgradeRelease_calls)
    qed
  qed
qed

lemma upgradeLoop_prefix:
  assumes "calls (snd (upgradeLoop dm version plan currentIx targetIx i log w)) =
             calls w @ pre @ SetVersionCall v m # post"
  shows "\<exists>j l w' unused manifest.
           (j, l, w') \<in> set (loopPasses dm version plan currentIx targetIx i log w) \<and>
           j \<noteq> currentIx \<and>
           fetchManifest dm (info_AppVersion (Releases plan ! nat (j - 1))) = Inr (unused, manifest) \<and>
           alterOk dm manifest w' \<and> (j = targetIx \<longrightarrow> deployOk dm manifest w') \<and>
           calls w @ pre = calls (afterBatches dm manifest targetIx j w')"
  using assms
proof (induction dm version plan currentIx targetIx i log w arbitrary: pre rule: upgradeLoop.induct)
  case (1 dm version plan currentIx targetIx i log w)
  let ?r = "upgradeRelease dm version plan currentIx targetIx i log w"
  let ?tr = "passCalls dm version plan currentIx targetIx (i, log, w)"
  have tr: "calls (snd ?r) = calls w @ ?tr" by (rule upgradeRelease_calls)
  have iss: "issued w (snd ?r) = ?tr" by (simp add: passCalls_def)
  have here: "\<exists>j l w' unused manifest.
           (j, l, w') \<in> set (loopPasses dm version plan currentIx targetIx i log w) \<and>
           j \<noteq> currentIx \<and>
           fetchManifest dm (info_AppVersion (Releases plan ! nat (j - 1))) = Inr (unused, manifest) \<and>
           alterOk dm manifest w' \<and> (j = targetIx \<longrightarrow> deployOk dm manifest w') \<and>
           calls w @ pre = calls (afterBatches dm manifest targetIx j w')"
    if le: "i \<le> targetIx" and sp: "?tr = pre @ SetVersionCall v m # post1" for post1
  proof -
    have "(i, log, w) \<in> set (loopPasses dm version plan currentIx targetIx i log w)"
      using le by (subst loopPasses.simps) simp
    moreover have "issued w (snd ?r) = pre @ SetVersionCall v m # post1"
      using sp iss by simp
    ultimately show ?thesis
      using upgradeRelease_prefix [of w dm version plan currentIx targetIx i log pre v m post1]
      by blast
  qed
  show ?case
  proof (cases "i \<le> targetIx")
    case False
    then have "snd (upgradeLoop dm version plan currentIx targetIx i log w) = w"
      by (subst upgradeLoop.simps) simp
    then show ?thesis using "1.prems" by simp
  next
    case True
    show ?thesis
    proof (cases "stepOk (fst ?r)")
      case False
      then have "snd (upgradeLoop dm version plan currentIx targetIx i log w) = snd ?r"
        using True
        by (subst upgradeLoop.simps) (auto simp: stepOk_def split: prod.splits sum.splits step.splits)
      then have "?tr = pre @ SetVersionCall v m # post"
        using "1.prems" tr by simp
      then show ?thesis by (rule here [OF True])
    next
      case ok: True
      then obtain l where l: "?r = (Inr (Next l), snd ?r)"
        by (cases ?r) (auto simp: stepOk_def split: sum.splits step.splits)
      have eq: "upgradeLoop dm version plan currentIx targetIx i log w =
                upgradeLoop dm version plan currentIx targetIx (i + 1) l (snd ?r)"
        using True by (subst upgradeLoop.simps, subst l) simp
      have ps: "loopPasses dm version plan currentIx targetIx i log w =
                (i, log, w) # loopPasses dm version plan currentIx targetIx (i + 1) l (snd ?r)"
        using True by (subst loopPasses.simps, subst l) simp
      let ?rest = "concat (map (passCalls dm version plan currentIx targetIx)
                         (loopPasses dm version plan currentIx targetIx (i + 1) l (snd ?r)))"
      have next_calls: "calls (snd (upgradeLoop dm version plan currentIx targetIx (i + 1) l (snd ?r))) =
                  calls (snd ?r) @ ?rest"
        by (rule upgradeLoop_calls)
      then have "?tr @ ?rest = pre @ SetVersionCall v m # post"
        using "1.prems" tr unfolding eq by simp
      then consider
        (first) post1 where "?tr = pre @ SetVersionCall v m # post1"
      | (later) pre' where "pre = ?tr @ pre'" "?rest = pre' @ SetVersionCall v m # post"
        by (auto simp: append_eq_append_conv2 append_eq_Cons_conv Cons_eq_append_conv)
      then show ?thesis
      proof cases
        case first
        then show ?thesis by (rule here [OF True])
      next
        case later
        have "calls (snd (upgradeLoop dm version plan currentIx targetIx (i + 1) l (snd ?r))) =
                calls (snd ?r) @ pre' @ SetVersionCall v m # post"
          using next_calls later(2) by simp
        from "1.IH" [OF True l [symmetric] refl refl this]
        obtain j l' w' unused manifest where
          "(j, l', w') \<in> set (loopPasses dm version plan currentIx targetIx (i + 1) l (snd ?r))"
          "j \<noteq> currentIx"
          "fetchManifest dm (info_AppVersion (Releases plan ! nat (j - 1))) = Inr (unused, manifest)"
          "alterOk dm manifest w'" "j = targetIx \<longrightarrow> deployOk dm manifest w'"
          "calls (snd ?r) @ pre' = calls (afterBatches dm manifest targetIx j w')"
          by blast
        then show ?thesis
          unfolding ps using tr later(1) by (intro exI [of _ j] exI [of _ l'] exI [of _ w']
              exI [of _ unused] exI [of _ manifest]) simp
      qed
    qed
  qed
qed

lemma Upgrade_loop:
  "snd (Upgrade dm w) = snd (callGetVersion dm w) \<or>
   (\<exists>version plan currentIx targetIx.
      fst (getVersion dm w) = Inr (Some version, None) \<and> fetchPlan dm = Inr plan \<and>
      getUpgradeWindow dm plan (ver_AppVersion version) (cfg_AppVersion dm) = (currentIx, targetIx) \<and>
      Upgrade dm w =
        upgradeLoop dm version plan currentIx targetIx currentIx [] (snd (callGetVersion dm w)))"
proof (cases "getVersion dm w")
  case (Pair r w1)
  then have w1: "w1 = snd (callGetVersion dm w)"
    using getVersion_world [of dm w] by simp
  show ?thesis
  proof (cases r)
    case (Inl p)
    then show ?thesis using Pair w1 by (simp add: Upgrade_def Let_def)
  next
    case (Inr ve)
    obtain v err where ve: "ve = (v, err)" by (cases ve)
    show ?thesis
    proof (cases "err = None \<and> v \<noteq> None")
      case False
      then show ?thesis
        using Pair w1 Inr ve by (cases err; cases v) (simp_all add: Upgrade_def Let_def)
    next
      case True
      then obtain version where v: "v = Some version" "err = None" by auto
      show ?thesis
      proof (cases "fetchPlan dm")
        case (Inl e)
        then show ?thesis using Pair w1 Inr ve v by (simp add: Upgrade_def Let_def)
      next
        case plan: (Inr plan)
        obtain currentIx targetIx where
          win: "getUpgradeWindow dm plan (ver_AppVersion version) (cfg_AppVersion dm) = (currentIx, targetIx)"
          by fastforce
        show ?thesis
        proof (cases "cfg_AppVersion dm = ver_AppVersion version \<or> targetIx \<le> currentIx")
          case True
          then have "snd (Upgrade dm w) = snd (callGetVersion dm w)"
            using Pair w1 Inr ve v plan win by (auto simp: Upgrade_def Let_def)
          then show ?thesis ..
        next
          case False
          then have "Upgrade dm w =
              upgradeLoop dm version plan currentIx targetIx currentIx [] (snd (callGetVersion dm w))"
            using Pair w1 Inr ve v plan win by (simp add: Upgrade_def Let_def)
          moreover have "fst (getVersion dm w) = Inr (Some version, None)"
            using Pair Inr ve v by simp
          ultimately show ?thesis using plan win by blast
        qed
      qed
    qed
  qed
qed

lemma callGetVersion_calls:
  "calls (snd (callGetVersion dm w)) = calls w @ [GetVersionCall (fst (provGetVersion dm (pstate w)))]"
  by (simp add: callGetVersion_def split: prod.splits)

lemma Upgrade_prefix:
  assumes "issued w (snd (Upgrade dm w)) = pre @ SetVersionCall v m # post"
  shows "\<exists>version plan currentIx targetIx j l w' unused manifest.
           fst (getVersion dm w) = Inr (Some version, None) \<and> fetchPlan dm = Inr plan \<and>
           getUpgradeWindow dm plan (ver_AppVersion version) (cfg_AppVersion dm) =
             (currentIx, targetIx) \<and>
           Upgrade dm w =
             upgradeLoop dm version plan currentIx targetIx currentIx [] (snd (callGetVersion dm w)) \<and>
           (j, l, w') \<in> set (loopPasses dm version plan currentIx targetIx currentIx []
                               (snd (callGetVersion dm w))) \<and>
           j \<noteq> currentIx \<and>
           fetchManifest dm (info_AppVersion (Releases plan ! nat (j - 1))) = Inr (unused, manifest) \<and>
           alterOk dm manifest w' \<and> (j = targetIx \<longrightarrow> deployOk dm manifest w') \<and>
           calls w @ pre = calls (afterBatches dm manifest targetIx j w')"
proof -
  let ?g = "GetVersionCall (fst (provGetVersion dm (pstate w)))"
  let ?w1 = "snd (callGetVersion dm w)"
  have all: "calls (snd (Upgrade dm w)) = calls w @ pre @ SetVersionCall v m # post"
    using orderly_calls [OF Upgrade_quiet [of w dm]] assms by simp
  from Upgrade_loop [of dm w] show ?thesis
  proof
    assume "snd (Upgrade dm w) = ?w1"
    then have "[?g] = pre @ SetVersionCall v m # post"
      using all by (simp add: callGetVersion_calls)
    then show ?thesis by (cases pre) auto
  next
    assume "\<exists>version plan currentIx targetIx.
      fst (getVersion dm w) = Inr (Some version, None) \<and> fetchPlan dm = Inr plan \<and>
      getUpgradeWindow dm plan (ver_AppVersion version) (cfg_AppVersion dm) = (currentIx, targetIx) \<and>
      Upgrade dm w = upgradeLoop dm version plan currentIx targetIx currentIx [] ?w1"
    then obtain version plan currentIx targetIx where
      run: "fst (getVersion dm w) = Inr (Some version, None)" "fetchPlan dm = Inr plan"
        "getUpgradeWindow dm plan (ver_AppVersion version) (cfg_AppVersion dm) = (currentIx, targetIx)"
        "Upgrade dm w = upgradeLoop dm version plan currentIx targetIx currentIx [] ?w1"
      by blast
    let ?rest = "concat (map (passCalls dm version plan currentIx targetIx)
                   (loopPasses dm version plan currentIx targetIx currentIx [] ?w1))"
    have "calls (snd (Upgrade dm w)) = calls ?w1 @ ?rest"
      unfolding run(4) by (rule upgradeLoop_calls)
    then have "?g # ?rest = pre @ SetVersionCall v m # post"
      using all by (simp add: callGetVersion_calls)
    then obtain pre' where pre': "pre = ?g # pre'" "?rest = pre' @ SetVersionCall v m # post"
      by (cases pre) auto
    have "calls (snd (upgradeLoop dm version plan currentIx targetIx currentIx [] ?w1)) =
            calls ?w1 @ pre' @ SetVersionCall v m # post"
      using upgradeLoop_calls [of dm version plan currentIx targetIx currentIx "[]" ?w1] pre'(2)
      by simp
    from upgradeLoop_prefix [OF this]
    obtain j l w' unused manifest where
      "(j, l, w') \<in> set (loopPasses dm version plan currentIx targetIx currentIx [] ?w1)"
      "j \<noteq> currentIx"
      "fetchManifest dm (info_AppVersion (Releases plan ! nat (j - 1))) = Inr (unused, manifest)"
      "alterOk dm manifest w'" "j = targetIx \<longrightarrow> deployOk dm manifest w'"
      "calls ?w1 @ pre' = calls (afterBatches dm manifest targetIx j w')"
      by blast
    moreover have "calls w @ pre = calls ?w1 @ pre'"
      using pre'(1) by (simp add: callGetVersion_calls)
    ultimately show ?thesis using run by metis
  qed
qed

lemma Deploy_prefix:
  assumes "issued w (snd (Deploy dm w)) = pre @ SetVersionCall v m # post"
  shows "(\<exists>info manifest.
            fetchManifest dm (cfg_AppVersion dm) = Inr (info, manifest) \<and>
            returnsOk (fst (deployBatch dm manifest w)) \<and>
            calls w @ pre = calls (snd (deployBatch dm manifest w))) \<and>
         post = []"
proof -
  have ns: "\<not> silent w (snd (Deploy dm w))"
    using wrote_split [OF assms] silent_not_wrote by blast
  have b: "silent w (snd (deployBatch dm manifest w))" for manifest
    unfolding deployBatch_def using silent_trans [OF silent_callGetVersion silent_runCommands] .
  consider
    (stop) "snd (Deploy dm w) = snd (callGetVersion dm w)"
  | (failed) manifest where "snd (Deploy dm w) = snd (deployBatch dm manifest w)"
  | (written) info manifest a d de p where
      "fetchManifest dm (cfg_AppVersion dm) = Inr (info, manifest)"
      "returnsOk (fst (deployBatch dm manifest w))"
      "snd (Deploy dm w) = snd (setDbVersion dm a d de p (snd (deployBatch dm manifest w)))"
    using Deploy_world [of dm w] by blast
  then show ?thesis
  proof cases
    case stop
    then show ?thesis using ns silent_callGetVersion [of w dm] by simp
  next
    case failed
    then show ?thesis using ns b [of manifest] by simp
  next
    case written
    obtain v' m' where "extends (snd (deployBatch dm manifest w)) (snd (Deploy dm w)) [SetVersionCall v' m']"
      unfolding written(3) using setDbVersion_trace by blast
    from last_write [OF b this assms] show ?thesis
      using written(1,2) by blast
  qed
qed

text \<open>
  Claim C6. A history write is issued only at the point where the batches of its stage
  have run and returned no error. In \<open>Deploy\<close>: whenever a \<open>setVersion\<close> call is
  among the calls issued, the manifest was fetched, the deploy batch returned no error,
  the calls before the write are exactly the calls up to the end of that batch, and no
  call follows the write. In a pass of the loop of \<open>Upgrade\<close>: whenever a \<open>setVersion\<close>
  call is among the calls issued, the release is not the current one, its manifest was
  fetched, its alter batch (when the manifest names one) returned no error and, at the
  target release, the deploy batch returned no error; the calls before the write are
  exactly the calls up to the end of these batches, and the write ends the pass. The
  calls of the loop are the calls of the passes it makes, one after the other. So in
  \<open>Upgrade\<close>: whenever a \<open>setVersion\<close> call is among the calls issued, the loop was
  reached with the version, the plan and the window of this run, and the write is the
  one of a pass of this run, issued as said. In both actions no call at all follows a
  command run that failed.
\<close>

theorem history_after_batch:
  "(\<forall>pre v m post.
      issued w (snd (Deploy dm w)) = pre @ SetVersionCall v m # post \<longrightarrow>
      (\<exists>info manifest.
         fetchManifest dm (cfg_AppVersion dm) = Inr (info, manifest) \<and>
         returnsOk (fst (deployBatch dm manifest w)) \<and>
         calls w @ pre = calls (snd (deployBatch dm manifest w))) \<and>
      post = []) \<and>
   (\<forall>pre v m post.
      issued w (snd (upgradeRelease dm version plan currentIx targetIx i log w)) =
        pre @ SetVersionCall v m # post \<longrightarrow>
      i \<noteq> currentIx \<and>
      (\<exists>unused manifest.
         fetchManifest dm (info_AppVersion (Releases plan ! nat (i - 1))) = Inr (unused, manifest) \<and>
         alterOk dm manifest w \<and> (i = targetIx \<longrightarrow> deployOk dm manifest w) \<and>
         calls w @ pre = calls (afterBatches dm manifest targetIx i w)) \<and>
      post = []) \<and>
   calls (snd (upgradeLoop dm version plan currentIx targetIx i log w)) =
     calls w @ concat (map (passCalls dm version plan currentIx targetIx)
                         (loopPasses dm version plan currentIx targetIx i log w)) \<and>
   (\<forall>pre v m post.
      issued w (snd (Upgrade dm w)) = pre @ SetVersionCall v m # post \<longrightarrow>
      (\<exists>ver pl cIx tIx j l w' unused manifest.
         fst (getVersion dm w) = Inr (Some ver, None) \<and> fetchPlan dm = Inr pl \<and>
         getUpgradeWindow dm pl (ver_AppVersion ver) (cfg_AppVersion dm) = (cIx, tIx) \<and>
         Upgrade dm w = upgradeLoop dm ver pl cIx tIx cIx [] (snd (callGetVersion dm w)) \<and>
         (j, l, w') \<in> set (loopPasses dm ver pl cIx tIx cIx [] (snd (callGetVersion dm w))) \<and>
         j \<noteq> cIx \<and>
         fetchManifest dm (info_AppVersion (Releases pl ! nat (j - 1))) = Inr (unused, manifest) \<and>
         alterOk dm manifest w' \<and> (j = tIx \<longrightarrow> deployOk dm manifest w') \<and>
         calls w @ pre = calls (afterBatches dm manifest tIx j w'))) \<and>
   quietAfterFailure (issued w (snd (Deploy dm w))) \<and>
   quietAfterFailure (issued w (snd (Upgrade dm w)))"
proof -
  have 1: "\<forall>pre v m post.
      issued w (snd (Deploy dm w)) = pre @ SetVersionCall v m # post \<longrightarrow>
      (\<exists>info manifest.
         fetchManifest dm (cfg_AppVersion dm) = Inr (info, manifest) \<and>
         returnsOk (fst (deployBatch dm manifest w)) \<and>
         calls w @ pre = calls (snd (deployBatch dm manifest w))) \<and>
      post = []"
    using Deploy_prefix [of w dm] by blast
  have 2: "\<forall>pre v m post.
      issued w (snd (upgradeRelease dm version plan currentIx targetIx i log w)) =
        pre @ SetVersionCall v m # post \<longrightarrow>
      i \<noteq> currentIx \<and>
      (\<exists>unused manifest.
         fetchManifest dm (info_AppVersion (Releases plan ! nat (i - 1))) = Inr (unused, manifest) \<and>
         alterOk dm manifest w \<and> (i = targetIx \<longrightarrow> deployOk dm manifest w) \<and>
         calls w @ pre = calls (afterBatches dm manifest targetIx i w)) \<and>
      post = []"
    using upgradeRelease_prefix [of w dm version plan currentIx targetIx i log] by blast
  have 3: "calls (snd (upgradeLoop dm version plan currentIx targetIx i log w)) =
     calls w @ concat (map (passCalls dm version plan currentIx targetIx)
                         (loopPasses dm version plan currentIx targetIx i log w))"
    by (rule upgradeLoop_calls)
  have 4: "\<forall>pre v m post.
      issued w (snd (Upgrade dm w)) = pre @ SetVersionCall v m # post \<longrightarrow>
      (\<exists>ver pl cIx tIx j l w' unused manifest.
         fst (getVersion dm w) = Inr (Some ver, None) \<and> fetchPlan dm = Inr pl \<and>
         getUpgradeWindow dm pl (ver_AppVersion ver) (cfg_AppVersion dm) = (cIx, tIx) \<and>
         Upgrade dm w = upgradeLoop dm ver pl cIx tIx cIx [] (snd (callGetVersion dm w)) \<and>
         (j, l, w') \<in> set (loopPasses dm ver pl cIx tIx cIx [] (snd (callGetVersion dm w))) \<and>
         j \<noteq> cIx \<and>
         fetchManifest dm (info_AppVersion (Releases pl ! nat (j - 1))) = Inr (unused, manifest) \<and>
         alterOk dm manifest w' \<and> (j = tIx \<longrightarrow> deployOk dm manifest w') \<and>
         calls w @ pre = calls (afterBatches dm manifest tIx j w'))"
    using Upgrade_prefix [of w dm] by blast
  have 5: "quietAfterFailure (issued w (snd (Deploy dm w)))"
    by (rule quiet_of_orderly [OF Deploy_quiet])
  have 6: "quietAfterFailure (issued w (snd (Upgrade dm w)))"
    by (rule quiet_of_orderly [OF Upgrade_quiet])
  show ?thesis
    using 1 2 3 4 5 6 by (intro conjI)
qed

theorem history_after_batch_witness:
  "issued freshWorld (snd (Deploy (exDbMan ''v1'') freshWorld)) =
     take 3 (issued freshWorld (snd (Deploy (exDbMan ''v1'') freshWorld))) @
     [SetVersionCall (exRow ''v1'' ''1'' ''Created database version 1'') [(''log'', JStr [])]] \<and>
   returnsOk (fst (deployBatch (exDbMan ''v1'') (exManifest ''1'') freshWorld)) \<and>
   calls freshWorld @ take 3 (issued freshWorld (snd (Deploy (exDbMan ''v1'') freshWorld))) =
     calls (snd (deployBatch (exDbMan ''v1'') (exManifest ''1'') freshWorld)) \<and>
   issued (deployedWorld ''v1'' ''1'')
     (snd (upgradeRelease (exDbMan ''v3'') (exVersion ''v1'' ''1'') exPlan 1 3 3 []
            (deployedWorld ''v1'' ''1''))) =
     take 2 (issued (deployedWorld ''v1'' ''1'')
       (snd (upgradeRelease (exDbMan ''v3'') (exVersion ''v1'' ''1'') exPlan 1 3 3 []
              (deployedWorld ''v1'' ''1'')))) @
     [SetVersionCall (exRow ''v3'' ''3'' ''Upgraded database from version 1 to 3'')
        [(''log'', JStr [])]] \<and>
   alterOk (exDbMan ''v3'') (exManifest ''3'') (deployedWorld ''v1'' ''1'') \<and>
   deployOk (exDbMan ''v3'') (exManifest ''3'') (deployedWorld ''v1'' ''1'') \<and>
   calls (deployedWorld ''v1'' ''1'') @
     take 2 (issued (deployedWorld ''v1'' ''1'')
       (snd (upgradeRelease (exDbMan ''v3'') (exVersion ''v1'' ''1'') exPlan 1 3 3 []
              (deployedWorld ''v1'' ''1'')))) =
     calls (afterBatches (exDbMan ''v3'') (exManifest ''3'') 3 3 (deployedWorld ''v1'' ''1'')) \<and>
   issued (deployedWorld ''v1'' ''1'') (snd (Upgrade (exDbMan ''v3'') (deployedWorld ''v1'' ''1''))) =
     take 6 (issued (deployedWorld ''v1'' ''1'')
       (snd (Upgrade (exDbMan ''v3'') (deployedWorld ''v1'' ''1'')))) @
     [SetVersionCall (exRow ''v3'' ''3'' ''Upgraded database from version 1 to 3'')
        [(''log'', JStr [])]] \<and>
   (\<exists>j l w' unused manifest.
      (j, l, w') \<in> set (loopPasses (exDbMan ''v3'') (exVersion ''v1'' ''1'') exPlan 1 3 1 []
                          (snd (callGetVersion (exDbMan ''v3'') (deployedWorld ''v1'' ''1'')))) \<and>
      fetchManifest (exDbMan ''v3'') (info_AppVersion (Releases exPlan ! nat (j - 1))) =
        Inr (unused, manifest) \<and>
      alterOk (exDbMan ''v3'') manifest w' \<and>
      calls (deployedWorld ''v1'' ''1'') @
        take 6 (issued (deployedWorld ''v1'' ''1'')
          (snd (Upgrade (exDbMan ''v3'') (deployedWorld ''v1'' ''1'')))) =
        calls (afterBatches (exDbMan ''v3'') manifest 3 j w')) \<and>
   quietAfterFailure
     (issued (deployedWorld ''v1'' ''1'') (snd (Upgrade (exDbMan ''v3'') (deployedWorld ''v1'' ''1''))))"
proof -
  let ?D1 = "exDbMan ''v1''"
  let ?D = "exDbMan ''v3''"
  let ?W = "deployedWorld ''v1'' ''1''"
  let ?V = "exVersion ''v1'' ''1''"
  let ?m = "[(''log'', JStr [])]"
  let ?s1 = "SetVersionCall (exRow ''v1'' ''1'' ''Created database version 1'') ?m"
  let ?s3 = "SetVersionCall (exRow ''v3'' ''3'' ''Upgraded database from version 1 to 3'') ?m"
  let ?d = "issued freshWorld (snd (Deploy ?D1 freshWorld))"
  let ?p = "issued ?W (snd (upgradeRelease ?D ?V exPlan 1 3 3 [] ?W))"
  let ?u = "issued ?W (snd (Upgrade ?D ?W))"
  have hd: "?d = take 3 ?d @ ?s1 # []"
    by code_simp
  have hp: "?p = take 2 ?p @ ?s3 # []"
    by code_simp
  have hu: "?u = take 6 ?u @ ?s3 # []"
    by code_simp
  have f1: "fetchManifest ?D1 (cfg_AppVersion ?D1) = Inr (info, manifest)
              \<Longrightarrow> manifest = exManifest ''1''" for info manifest
    by (simp add: exDbMan_def exPlan_def exRelease_def)
  have f3: "fetchManifest ?D (info_AppVersion (Releases exPlan ! nat (3 - 1)))
              = Inr (info, manifest) \<Longrightarrow> manifest = exManifest ''3''" for info manifest
    by (simp add: exDbMan_def exPlan_def exRelease_def)
  have gv: "fst (getVersion ?D ?W) = Inr (Some ?V, None)"
    by code_simp
  have fp: "fetchPlan ?D = Inr exPlan"
    by (simp add: exDbMan_def)
  have win: "getUpgradeWindow ?D exPlan (ver_AppVersion ?V) (cfg_AppVersion ?D) = (1, 3)"
    by code_simp
  note d = history_after_batch [of freshWorld ?D1 ?V exPlan 1 3 3 "[]"]
  note u = history_after_batch [of ?W ?D ?V exPlan 1 3 3 "[]"]
  have a: "returnsOk (fst (deployBatch ?D1 (exManifest ''1'') freshWorld)) \<and>
           calls freshWorld @ take 3 ?d = calls (snd (deployBatch ?D1 (exManifest ''1'') freshWorld))"
    using d hd f1 by blast
  have b: "alterOk ?D (exManifest ''3'') ?W \<and> deployOk ?D (exManifest ''3'') ?W \<and>
           calls ?W @ take 2 ?p = calls (afterBatches ?D (exManifest ''3'') 3 3 ?W)"
    using u hp f3 by blast
  note u4 = u [THEN conjunct2, THEN conjunct2, THEN conjunct2, THEN conjunct1, rule_format, OF hu]
  from u4 obtain ver pl cIx tIx j l w' unused manifest where
    c: "fst (getVersion ?D ?W) = Inr (Some ver, None)" "fetchPlan ?D = Inr pl"
       "getUpgradeWindow ?D pl (ver_AppVersion ver) (cfg_AppVersion ?D) = (cIx, tIx)"
       "(j, l, w') \<in> set (loopPasses ?D ver pl cIx tIx cIx [] (snd (callGetVersion ?D ?W)))"
       "fetchManifest ?D (info_AppVersion (Releases pl ! nat (j - 1))) = Inr (unused, manifest)"
       "alterOk ?D manifest w'"
       "calls ?W @ take 6 ?u = calls (afterBatches ?D manifest tIx j w')"
    by (elim exE conjE)
  have "ver = ?V" using c(1) gv by simp
  moreover have "pl = exPlan" using c(2) fp by simp
  ultimately have "cIx = 1 \<and> tIx = 3" using c(3) win by simp
  with \<open>ver = ?V\<close> \<open>pl = exPlan\<close> c(4-7)
  have e: "\<exists>j l w' unused manifest.
      (j, l, w') \<in> set (loopPasses ?D ?V exPlan 1 3 1 [] (snd (callGetVersion ?D ?W))) \<and>
      fetchManifest ?D (info_AppVersion (Releases exPlan ! nat (j - 1))) = Inr (unused, manifest) \<and>
      alterOk ?D manifest w' \<and>
      calls ?W @ take 6 ?u = calls (afterBatches ?D manifest 3 j w')"
    by blast
  have q: "quietAfterFailure ?u"
    using u by blast
  show ?thesis
    using hd hp hu a b e q by simp
qed

text \<open>
  Claim C2. \<open>Deploy\<close> goes on to the manifest and its deploy commands exactly when
  the envelope of \<open>getVersion\<close> carries an error: then, once the manifest is fetched, it
  runs the deploy batch, and a batch that returned no error is followed by the history
  write. When the envelope carries no error, \<open>Deploy\<close> builds its "existing database
  version" error from the entries \<open>dbVersion\<close> and \<open>appVersion\<close> of the top level of the
  envelope, where \<open>Create\<close> and \<open>GetVersion\<close> read the version from the object under
  \<open>result\<close>. An envelope that reports a present version as \<open>GetVersion\<close> reads it has
  no string \<open>dbVersion\<close> at its top level: then \<open>Deploy\<close> panics on its unchecked
  assertion, with \<open>getVersion\<close> the one call issued, while \<open>Create\<close> returns its error.
  \<open>Deploy\<close> returns the error only for an envelope that holds the two strings at its
  top level. An envelope with no error and no result meets the same panic: \<open>Deploy\<close>
  neither runs a deploy command nor returns the error.
\<close>

theorem deploy_existing_version:
  assumes "provGetVersion dm (pstate w) = (m, s')"
  shows "(\<not> HasError (decoded m) \<longrightarrow>
            ((\<forall>d. map_of m ''dbVersion'' \<noteq> Some (JStr d)) \<longrightarrow>
               Deploy dm w = (Inl (InterfaceConversion ''dbVersion''),
                              \<lparr> pstate = s', calls = calls w @ [GetVersionCall m] \<rparr>)) \<and>
            (\<forall>d a. map_of m ''dbVersion'' = Some (JStr d) \<and>
                   map_of m ''appVersion'' = Some (JStr a) \<longrightarrow>
               Deploy dm w =
                 (Inr ([], Some (''!!! I have found an existing database version '' @ d @
                                 '', which is for application version '' @ a)),
                  \<lparr> pstate = s', calls = calls w @ [GetVersionCall m] \<rparr>)) \<and>
            (\<forall>v. GetVersion (decoded m) = Inr (Some v) \<longrightarrow>
               Create dm w =
                 (Inr (''? I am checking that the database '' @ [CHR 0x27] @ cfg_DbName dm @
                       [CHR 0x27] @ '' does not already exist\<newline>'', Some (existsMessage v)),
                  \<lparr> pstate = s', calls = calls w @ [GetVersionCall m] \<rparr>))) \<and>
         (HasError (decoded m) \<longrightarrow>
            (\<forall>info manifest. fetchManifest dm (cfg_AppVersion dm) = Inr (info, manifest) \<longrightarrow>
               (if returnsOk (fst (deployBatch dm manifest w))
                then snd (Deploy dm w) =
                       snd (setDbVersion dm (cfg_AppVersion dm) (man_DbVersion manifest)
                             (''Created database version '' @ man_DbVersion manifest)
                             (info_Path info) (snd (deployBatch dm manifest w)))
                else Deploy dm w = deployBatch dm manifest w)))"
proof -
  have g: "callGetVersion dm w = (decoded m, \<lparr> pstate = s', calls = calls w @ [GetVersionCall m] \<rparr>)"
    using assms by (simp add: callGetVersion_def)
  have a: "Deploy dm w = (Inl (InterfaceConversion ''dbVersion''),
                          \<lparr> pstate = s', calls = calls w @ [GetVersionCall m] \<rparr>)"
    if ne: "\<not> HasError (decoded m)" and "\<forall>d. map_of m ''dbVersion'' \<noteq> Some (JStr d)"
  proof -
    have "GetString (decoded m) ''dbVersion'' = Inl (InterfaceConversion ''dbVersion'')"
      using that(2) by (auto simp: GetString_def Get_def decoded_def split: option.splits jv.splits)
    then show ?thesis
      using g ne by (simp add: Deploy_def)
  qed
  have b: "Deploy dm w =
             (Inr ([], Some (''!!! I have found an existing database version '' @ d @
                             '', which is for application version '' @ a)),
              \<lparr> pstate = s', calls = calls w @ [GetVersionCall m] \<rparr>)"
    if ne: "\<not> HasError (decoded m)"
      and "map_of m ''dbVersion'' = Some (JStr d) \<and> map_of m ''appVersion'' = Some (JStr a)"
    for d a
  proof -
    have "GetString (decoded m) ''dbVersion'' = Inr d" "GetString (decoded m) ''appVersion'' = Inr a"
      using that(2) by (simp_all add: GetString_def Get_def decoded_def)
    then show ?thesis
      using g ne by (simp add: Deploy_def)
  qed
  have c: "Create dm w =
             (Inr (''? I am checking that the database '' @ [CHR 0x27] @ cfg_DbName dm @
                   [CHR 0x27] @ '' does not already exist\<newline>'', Some (existsMessage v)),
              \<lparr> pstate = s', calls = calls w @ [GetVersionCall m] \<rparr>)"
    if "\<not> HasError (decoded m)" and "GetVersion (decoded m) = Inr (Some v)" for v
    using g that by (simp add: Create_def Let_def)
  have e: "if returnsOk (fst (deployBatch dm manifest w))
           then snd (Deploy dm w) =
                  snd (setDbVersion dm (cfg_AppVersion dm) (man_DbVersion manifest)
                        (''Created database version '' @ man_DbVersion manifest)
                        (info_Path info) (snd (deployBatch dm manifest w)))
           else Deploy dm w = deployBatch dm manifest w"
    if err: "HasError (decoded m)"
      and fm: "fetchManifest dm (cfg_AppVersion dm) = Inr (info, manifest)"
    for info manifest
  proof -
    obtain r w2 where rw: "deployBatch dm manifest w = (r, w2)" by fastforce
    then have rw': "runCommands dm (GetCommands dm manifest (man_DeployCommands manifest)) manifest
                      \<lparr> pstate = s', calls = calls w @ [GetVersionCall m] \<rparr> = (r, w2)"
      using g by (simp add: deployBatch_def)
    show ?thesis
    proof (cases "returnsOk r")
      case True
      then obtain out where "r = Inr (out, None)"
        by (auto simp: returnsOk_def split: sum.splits option.splits)
      then show ?thesis
        using g err fm rw rw' True
        by (simp add: Deploy_def Let_def split: prod.splits sum.splits option.splits)
    next
      case False
      then show ?thesis
        using g err fm rw rw'
        by (auto simp: Deploy_def Let_def returnsOk_def split: sum.splits option.splits)
    qed
  qed
  show ?thesis
    using a b c e by blast
qed

theorem deploy_existing_version_witness:
  "provGetVersion (exDbMan ''v1'') (pstate (deployedWorld ''v1'' ''1'')) =
     ([(''log'', JStr []), (''result'', versionObject (exVersion ''v1'' ''1''))],
      [exVersion ''v1'' ''1'']) \<and>
   HasError (decoded [(''log'', JStr []), (''result'', versionObject (exVersion ''v1'' ''1''))]) = False \<and>
   GetVersion (decoded [(''log'', JStr []), (''result'', versionObject (exVersion ''v1'' ''1''))]) =
     Inr (Some (exVersion ''v1'' ''1'')) \<and>
   Deploy (exDbMan ''v1'') (deployedWorld ''v1'' ''1'') =
     (Inl (InterfaceConversion ''dbVersion''),
      \<lparr> pstate = [exVersion ''v1'' ''1''],
        calls = [GetVersionCall [(''log'', JStr []), (''result'', versionObject (exVersion ''v1'' ''1''))]] \<rparr>) \<and>
   Create (exDbMan ''v1'') (deployedWorld ''v1'' ''1'') =
     (Inr (''? I am checking that the database '' @ [CHR 0x27] @ cfg_DbName (exDbMan ''v1'') @
           [CHR 0x27] @ '' does not already exist\<newline>'', Some (existsMessage (exVersion ''v1'' ''1''))),
      \<lparr> pstate = [exVersion ''v1'' ''1''],
        calls = [GetVersionCall [(''log'', JStr []), (''result'', versionObject (exVersion ''v1'' ''1''))]] \<rparr>) \<and>
   provGetVersion flatDbMan (pstate freshWorld) = (flatAnswer, []) \<and>
   HasError (decoded flatAnswer) = False \<and>
   Deploy flatDbMan freshWorld =
     (Inr ([], Some (''!!! I have found an existing database version 1, '' @
                     ''which is for application version v1'')),
      \<lparr> pstate = [], calls = [GetVersionCall flatAnswer] \<rparr>) \<and>
   provGetVersion blankDbMan (pstate freshWorld) = (blankAnswer, []) \<and>
   HasError (decoded blankAnswer) = False \<and>
   Deploy blankDbMan freshWorld =
     (Inl (InterfaceConversion ''dbVersion''), \<lparr> pstate = [], calls = [GetVersionCall blankAnswer] \<rparr>) \<and>
   HasError (decoded [(''error'', JStr ''no version''), (''log'', JStr [])]) \<and>
   returnsOk (fst (deployBatch (exDbMan ''v1'') (exManifest ''1'') freshWorld)) \<and>
   snd (Deploy (exDbMan ''v1'') freshWorld) =
     snd (setDbVersion (exDbMan ''v1'') ''v1'' ''1'' ''Created database version 1'' ''rel-1''
           (snd (deployBatch (exDbMan ''v1'') (exManifest ''1'') freshWorld))) \<and>
   map isRunCommand (calls (snd (Deploy (exDbMan ''v1'') freshWorld))) = [False, True, True, False]"
proof -
  let ?n = "[(''log'', JStr []), (''result'', versionObject (exVersion ''v1'' ''1''))]"
  have 1: "provGetVersion (exDbMan ''v1'') (pstate (deployedWorld ''v1'' ''1'')) =
             (?n, [exVersion ''v1'' ''1''])"
    by (simp add: exDbMan_def deployedWorld_def historyGetVersion_def)
  have 2: "\<not> HasError (decoded ?n)"
    by (simp add: HasError_def Get_def decoded_def)
  have 3: "\<forall>d. map_of ?n ''dbVersion'' \<noteq> Some (JStr d)"
    by simp
  have 4: "GetVersion (decoded ?n) = Inr (Some (exVersion ''v1'' ''1''))"
    by (simp add: GetVersion_def Get_def decoded_def versionObject_def field_def exVersion_def)
  have 5: "calls (deployedWorld ''v1'' ''1'') = []"
    by (simp add: deployedWorld_def)
  have 6: "provGetVersion flatDbMan (pstate freshWorld) = (flatAnswer, [])"
    by (simp add: flatDbMan_def freshWorld_def)
  have 7: "\<not> HasError (decoded flatAnswer)"
    by (simp add: HasError_def Get_def decoded_def flatAnswer_def)
  have 8: "map_of flatAnswer ''dbVersion'' = Some (JStr ''1'') \<and>
           map_of flatAnswer ''appVersion'' = Some (JStr ''v1'')"
    by (simp add: flatAnswer_def)
  have 9: "provGetVersion blankDbMan (pstate freshWorld) = (blankAnswer, [])"
    by (simp add: blankDbMan_def freshWorld_def)
  have 10: "\<not> HasError (decoded blankAnswer)"
    by (simp add: HasError_def Get_def decoded_def blankAnswer_def)
  have 11: "\<forall>d. map_of blankAnswer ''dbVersion'' \<noteq> Some (JStr d)"
    by (simp add: blankAnswer_def)
  have 12: "calls freshWorld = []"
    by (simp add: freshWorld_def)
  have a: "Deploy (exDbMan ''v1'') (deployedWorld ''v1'' ''1'') =
     (Inl (InterfaceConversion ''dbVersion''),
      \<lparr> pstate = [exVersion ''v1'' ''1''], calls = [GetVersionCall ?n] \<rparr>) \<and>
     Create (exDbMan ''v1'') (deployedWorld ''v1'' ''1'') =
     (Inr (''? I am checking that the database '' @ [CHR 0x27] @ cfg_DbName (exDbMan ''v1'') @
           [CHR 0x27] @ '' does not already exist\<newline>'', Some (existsMessage (exVersion ''v1'' ''1''))),
      \<lparr> pstate = [exVersion ''v1'' ''1''], calls = [GetVersionCall ?n] \<rparr>)"
    using deploy_existing_version [OF 1] 2 3 4 5 by simp
  have b: "Deploy flatDbMan freshWorld =
     (Inr ([], Some (''!!! I have found an existing database version 1, '' @
                     ''which is for application version v1'')),
      \<lparr> pstate = [], calls = [GetVersionCall flatAnswer] \<rparr>)"
    using deploy_existing_version [OF 6] 7 8 12 by simp
  have c: "Deploy blankDbMan freshWorld =
     (Inl (InterfaceConversion ''dbVersion''), \<lparr> pstate = [], calls = [GetVersionCall blankAnswer] \<rparr>)"
    using deploy_existing_version [OF 9] 10 11 12 by simp
  let ?e = "[(''error'', JStr ''no version''), (''log'', JStr [])]"
  have 13: "provGetVersion (exDbMan ''v1'') (pstate freshWorld) = (?e, [])"
    by (simp add: exDbMan_def freshWorld_def historyGetVersion_def)
  have 14: "HasError (decoded ?e)"
    by (simp add: HasError_def Get_def decoded_def)
  have 15: "fetchManifest (exDbMan ''v1'') (cfg_AppVersion (exDbMan ''v1'')) =
             Inr (exRelease ''v1'' ''1'', exManifest ''1'')"
    by (simp add: exDbMan_def exPlan_def exRelease_def)
  have 16: "returnsOk (fst (deployBatch (exDbMan ''v1'') (exManifest ''1'') freshWorld))"
    by code_simp
  have 17: "map isRunCommand (calls (snd (Deploy (exDbMan ''v1'') freshWorld))) =
             [False, True, True, False]"
    by code_simp
  have 18: "cfg_AppVersion (exDbMan ''v1'') = ''v1'' \<and> man_DbVersion (exManifest ''1'') = ''1'' \<and>
           info_Path (exRelease ''v1'' ''1'') = ''rel-1''"
    by (simp add: exDbMan_def exManifest_def exRelease_def)
  have d: "snd (Deploy (exDbMan ''v1'') freshWorld) =
     snd (setDbVersion (exDbMan ''v1'') ''v1'' ''1'' ''Created database version 1'' ''rel-1''
           (snd (deployBatch (exDbMan ''v1'') (exManifest ''1'') freshWorld)))"
    using deploy_existing_version [OF 13] 14 15 16 18 by simp
  show ?thesis
    using 1 2 4 6 7 9 10 a b c 14 16 17 d by simp
qed

section \<open>Parameter envelope: properties\<close>











end
